(* ===== verification/Prelude.thy ===== *)
theory Prelude
  imports Main "HOL-Library.Word"
begin

text \<open>
  Shared vocabulary of the development: the status codes of
  \<^verbatim>\<open>pjlib/include/pj/errno.h\<close> and of the libraries built on it, C arithmetic where it differs
  from that of HOL (unsigned wrap-around, division that truncates towards zero), the minimum and
  maximum macros, and generic lemmas the components share. The collections declared here gather
  the facts about one group of definitions, so that a component's proofs name the group.
\<close>

named_theorems pj_arith "C arithmetic, unfolded"
named_theorems pj_frame "which fields an operation leaves alone"

section \<open>Status codes\<close>

type_synonym pj_status_t = int

abbreviation (input) "PJ_SUCCESS \<equiv> (0 :: pj_status_t)"
abbreviation (input) "PJ_EUNKNOWN \<equiv> (70001 :: pj_status_t)"
abbreviation (input) "PJ_EPENDING \<equiv> (70002 :: pj_status_t)"
abbreviation (input) "PJ_EINVAL \<equiv> (70004 :: pj_status_t)"
abbreviation (input) "PJ_ENOTFOUND \<equiv> (70006 :: pj_status_t)"
abbreviation (input) "PJ_ENOMEM \<equiv> (70007 :: pj_status_t)"
abbreviation (input) "PJ_EBUG \<equiv> (70008 :: pj_status_t)"
abbreviation (input) "PJ_ETOOMANY \<equiv> (70010 :: pj_status_t)"
abbreviation (input) "PJ_EBUSY \<equiv> (70011 :: pj_status_t)"
abbreviation (input) "PJ_EINVALIDOP \<equiv> (70013 :: pj_status_t)"
abbreviation (input) "PJ_EEXISTS \<equiv> (70015 :: pj_status_t)"
abbreviation (input) "PJ_ETOOBIG \<equiv> (70017 :: pj_status_t)"
abbreviation (input) "PJ_ERESOLVE \<equiv> (70018 :: pj_status_t)"
abbreviation (input) "PJ_ETOOSMALL \<equiv> (70019 :: pj_status_t)"
abbreviation (input) "PJ_EIGNORED \<equiv> (70020 :: pj_status_t)"
abbreviation (input) "PJSIP_ENOTREQUESTMSG \<equiv> (171021 :: pj_status_t)"
abbreviation (input) "PJSIP_ENOTRESPONSEMSG \<equiv> (171022 :: pj_status_t)"
abbreviation (input) "PJSIP_EMISSINGHDR \<equiv> (171050 :: pj_status_t)"
abbreviation (input) "PJSIP_EINVALIDHDR \<equiv> (171051 :: pj_status_t)"
abbreviation (input) "PJSIP_EINVALIDMETHOD \<equiv> (171055 :: pj_status_t)"
abbreviation (input) "PJLIB_UTIL_EDNS_NXDOMAIN \<equiv> (320053 :: pj_status_t)"
abbreviation (input) "PJNATH_EINSTUNMSGTYPE \<equiv> (370003 :: pj_status_t)"
abbreviation (input) "PJNATH_ESTUNTIMEDOUT \<equiv> (370004 :: pj_status_t)"
abbreviation (input) "PJNATH_ESTUNDESTROYED \<equiv> (370060 :: pj_status_t)"

section \<open>C arithmetic\<close>

text \<open>
  A C \<^verbatim>\<open>unsigned\<close> is 32 bits wide: a result of an unsigned operation is its value modulo
  \<open>2 ^ 32\<close>. Where an operand may make the result leave the range, the models write \<open>u32\<close>.
\<close>

definition u32 :: "int \<Rightarrow> nat" where
  [pj_arith]: "u32 x = nat (x mod 4294967296)"

text \<open>A C \<^verbatim>\<open>int\<close> read from an unsigned value of the same width.\<close>

definition s32 :: "nat \<Rightarrow> int" where
  [pj_arith]: "s32 n = (if n < 2147483648 then int n else int n - 4294967296)"

text \<open>Signed division and remainder truncate towards zero.\<close>

definition cdiv :: "int \<Rightarrow> int \<Rightarrow> int" where
  "cdiv a b = (if (a < 0) = (b < 0) then \<bar>a\<bar> div \<bar>b\<bar> else - (\<bar>a\<bar> div \<bar>b\<bar>))"

definition crem :: "int \<Rightarrow> int \<Rightarrow> int" where
  "crem a b = a - cdiv a b * b"

definition PJ_MIN :: "'a :: linorder \<Rightarrow> 'a \<Rightarrow> 'a" where
  "PJ_MIN x y = (if x < y then x else y)"

definition PJ_MAX :: "'a :: linorder \<Rightarrow> 'a \<Rightarrow> 'a" where
  "PJ_MAX x y = (if x > y then x else y)"

lemma PJ_MIN_min [simp]: "PJ_MIN x y = min x y"
  by (auto simp: PJ_MIN_def min_def)

lemma PJ_MAX_max [simp]: "PJ_MAX x y = max x y"
  by (auto simp: PJ_MAX_def max_def)

lemma u32_id [simp]: "0 \<le> x \<Longrightarrow> x < 4294967296 \<Longrightarrow> u32 x = nat x"
  by (simp add: u32_def)

lemma u32_nat: "n < 4294967296 \<Longrightarrow> u32 (int n) = n"
  by simp

lemma u32_less [simp]: "u32 x < 4294967296"
  by (simp add: u32_def)

lemma s32_id [simp]: "n < 2147483648 \<Longrightarrow> s32 n = int n"
  by (simp add: s32_def)

lemma cdiv_nonneg [simp]: "0 \<le> a \<Longrightarrow> 0 < b \<Longrightarrow> cdiv a b = a div b"
  by (simp add: cdiv_def)

lemma crem_nonneg [simp]: "0 \<le> a \<Longrightarrow> 0 < b \<Longrightarrow> crem a b = a mod b"
  by (simp add: crem_def minus_div_mult_eq_mod)

type_synonym byte = "8 word"

section \<open>Lists and lookups\<close>

lemma list_update_in_range: "i < length xs \<Longrightarrow> xs[i := v] ! j = (if j = i then v else xs ! j)"
  by (metis nth_list_update_eq nth_list_update_neq)

lemma map_of_filter_ne: "map_of (filter (\<lambda>(k, v). k \<noteq> a) xs) = (map_of xs)(a := None)"
  by (induction xs) (auto simp: fun_eq_iff)

end
