(* ===== verification/Pj_String.thy ===== *)
theory Pj_String
  imports Prelude
begin

text \<open>
  Strings of PJLIB (\<^verbatim>\<open>pjlib/include/pj/string.h\<close>, \<^verbatim>\<open>ctype.h\<close>, \<^verbatim>\<open>pjlib/src/pj/string.c\<close>): a \<^verbatim>\<open>pj_str_t\<close> is
  the list of its bytes. Comparison with and without regard to case, numbers to digits and back. An
  \<^verbatim>\<open>unsigned long\<close> has 32 bits, as on Windows, which the program is built for.
\<close>

section \<open>Characters\<close>

text \<open>A literal of the source.\<close>

definition ascii :: "string \<Rightarrow> byte list" where
  "ascii s = map of_char s"

definition pj_tolower :: "byte \<Rightarrow> byte" where
  "pj_tolower c = (if 65 \<le> c \<and> c \<le> 90 then c + 32 else c)"

definition pj_isdigit :: "byte \<Rightarrow> bool" where
  "pj_isdigit c \<longleftrightarrow> 48 \<le> c \<and> c \<le> 57"

definition pj_isspace :: "byte \<Rightarrow> bool" where
  "pj_isspace c \<longleftrightarrow> c = 32 \<or> (9 \<le> c \<and> c \<le> 13)"

section \<open>Comparison without regard to case\<close>

fun pj_ansi_strnicmp_eq :: "nat \<Rightarrow> byte list \<Rightarrow> byte list \<Rightarrow> bool" where
  "pj_ansi_strnicmp_eq 0 _ _ \<longleftrightarrow> True"
| "pj_ansi_strnicmp_eq (Suc n) (a # as) (b # bs) \<longleftrightarrow>
     pj_tolower a = pj_tolower b \<and> (a = 0 \<or> pj_ansi_strnicmp_eq n as bs)"
| "pj_ansi_strnicmp_eq (Suc n) _ _ \<longleftrightarrow> False"

definition pj_stricmp_eq :: "byte list \<Rightarrow> byte list \<Rightarrow> bool" where
  "pj_stricmp_eq s1 s2 \<longleftrightarrow>
     (if s1 = [] then s2 = [] else s2 \<noteq> [] \<and> pj_ansi_strnicmp_eq (min (length s1) (length s2)) s1 s2 \<and>
                                   length s1 = length s2)"

definition pj_strnicmp_eq :: "byte list \<Rightarrow> byte list \<Rightarrow> nat \<Rightarrow> bool" where
  "pj_strnicmp_eq s1 s2 len \<longleftrightarrow> pj_stricmp_eq (take len s1) (take len s2)"

text \<open>The full comparison; of the value of \<^verbatim>\<open>strncasecmp\<close> only the sign matters.\<close>

fun pj_ansi_strnicmp :: "nat \<Rightarrow> byte list \<Rightarrow> byte list \<Rightarrow> int" where
  "pj_ansi_strnicmp (Suc n) (a # as) (b # bs) =
     (if pj_tolower a \<noteq> pj_tolower b then int (unat (pj_tolower a)) - int (unat (pj_tolower b))
      else if a = 0 then 0 else pj_ansi_strnicmp n as bs)"
| "pj_ansi_strnicmp _ _ _ = 0"

definition pj_stricmp :: "byte list \<Rightarrow> byte list \<Rightarrow> int" where
  "pj_stricmp s1 s2 =
     (if s1 = [] then (if s2 = [] then 0 else -1) else if s2 = [] then 1
      else let res = pj_ansi_strnicmp (min (length s1) (length s2)) s1 s2
           in if res = 0 then (if length s1 < length s2 then -1 else if length s1 = length s2 then 0 else 1) else res)"

section \<open>Numbers\<close>

text \<open>The digits as the loop of \<^verbatim>\<open>pj_utoa_pad\<close> writes them, the last first; the code then reverses them.\<close>

fun utoa_digits :: "nat \<Rightarrow> byte list" where
  "utoa_digits val = word_of_nat (val mod 10 + 48) # (if val div 10 > 0 then utoa_digits (val div 10) else [])"

declare utoa_digits.simps [simp del]

definition pj_utoa :: "nat \<Rightarrow> byte list" where
  "pj_utoa val = rev (utoa_digits val)"

definition digit_val :: "byte \<Rightarrow> nat" where
  "digit_val c = unat c - 48"

fun strtoul_loop :: "nat \<Rightarrow> byte list \<Rightarrow> nat" where
  "strtoul_loop v [] = v"
| "strtoul_loop v (c # cs) = (if \<not> pj_isdigit c then v else strtoul_loop (u32 (int v * 10 + int (digit_val c))) cs)"

definition pj_strtoul :: "byte list \<Rightarrow> nat" where
  "pj_strtoul str = strtoul_loop 0 str"

text \<open>\<^verbatim>\<open>pj_strtoul2\<close> in base 10, with the string that \<^verbatim>\<open>endptr\<close> is set to.\<close>

definition pj_strtoul2 :: "byte list \<Rightarrow> nat \<times> byte list" where
  "pj_strtoul2 str = (strtoul_loop 0 str, dropWhile pj_isdigit str)"

abbreviation (input) "PJ_MAXULONG \<equiv> (4294967295 :: nat)"

fun strtoul3_loop :: "nat \<Rightarrow> byte list \<Rightarrow> pj_status_t + nat" where
  "strtoul3_loop v [] = Inr v"
| "strtoul3_loop v (c # cs) =
     (if \<not> pj_isdigit c then Inr v
      else if v > PJ_MAXULONG div 10 then Inl PJ_ETOOBIG
      else if PJ_MAXULONG - v * 10 < digit_val c then Inl PJ_ETOOBIG
      else strtoul3_loop (v * 10 + digit_val c) cs)"

text \<open>\<^verbatim>\<open>pj_strtoul3\<close> in base 10.\<close>

definition pj_strtoul3 :: "byte list \<Rightarrow> pj_status_t + nat" where
  "pj_strtoul3 str =
     (let s = dropWhile pj_isspace str
      in if s = [] \<or> \<not> pj_isdigit (hd s) then Inl PJ_EINVAL else strtoul3_loop 0 s)"

section \<open>Lemmas\<close>

lemma tolower_zero [simp]: "pj_tolower a = 0 \<longleftrightarrow> a = 0"
proof
  assume "pj_tolower a = 0"
  then show "a = 0"
  proof (cases "65 \<le> a \<and> a \<le> 90")
    case True
    then have "unat a \<ge> 65" "unat a \<le> 90" by (simp_all add: word_le_nat_alt)
    then have "unat (a + 32) = unat a + 32" by (simp add: unat_word_ariths)
    then show ?thesis using \<open>pj_tolower a = 0\<close> True by (auto simp: pj_tolower_def unat_eq_0)
  qed (auto simp: pj_tolower_def)
qed (simp add: pj_tolower_def)

lemma strnicmp_norm:
  "0 \<notin> set (butlast a) \<Longrightarrow> length a = length b \<Longrightarrow>
   pj_ansi_strnicmp_eq (length b) a b \<longleftrightarrow> map pj_tolower a = map pj_tolower b"
proof (induction a arbitrary: b)
  case (Cons x a)
  then obtain y b' where b: "b = y # b'" by (cases b) auto
  show ?case
  proof (cases "a = []")
    case True
    then show ?thesis using Cons.prems b by auto
  next
    case False
    then show ?thesis using Cons b by auto
  qed
qed simp

lemma utoa_digits_range: "x \<in> set (utoa_digits n) \<Longrightarrow> \<exists>d<10. x = word_of_nat (d + 48)"
proof (induction n rule: utoa_digits.induct)
  case (1 n)
  from "1.prems" consider "x = word_of_nat (n mod 10 + 48)" | "n div 10 > 0" "x \<in> set (utoa_digits (n div 10))"
    by (subst (asm) utoa_digits.simps) (auto split: if_splits)
  then show ?case
  proof cases
    case 1
    then show ?thesis by (intro exI[of _ "n mod 10"]) simp
  next
    case 2
    then show ?thesis by (rule "1.IH")
  qed
qed

lemma digit_byte:
  assumes "d < 10"
  shows "(word_of_nat (d + 48) :: byte) \<noteq> 0" and "(word_of_nat (d + 48) :: byte) \<noteq> 36"
    and "pj_tolower (word_of_nat (d + 48)) = word_of_nat (d + 48)"
proof -
  have "d \<in> {0, 1, 2, 3, 4, 5, 6, 7, 8, 9}" using assms by auto
  then show "(word_of_nat (d + 48) :: byte) \<noteq> 0" "(word_of_nat (d + 48) :: byte) \<noteq> 36"
    "pj_tolower (word_of_nat (d + 48)) = word_of_nat (d + 48)"
    by (auto simp: pj_tolower_def)
qed

lemma utoa_bytes: "x \<in> set (pj_utoa n) \<Longrightarrow> x \<noteq> 0 \<and> x \<noteq> 36"
  using utoa_digits_range[of x n] digit_byte(1,2) by (auto simp: pj_utoa_def)

lemma utoa_digits_length: "n < 10 ^ Suc k \<Longrightarrow> length (utoa_digits n) \<le> Suc k"
proof (induction k arbitrary: n)
  case 0
  then show ?case by (subst utoa_digits.simps) simp
next
  case (Suc k)
  then have "n div 10 < 10 ^ Suc k" by (simp add: div_less_iff_less_mult mult.commute)
  then show ?case using Suc.IH by (subst utoa_digits.simps) auto
qed

lemma utoa_length: "n < 4294967296 \<Longrightarrow> length (pj_utoa n) \<le> 10"
  using utoa_digits_length[of n 9] by (simp add: pj_utoa_def)

lemma tolower_separator [simp]: "pj_tolower x = 36 \<longleftrightarrow> x = 36"
proof
  assume a: "pj_tolower x = 36"
  show "x = 36"
  proof (cases "65 \<le> x \<and> x \<le> 90")
    case True
    then have "unat x \<ge> 65" "unat x \<le> 90" by (simp_all add: word_le_nat_alt)
    then have "unat (x + 32) = unat x + 32" by (simp add: unat_word_ariths)
    moreover have "x + 32 = 36" using a True by (simp add: pj_tolower_def)
    then have "unat (x + 32) = 36" by simp
    ultimately show ?thesis using \<open>unat x \<ge> 65\<close> by linarith
  qed (use a in \<open>auto simp: pj_tolower_def\<close>)
qed (simp add: pj_tolower_def)

text \<open>A separator ends a field that has none.\<close>

lemma separated:
  assumes "s \<notin> set a" and "s \<notin> set a'"
  shows "a @ s # b = a' @ s # b' \<longleftrightarrow> a = a' \<and> b = b'"
  using assms
proof (induction a arbitrary: a')
  case Nil
  then show ?case by (cases a') auto
next
  case (Cons x a)
  then show ?case by (cases a') auto
qed

lemma separated_once:
  assumes "s \<notin> set a" and "s \<notin> set b" and "s \<notin> set b'"
  shows "a @ s # b \<noteq> b'"
  using assms(3) by auto

end
