(* ===== verification/Pj_Hash.thy ===== *)
theory Pj_Hash
  imports Pj_String
begin

text \<open>
  The hash table of \<^verbatim>\<open>pjlib/src/pj/hash.c\<close>: chained buckets, keys hashed with a multiplier of 33
  on 32-bit words, and a case-insensitive variant of every operation. A bucket is the list of its
  chained entries, a \<^verbatim>\<open>pj_hash_entry**\<close> the row and the position in it; a key is its bytes (the
  variants without a pool keep the caller's pointer, and the caller keeps the bytes unchanged). The
  table refines a map from normalised keys to values, which is what its clients use, and that
  contract is the locale \<open>key_table\<close>.
\<close>

section \<open>Data\<close>

record 'v pj_hash_entry =
  he_key :: "byte list"
  he_hash :: "32 word"
  he_keylen :: nat
  he_value :: 'v

record 'v pj_hash_table =
  table :: "'v pj_hash_entry list list"
  ht_count :: nat
  rows :: nat

text \<open>A key argument: bytes with their length, or a string that ends at its first zero byte.\<close>

datatype key_arg = Key_Bytes "byte list" | Key_String "byte list"

fun key_bytes :: "key_arg \<Rightarrow> byte list" where
  "key_bytes (Key_Bytes bs) = bs"
| "key_bytes (Key_String bs) = takeWhile (\<lambda>b. b \<noteq> 0) bs"

section \<open>Hash values\<close>

definition PJ_HASH_MULTIPLIER :: "32 word" where
  "PJ_HASH_MULTIPLIER = 33"

fun hash_bytes :: "32 word \<Rightarrow> byte list \<Rightarrow> 32 word" where
  "hash_bytes hash [] = hash"
| "hash_bytes hash (p # ps) = hash_bytes (hash * PJ_HASH_MULTIPLIER + ucast p) ps"

definition pj_hash_calc :: "32 word \<Rightarrow> key_arg \<Rightarrow> 32 word" where
  "pj_hash_calc hash key = hash_bytes hash (key_bytes key)"

text \<open>The second component is what the code writes to \<^verbatim>\<open>result\<close>.\<close>

fun pj_hash_calc_tolower :: "32 word \<Rightarrow> byte list \<Rightarrow> 32 word \<times> byte list" where
  "pj_hash_calc_tolower hval [] = (hval, [])"
| "pj_hash_calc_tolower hval (c # cs) =
     (let lower = pj_tolower c;
          (h, r) = pj_hash_calc_tolower (hval * PJ_HASH_MULTIPLIER + ucast lower) cs
      in (h, lower # r))"

section \<open>Creation\<close>

text \<open>The \<^verbatim>\<open>do .. while\<close> loop that doubles an \<^verbatim>\<open>unsigned\<close>.\<close>

partial_function (option) double_until :: "nat \<Rightarrow> nat \<Rightarrow> nat option" where
  "double_until sz table_size =
     (let table_size' = u32 (int table_size * 2)
      in if table_size' < sz then double_until sz table_size' else Some table_size')"

definition pj_hash_create :: "nat \<Rightarrow> 'v pj_hash_table option" where
  "pj_hash_create sz =
     (case double_until sz 8 of
        None \<Rightarrow> None
      | Some n \<Rightarrow> Some \<lparr>table = replicate (n - 1 + 1) [], ht_count = 0, rows = n - 1\<rparr>)"

section \<open>Finding an entry\<close>

definition entry_matches :: "bool \<Rightarrow> 32 word \<Rightarrow> byte list \<Rightarrow> 'v pj_hash_entry \<Rightarrow> bool" where
  "entry_matches lower hash key entry \<longleftrightarrow>
     he_hash entry = hash \<and> he_keylen entry = length key \<and>
     ((lower \<and> pj_ansi_strnicmp_eq (length key) (he_key entry) key) \<or>
      (\<not> lower \<and> take (length key) (he_key entry) = key))"

fun scan :: "('a \<Rightarrow> bool) \<Rightarrow> 'a list \<Rightarrow> nat" where
  "scan P [] = 0"
| "scan P (x # xs) = (if P x then 0 else Suc (scan P xs))"

definition row_of :: "'v pj_hash_table \<Rightarrow> 32 word \<Rightarrow> nat" where
  "row_of ht hash = unat (and hash (word_of_nat (rows ht)))"

text \<open>
  The result is \<^verbatim>\<open>p_entry\<close> (row and position; the position is the length of the bucket when the
  entry is NULL), the hash reported in \<open>*hval\<close> and the table. A value \<open>None\<close> is NULL: nothing is
  inserted.
\<close>

definition entry_hash :: "bool \<Rightarrow> byte list \<Rightarrow> 32 word option \<Rightarrow> 32 word \<times> 32 word option" where
  "entry_hash lower bytes hval =
     (if (case hval of Some h \<Rightarrow> h \<noteq> 0 | None \<Rightarrow> False) then (the hval, hval)
      else let hash = hash_bytes 0 (if lower then map pj_tolower bytes else bytes)
           in (hash, map_option (\<lambda>_. hash) hval))"

definition find_entry ::
  "bool \<Rightarrow> 'v pj_hash_table \<Rightarrow> key_arg \<Rightarrow> 'v option \<Rightarrow> 32 word option
   \<Rightarrow> (nat \<times> nat) \<times> 32 word option \<times> 'v pj_hash_table" where
  "find_entry lower ht key val hval =
     (let bytes = key_bytes key;
          (hash, hval') = entry_hash lower bytes hval;
          row = row_of ht hash;
          chain = table ht ! row;
          pos = scan (entry_matches lower hash bytes) chain
      in if pos < length chain \<or> val = None then ((row, pos), hval', ht)
         else let entry = \<lparr>he_key = bytes, he_hash = hash, he_keylen = length bytes, he_value = the val\<rparr>
              in ((row, pos), hval',
                  ht\<lparr>table := (table ht)[row := chain @ [entry]], ht_count := ht_count ht + 1\<rparr>))"

definition deref :: "'v pj_hash_table \<Rightarrow> nat \<times> nat \<Rightarrow> 'v pj_hash_entry option" where
  "deref ht p = (let chain = table ht ! fst p in if snd p < length chain then Some (chain ! snd p) else None)"

section \<open>The operations\<close>

definition pj_hash_get :: "'v pj_hash_table \<Rightarrow> key_arg \<Rightarrow> 32 word option \<Rightarrow> 'v option" where
  "pj_hash_get ht key hval =
     (case find_entry False ht key None hval of (p, _, ht') \<Rightarrow> map_option he_value (deref ht' p))"

definition pj_hash_get_lower :: "'v pj_hash_table \<Rightarrow> key_arg \<Rightarrow> 32 word option \<Rightarrow> 'v option" where
  "pj_hash_get_lower ht key hval =
     (case find_entry True ht key None hval of (p, _, ht') \<Rightarrow> map_option he_value (deref ht' p))"

definition hash_set ::
  "bool \<Rightarrow> 'v pj_hash_table \<Rightarrow> key_arg \<Rightarrow> 32 word \<Rightarrow> 'v option \<Rightarrow> 'v pj_hash_table" where
  "hash_set lower ht key hval value =
     (case find_entry lower ht key value (Some hval) of ((row, pos), _, ht1) \<Rightarrow>
        (case deref ht1 (row, pos) of
           None \<Rightarrow> ht1
         | Some entry \<Rightarrow>
             let chain = table ht1 ! row
             in case value of
                  None \<Rightarrow> ht1\<lparr>table := (table ht1)[row := take pos chain @ drop (Suc pos) chain],
                              ht_count := ht_count ht1 - 1\<rparr>
                | Some v \<Rightarrow> ht1\<lparr>table := (table ht1)[row := chain[pos := entry\<lparr>he_value := v\<rparr>]]\<rparr>))"

definition pj_hash_set ::
  "'v pj_hash_table \<Rightarrow> key_arg \<Rightarrow> 32 word \<Rightarrow> 'v option \<Rightarrow> 'v pj_hash_table" where
  "pj_hash_set ht key hval value = hash_set False ht key hval value"

definition pj_hash_set_lower ::
  "'v pj_hash_table \<Rightarrow> key_arg \<Rightarrow> 32 word \<Rightarrow> 'v option \<Rightarrow> 'v pj_hash_table" where
  "pj_hash_set_lower ht key hval value = hash_set True ht key hval value"

text \<open>The \<^verbatim>\<open>_np\<close> variants differ in where the entry's memory comes from.\<close>

definition pj_hash_set_np ::
  "'v pj_hash_table \<Rightarrow> key_arg \<Rightarrow> 32 word \<Rightarrow> 'v option \<Rightarrow> 'v pj_hash_table" where
  "pj_hash_set_np ht key hval value = hash_set False ht key hval value"

definition pj_hash_set_np_lower ::
  "'v pj_hash_table \<Rightarrow> key_arg \<Rightarrow> 32 word \<Rightarrow> 'v option \<Rightarrow> 'v pj_hash_table" where
  "pj_hash_set_np_lower ht key hval value = hash_set True ht key hval value"

definition pj_hash_count :: "'v pj_hash_table \<Rightarrow> nat" where
  "pj_hash_count ht = ht_count ht"

section \<open>Iteration\<close>

text \<open>An iterator is its row and the rest of the chain from its entry on.\<close>

record 'v pj_hash_iterator =
  it_index :: nat
  it_entry :: "'v pj_hash_entry list"

function next_row :: "'v pj_hash_table \<Rightarrow> nat \<Rightarrow> 'v pj_hash_iterator option" where
  "next_row ht index =
     (if index \<le> rows ht then
        case table ht ! index of
          [] \<Rightarrow> next_row ht (index + 1)
        | e # es \<Rightarrow> Some \<lparr>it_index = index, it_entry = e # es\<rparr>
      else None)"
  by pat_completeness auto
termination
  by (relation "measure (\<lambda>(ht, i). Suc (rows ht) - i)") auto

declare next_row.simps [simp del]

definition pj_hash_first :: "'v pj_hash_table \<Rightarrow> 'v pj_hash_iterator option" where
  "pj_hash_first ht = next_row ht 0"

definition pj_hash_next :: "'v pj_hash_table \<Rightarrow> 'v pj_hash_iterator \<Rightarrow> 'v pj_hash_iterator option" where
  "pj_hash_next ht it =
     (case tl (it_entry it) of
        [] \<Rightarrow> next_row ht (it_index it + 1)
      | e # es \<Rightarrow> Some (it\<lparr>it_entry := e # es\<rparr>))"

definition pj_hash_this :: "'v pj_hash_table \<Rightarrow> 'v pj_hash_iterator \<Rightarrow> 'v" where
  "pj_hash_this ht it = he_value (hd (it_entry it))"

text \<open>The loop its users write: \<^verbatim>\<open>for (it = first; it; it = next)\<close>, collecting the entries.\<close>

fun iterate :: "nat \<Rightarrow> 'v pj_hash_table \<Rightarrow> 'v pj_hash_iterator option \<Rightarrow> 'v list" where
  "iterate 0 ht it = []"
| "iterate (Suc fuel) ht None = []"
| "iterate (Suc fuel) ht (Some it) = pj_hash_this ht it # iterate fuel ht (pj_hash_next ht it)"

section \<open>Keys up to case\<close>

definition norm :: "bool \<Rightarrow> byte list \<Rightarrow> byte list" where
  "norm lower bs = (if lower then map pj_tolower bs else bs)"

definition hash_of :: "bool \<Rightarrow> byte list \<Rightarrow> 32 word" where
  "hash_of lower bs = hash_bytes 0 (norm lower bs)"

lemma tolower_calc: "pj_hash_calc_tolower h bs = (hash_bytes h (map pj_tolower bs), map pj_tolower bs)"
  by (induction bs arbitrary: h) (auto simp: Let_def)

text \<open>
  Keys the case-insensitive operations compare in full: those without a zero byte, except at the end,
  where the transaction layer puts one.
\<close>

definition key_ok :: "bool \<Rightarrow> byte list \<Rightarrow> bool" where
  "key_ok lower bs \<longleftrightarrow> (lower \<longrightarrow> 0 \<notin> set (butlast bs))"

section \<open>The invariant and the abstract map\<close>

definition entry_ok :: "bool \<Rightarrow> 'v pj_hash_table \<Rightarrow> nat \<Rightarrow> 'v pj_hash_entry \<Rightarrow> bool" where
  "entry_ok lower ht i e \<longleftrightarrow> he_hash e = hash_of lower (he_key e) \<and> he_keylen e = length (he_key e) \<and>
     key_ok lower (he_key e) \<and> row_of ht (he_hash e) = i"

definition hash_inv :: "bool \<Rightarrow> 'v pj_hash_table \<Rightarrow> bool" where
  "hash_inv lower ht \<longleftrightarrow> length (table ht) = rows ht + 1 \<and> rows ht < 2 ^ 32 \<and>
     (\<forall>i<length (table ht). distinct (map (norm lower \<circ> he_key) (table ht ! i)) \<and>
        (\<forall>e\<in>set (table ht ! i). entry_ok lower ht i e)) \<and>
     ht_count ht = length (concat (table ht))"

definition view :: "bool \<Rightarrow> 'v pj_hash_table \<Rightarrow> byte list \<Rightarrow> 'v option" where
  "view lower ht k = map_option he_value (find (\<lambda>e. norm lower (he_key e) = k) (concat (table ht)))"

lemma row_less: "hash_inv lower ht \<Longrightarrow> row_of ht h < length (table ht)"
proof -
  assume a: "hash_inv lower ht"
  have "and h (word_of_nat (rows ht)) \<le> (word_of_nat (rows ht) :: 32 word)" by (rule word_and_le1)
  then have "row_of ht h \<le> unat (word_of_nat (rows ht) :: 32 word)"
    by (simp add: row_of_def word_le_nat_alt)
  also have "\<dots> = rows ht" using a by (simp add: hash_inv_def unat_of_nat)
  finally show ?thesis using a by (simp add: hash_inv_def)
qed

lemma find_concat:
  "r < length L \<Longrightarrow> (\<And>i x. i < length L \<Longrightarrow> i \<noteq> r \<Longrightarrow> x \<in> set (L ! i) \<Longrightarrow> \<not> P x)
   \<Longrightarrow> find P (concat L) = find P (L ! r)"
proof (induction L arbitrary: r)
  case (Cons x L)
  have app: "find P (xs @ ys) = (case find P xs of None \<Rightarrow> find P ys | Some a \<Rightarrow> Some a)" for xs ys
    by (induction xs) auto
  show ?case
  proof (cases r)
    case 0
    have "find P (concat L) = None"
      using Cons.prems(2)[of "Suc _"] 0 by (fastforce simp: find_None_iff in_set_conv_nth)
    then show ?thesis using 0 by (auto simp: app split: option.split)
  next
    case (Suc r')
    have "find P x = None" using Cons.prems(2)[of 0] Suc by (auto simp: find_None_iff)
    moreover have "find P (concat L) = find P (L ! r')"
      by (rule Cons.IH) (use Cons.prems(1) Cons.prems(2)[of "Suc _"] Suc in auto)
    ultimately show ?thesis using Suc by (simp add: app)
  qed
qed simp

lemma view_row:
  assumes "hash_inv lower ht"
  shows "view lower ht (norm lower k) =
    map_option he_value (find (\<lambda>e. norm lower (he_key e) = norm lower k) (table ht ! row_of ht (hash_of lower k)))"
proof -
  have False if "i < length (table ht)" "i \<noteq> row_of ht (hash_of lower k)" "x \<in> set (table ht ! i)"
    "norm lower (he_key x) = norm lower k" for i x
  proof -
    have "entry_ok lower ht i x" using assms that by (simp add: hash_inv_def)
    then show False using that by (auto simp: entry_ok_def hash_of_def)
  qed
  then have "find (\<lambda>e. norm lower (he_key e) = norm lower k) (concat (table ht)) =
      find (\<lambda>e. norm lower (he_key e) = norm lower k) (table ht ! row_of ht (hash_of lower k))"
    by (intro find_concat[OF row_less[OF assms]]) blast
  then show ?thesis by (simp add: view_def)
qed

lemma scan_find: "map_option f (find P xs) = (if scan P xs < length xs then Some (f (xs ! scan P xs)) else None)"
  by (induction xs) auto

lemma scan_le: "scan P xs \<le> length xs"
  by (induction xs) auto

lemma scan_holds: "scan P xs < length xs \<Longrightarrow> P (xs ! scan P xs)"
  by (induction xs) (auto split: if_splits)

lemma scan_none: "scan P xs = length xs \<longleftrightarrow> (\<forall>x\<in>set xs. \<not> P x)"
  by (induction xs) auto

lemma matches_norm:
  assumes "entry_ok lower ht i e" and "key_ok lower k"
  shows "entry_matches lower (hash_of lower k) k e \<longleftrightarrow> norm lower (he_key e) = norm lower k"
proof
  assume "entry_matches lower (hash_of lower k) k e"
  then show "norm lower (he_key e) = norm lower k"
    using assms strnicmp_norm[of "he_key e" k]
    by (cases lower) (auto simp: entry_matches_def entry_ok_def norm_def key_ok_def)
next
  assume a: "norm lower (he_key e) = norm lower k"
  then have "length (he_key e) = length k" by (auto simp: norm_def split: if_splits dest: map_eq_imp_length_eq)
  then show "entry_matches lower (hash_of lower k) k e"
    using a assms strnicmp_norm[of "he_key e" k]
    by (cases lower) (auto simp: entry_matches_def entry_ok_def norm_def key_ok_def hash_of_def)
qed

text \<open>A hash value the caller may pass: zero, or the hash of the key.\<close>

definition hval_ok :: "bool \<Rightarrow> byte list \<Rightarrow> 32 word option \<Rightarrow> bool" where
  "hval_ok lower k hval \<longleftrightarrow> hval \<in> {None, Some 0, Some (hash_of lower k)}"

lemma find_entry_eq:
  assumes "hval_ok lower (key_bytes key) hval"
  shows "find_entry lower ht key val hval =
    (let bytes = key_bytes key; hash = hash_of lower bytes; row = row_of ht hash; chain = table ht ! row;
         pos = scan (entry_matches lower hash bytes) chain
     in ((row, pos), map_option (\<lambda>_. hash) hval,
         if pos < length chain \<or> val = None then ht
         else ht\<lparr>table := (table ht)[row := chain @ [\<lparr>he_key = bytes, he_hash = hash,
                   he_keylen = length bytes, he_value = the val\<rparr>]], ht_count := ht_count ht + 1\<rparr>))"
proof -
  have "entry_hash lower (key_bytes key) hval =
      (hash_of lower (key_bytes key), map_option (\<lambda>_. hash_of lower (key_bytes key)) hval)"
    using assms by (auto simp: entry_hash_def hval_ok_def hash_of_def norm_def Let_def split: option.splits)
  then show ?thesis by (simp add: find_entry_def Let_def)
qed

lemma scan_cong: "(\<And>x. x \<in> set xs \<Longrightarrow> P x = Q x) \<Longrightarrow> scan P xs = scan Q xs"
  by (induction xs) auto

lemma scan_key:
  assumes "hash_inv lower ht" and "key_ok lower k"
  shows "scan (entry_matches lower (hash_of lower k) k) (table ht ! row_of ht (hash_of lower k))
    = scan (\<lambda>e. norm lower (he_key e) = norm lower k) (table ht ! row_of ht (hash_of lower k))"
proof (rule scan_cong)
  fix e assume "e \<in> set (table ht ! row_of ht (hash_of lower k))"
  then have "entry_ok lower ht (row_of ht (hash_of lower k)) e"
    using assms(1) row_less[OF assms(1), of "hash_of lower k"] by (simp add: hash_inv_def)
  then show "entry_matches lower (hash_of lower k) k e = (norm lower (he_key e) = norm lower k)"
    using matches_norm assms(2) by blast
qed

text \<open>A lookup, for either variant, and where it looks.\<close>

lemma get_view:
  assumes "hash_inv lower ht" and "key_ok lower (key_bytes key)" and "hval_ok lower (key_bytes key) hval"
  shows "(case find_entry lower ht key None hval of (p, _, ht') \<Rightarrow> map_option he_value (deref ht' p))
    = view lower ht (norm lower (key_bytes key))"
  using assms by (simp add: find_entry_eq view_row deref_def Let_def scan_key scan_find)

lemma length_concat_update:
  "i < length L \<Longrightarrow> length (concat (L[i := b])) + length (L ! i) = length (concat L) + length b"
  by (induction L arbitrary: i) (auto split: nat.splits)

lemma same_norm_same:
  assumes "hash_inv lower ht" and "e \<in> set (concat (table ht))" and "e' \<in> set (concat (table ht))"
    and "norm lower (he_key e) = norm lower (he_key e')"
  shows "e = e'"
proof -
  have ex: "\<exists>i<length (table ht). x \<in> set (table ht ! i)" if "x \<in> set (concat (table ht))" for x
    using that by (metis UN_E in_set_conv_nth set_concat)
  obtain i j where ij: "i < length (table ht)" "e \<in> set (table ht ! i)" "j < length (table ht)" "e' \<in> set (table ht ! j)"
    using ex[OF assms(2)] ex[OF assms(3)] by blast
  then have "entry_ok lower ht i e" "entry_ok lower ht j e'" using assms(1) by (auto simp: hash_inv_def)
  then have "i = j" using assms(4) by (auto simp: entry_ok_def hash_of_def)
  moreover have "distinct (map (norm lower \<circ> he_key) (table ht ! i))"
    using assms(1) ij(1) by (simp add: hash_inv_def)
  ultimately show ?thesis using ij assms(4) by (auto simp: distinct_map inj_on_def)
qed

lemma view_iff:
  assumes "hash_inv lower ht"
  shows "view lower ht q = Some v \<longleftrightarrow>
    (\<exists>e\<in>set (concat (table ht)). norm lower (he_key e) = q \<and> he_value e = v)"
proof
  assume "view lower ht q = Some v"
  then obtain e where "find (\<lambda>e. norm lower (he_key e) = q) (concat (table ht)) = Some e" "v = he_value e"
    by (auto simp: view_def)
  moreover from this have "e \<in> set (concat (table ht))" "norm lower (he_key e) = q"
    by (auto simp: find_Some_iff simp del: set_concat)
  ultimately show "\<exists>e\<in>set (concat (table ht)). norm lower (he_key e) = q \<and> he_value e = v"
    by blast
next
  assume "\<exists>e\<in>set (concat (table ht)). norm lower (he_key e) = q \<and> he_value e = v"
  then obtain e where e: "e \<in> set (concat (table ht))" "norm lower (he_key e) = q" "he_value e = v" by blast
  then obtain e' where e': "find (\<lambda>e. norm lower (he_key e) = q) (concat (table ht)) = Some e'"
    by (cases "find (\<lambda>e. norm lower (he_key e) = q) (concat (table ht))") (auto simp: find_None_iff)
  then have "e' \<in> set (concat (table ht))" "norm lower (he_key e') = q"
    by (auto simp: find_Some_iff simp del: set_concat)
  then have "e' = e" using same_norm_same[OF assms] e by metis
  then show "view lower ht q = Some v" using e e' by (simp add: view_def)
qed

text \<open>Replacing one bucket.\<close>

lemma hash_inv_bucket:
  assumes "hash_inv lower ht" and "r = row_of ht (hash_of lower k)"
    and "ht' = ht\<lparr>table := (table ht)[r := b], ht_count := n\<rparr>"
    and "distinct (map (norm lower \<circ> he_key) b)"
    and "\<And>e. e \<in> set b \<Longrightarrow> entry_ok lower ht r e"
    and "n + length (table ht ! r) = ht_count ht + length b"
  shows "hash_inv lower ht'"
    and "view lower ht' (norm lower k) = map_option he_value (find (\<lambda>e. norm lower (he_key e) = norm lower k) b)"
    and "(\<And>e. norm lower (he_key e) \<noteq> norm lower k \<Longrightarrow> e \<in> set b \<longleftrightarrow> e \<in> set (table ht ! r)) \<Longrightarrow>
      q \<noteq> norm lower k \<Longrightarrow> view lower ht' q = view lower ht q"
proof -
  have r: "r < length (table ht)" using row_less[OF assms(1)] assms(2) by simp
  have row: "row_of ht' = row_of ht" by (simp add: assms(3) row_of_def fun_eq_iff)
  have ok: "entry_ok lower ht' = entry_ok lower ht" by (simp add: entry_ok_def row fun_eq_iff)
  have at: "table ht' ! i = (if i = r then b else table ht ! i)" for i
    using r by (simp add: assms(3) nth_list_update)
  have len: "length (concat ((table ht)[r := b])) + length (table ht ! r) = length (concat (table ht)) + length b"
    using r by (rule length_concat_update)
  show inv: "hash_inv lower ht'"
    using assms(1,4,5,6) len unfolding hash_inv_def ok at by (auto simp: assms(3))
  show "view lower ht' (norm lower k) = map_option he_value (find (\<lambda>e. norm lower (he_key e) = norm lower k) b)"
    using view_row[OF inv, of k] by (simp add: row at assms(2))
  show "view lower ht' q = view lower ht q"
    if mem: "\<And>e. norm lower (he_key e) \<noteq> norm lower k \<Longrightarrow> e \<in> set b \<longleftrightarrow> e \<in> set (table ht ! r)"
      and q: "q \<noteq> norm lower k"
  proof -
    have "(\<exists>e\<in>set (concat (table ht')). norm lower (he_key e) = q \<and> he_value e = v) \<longleftrightarrow>
        (\<exists>e\<in>set (concat (table ht)). norm lower (he_key e) = q \<and> he_value e = v)" for v
    proof -
      have "e \<in> set (concat (table ht')) \<longleftrightarrow> e \<in> set (concat (table ht))" if e: "norm lower (he_key e) = q" for e
      proof -
        have "e \<in> set (table ht' ! i) \<longleftrightarrow> e \<in> set (table ht ! i)" for i
          using mem[of e] q e by (simp add: at)
        moreover have "length (table ht') = length (table ht)" by (simp add: assms(3))
        ultimately show ?thesis by (metis (no_types, lifting) UN_iff in_set_conv_nth set_concat)
      qed
      then show ?thesis by blast
    qed
    then show ?thesis using view_iff[OF inv, of q] view_iff[OF assms(1), of q] by (metis not_Some_eq)
  qed
qed

section \<open>Setting\<close>

lemma set_set_row:
  "hash_inv lower ht \<Longrightarrow> e \<in> set (table ht ! row_of ht h) \<Longrightarrow> entry_ok lower ht (row_of ht h) e"
  using row_less[of lower ht h] by (simp add: hash_inv_def)

lemma distinct_row: "hash_inv lower ht \<Longrightarrow> distinct (map (norm lower \<circ> he_key) (table ht ! row_of ht h))"
  using row_less[of lower ht h] by (simp add: hash_inv_def)

lemma find_unique:
  assumes "distinct (map f xs)" and "x \<in> set xs"
  shows "find (\<lambda>e. f e = f x) xs = Some x"
  using assms by (induction xs) auto

text \<open>The bucket of a key after it was set: where its entry was, or at the end.\<close>

definition set_bucket :: "nat \<Rightarrow> 'v pj_hash_entry list \<Rightarrow> 'v pj_hash_entry \<Rightarrow> 'v option \<Rightarrow> 'v pj_hash_entry list" where
  "set_bucket pos chain new value =
     (case value of
        None \<Rightarrow> take pos chain @ drop (Suc pos) chain
      | Some v \<Rightarrow> if pos < length chain then chain[pos := (chain ! pos)\<lparr>he_value := v\<rparr>] else chain @ [new\<lparr>he_value := v\<rparr>])"

lemma hash_set_bucket:
  fixes "value" :: "'v option"
  assumes "hash_inv lower ht" and "key_ok lower (key_bytes key)" and "hval_ok lower (key_bytes key) (Some hval)"
  defines "bytes \<equiv> key_bytes key"
  defines "hash \<equiv> hash_of lower bytes"
  defines "chain \<equiv> table ht ! row_of ht hash"
  defines "pos \<equiv> scan (\<lambda>e. norm lower (he_key e) = norm lower bytes) chain"
  defines "b \<equiv> set_bucket pos chain \<lparr>he_key = bytes, he_hash = hash, he_keylen = length bytes, he_value = the value\<rparr> value"
  shows "hash_set lower ht key hval value =
    ht\<lparr>table := (table ht)[row_of ht hash := b], ht_count := ht_count ht + length b - length chain\<rparr>"
proof -
  have r: "row_of ht hash < length (table ht)" by (rule row_less[OF assms(1)])
  have p: "scan (entry_matches lower hash bytes) chain = pos"
    using scan_key[OF assms(1,2)] by (simp add: pos_def chain_def hash_def bytes_def)
  have le: "pos \<le> length chain" by (simp add: pos_def scan_le)
  have F: "find_entry lower ht key value (Some hval) = ((row_of ht hash, pos), Some hash,
      if pos < length chain \<or> value = None then ht
      else ht\<lparr>table := (table ht)[row_of ht hash := chain @ [\<lparr>he_key = bytes, he_hash = hash,
                he_keylen = length bytes, he_value = the value\<rparr>]], ht_count := ht_count ht + 1\<rparr>)"
    using p unfolding find_entry_eq[OF assms(3)]
    by (simp add: bytes_def[symmetric] hash_def[symmetric] chain_def[symmetric] Let_def)
  have same: "(table ht)[row_of ht hash := chain] = table ht" by (simp add: chain_def)
  show ?thesis
  proof (cases "value")
    case None
    then show ?thesis
      using r F le same
      by (cases "pos < length chain") (auto simp: hash_set_def deref_def Let_def b_def set_bucket_def chain_def[symmetric])
  next
    case (Some v)
    show ?thesis
    proof (cases "pos < length chain")
      case True
      then show ?thesis
        using r F Some
        by (simp add: hash_set_def deref_def Let_def b_def set_bucket_def chain_def[symmetric])
    next
      case False
      then have "pos = length chain" using le by simp
      then show ?thesis
        using r F Some
        by (simp add: hash_set_def deref_def Let_def b_def set_bucket_def chain_def[symmetric])
    qed
  qed
qed

lemma hash_set_inv_view:
  assumes "hash_inv lower ht" and "key_ok lower (key_bytes key)" and "hval_ok lower (key_bytes key) (Some hval)"
  shows "hash_inv lower (hash_set lower ht key hval value)"
    and "view lower (hash_set lower ht key hval value) = (view lower ht)(norm lower (key_bytes key) := value)"
proof -
  let ?k = "key_bytes key"
  let ?h = "hash_of lower ?k"
  let ?c = "table ht ! row_of ht ?h"
  let ?p = "scan (\<lambda>e. norm lower (he_key e) = norm lower ?k) ?c"
  let ?new = "\<lparr>he_key = ?k, he_hash = ?h, he_keylen = length ?k, he_value = the value\<rparr>"
  let ?b = "set_bucket ?p ?c ?new value"
  let ?ht = "hash_set lower ht key hval value"
  note B = hash_set_bucket[OF assms, of "value"]
  have D: "distinct (map (norm lower \<circ> he_key) ?c)" by (rule distinct_row[OF assms(1)])
  have E: "entry_ok lower ht (row_of ht ?h) e" if "e \<in> set ?c" for e
    by (rule set_set_row[OF assms(1) that])
  have le: "?p \<le> length ?c" by (rule scan_le)
  have split: "?p < length ?c \<Longrightarrow> ?c = take ?p ?c @ ?c ! ?p # drop (Suc ?p) ?c" by (rule id_take_nth_drop)
  have at: "norm lower (he_key (?c ! ?p)) = norm lower ?k" if "?p < length ?c" using scan_holds[OF that] .
  have none: "norm lower (he_key e) \<noteq> norm lower ?k" if "?p = length ?c" "e \<in> set ?c" for e
    using that scan_none[of "\<lambda>e. norm lower (he_key e) = norm lower ?k" ?c] by simp
  have news: "entry_ok lower ht (row_of ht ?h) (?new\<lparr>he_value := v\<rparr>)" for v
    using assms(2) by (simp add: entry_ok_def)
  have len: "length (table ht ! row_of ht ?h) \<le> ht_count ht + length ?b"
  proof -
    have "length (table ht ! i) \<le> length (concat (table ht))" if "i < length (table ht)" for i
      using that length_concat_update[of i "table ht" "[]"] by simp
    then show ?thesis using row_less[OF assms(1), of ?h] assms(1) by (fastforce simp: hash_inv_def)
  qed
  have facts: "distinct (map (norm lower \<circ> he_key) ?b) \<and> (\<forall>e\<in>set ?b. entry_ok lower ht (row_of ht ?h) e) \<and>
     map_option he_value (find (\<lambda>e. norm lower (he_key e) = norm lower ?k) ?b) = value \<and>
     (\<forall>e. norm lower (he_key e) \<noteq> norm lower ?k \<longrightarrow> (e \<in> set ?b \<longleftrightarrow> e \<in> set ?c))"
  proof (cases "?p < length ?c")
    case False
    then have p: "?p = length ?c" using le by simp
    have "find (\<lambda>e. norm lower (he_key e) = norm lower ?k) ?c = None"
      using none[OF p] by (auto simp: find_None_iff)
    moreover have "find P (xs @ ys) = (case find P xs of None \<Rightarrow> find P ys | Some a \<Rightarrow> Some a)" for P xs and ys :: "'a pj_hash_entry list"
      by (induction xs) auto
    ultimately show ?thesis
      using D E news none[OF p] p
      by (cases "value") (force simp: set_bucket_def)+
  next
    case True
    define x y z where "x = take ?p ?c" and "y = ?c ! ?p" and "z = drop (Suc ?p) ?c"
    have c: "?c = x @ y # z" using split[OF True] by (simp add: x_def y_def z_def)
    have px: "length x = ?p" using True by (simp add: x_def)
    have b: "?b = x @ (case value of None \<Rightarrow> [] | Some v \<Rightarrow> [y\<lparr>he_value := v\<rparr>]) @ z"
      using True px by (auto simp: set_bucket_def x_def y_def z_def upd_conv_take_nth_drop split: option.split)
    have D': "distinct (map (norm lower \<circ> he_key) (x @ y # z))" using D c by simp
    have yk: "norm lower (he_key y) = norm lower ?k" using at[OF True] by (simp add: y_def)
    have nx: "norm lower (he_key e) \<noteq> norm lower ?k" if "e \<in> set x \<or> e \<in> set z" for e
      using D' yk that by (auto simp: image_iff)
    have fx: "find (\<lambda>e. norm lower (he_key e) = norm lower ?k) (x @ w) =
        find (\<lambda>e. norm lower (he_key e) = norm lower ?k) w" for w
      using nx by (induction x) auto
    have fz: "find (\<lambda>e. norm lower (he_key e) = norm lower ?k) z = None"
      using nx by (auto simp: find_None_iff)
    have ey: "entry_ok lower ht (row_of ht ?h) (y\<lparr>he_value := v\<rparr>)" for v
      using E[of y] c by (auto simp: entry_ok_def)
    show ?thesis
      unfolding b
      using D' E c yk nx fx fz ey
      by (cases "value") (auto simp: image_iff)
  qed
  have cnt: "(ht_count ht + length ?b - length ?c) + length ?c = ht_count ht + length ?b" using len by simp
  note H = hash_inv_bucket[OF assms(1) refl B _ _ cnt]
  show inv: "hash_inv lower ?ht" using H(1) facts by blast
  have "view lower ?ht (norm lower ?k) = value" using H(2) facts by simp
  moreover have "view lower ?ht q = view lower ht q" if "q \<noteq> norm lower ?k" for q
    using H(3)[OF _ _ _ that] facts by blast
  ultimately show "view lower ?ht = (view lower ht)(norm lower ?k := value)" by (auto simp: fun_eq_iff)
qed

lemma distinct_concat_norm:
  assumes "hash_inv lower ht"
  shows "distinct (map (norm lower \<circ> he_key) (concat (table ht)))"
proof -
  have inner: "distinct (map (norm lower \<circ> he_key) (concat (take n (table ht))))" if "n \<le> length (table ht)" for n
    using that
  proof (induction n)
    case (Suc n)
    have n: "n < length (table ht)" using Suc.prems by simp
    have "norm lower (he_key e) \<noteq> norm lower (he_key e')"
      if e: "e \<in> set (concat (take n (table ht)))" "e' \<in> set (table ht ! n)" for e e'
    proof
      assume eq: "norm lower (he_key e) = norm lower (he_key e')"
      obtain xs where xs: "xs \<in> set (take n (table ht))" "e \<in> set xs" using e(1) by auto
      then obtain i where "i < length (take n (table ht))" "take n (table ht) ! i = xs" unfolding in_set_conv_nth by blast
      then have i: "i < n" "e \<in> set (table ht ! i)" using xs(2) by auto
      then have "entry_ok lower ht i e" "entry_ok lower ht n e'" using assms n e(2) by (auto simp: hash_inv_def)
      then show False using eq i(1) by (auto simp: entry_ok_def hash_of_def)
    qed
    moreover have "distinct (map (norm lower \<circ> he_key) (table ht ! n))" using assms n by (simp add: hash_inv_def)
    ultimately show ?case
      using Suc n unfolding take_Suc_conv_app_nth[OF n] by (auto simp: image_iff comp_def)
  qed simp
  then show ?thesis using inner[of "length (table ht)"] by simp
qed

lemma dom_view:
  assumes "hash_inv lower ht"
  shows "dom (view lower ht) = set (map (norm lower \<circ> he_key) (concat (table ht)))"
  using view_iff[OF assms] by (fastforce simp: dom_def)

lemma finite_dom_view: "hash_inv lower ht \<Longrightarrow> finite (dom (view lower ht))"
  by (simp only: dom_view List.finite_set)

lemma count_view:
  assumes "hash_inv lower ht"
  shows "pj_hash_count ht = card (dom (view lower ht))"
proof -
  note dom_view[OF assms]
  then have "card (dom (view lower ht)) = length (map (norm lower \<circ> he_key) (concat (table ht)))"
    using distinct_card[OF distinct_concat_norm[OF assms]] by simp
  then show ?thesis using assms by (simp add: pj_hash_count_def hash_inv_def)
qed

section \<open>The size of a new table\<close>

lemma double_until_power:
  assumes "sz \<le> 2 ^ 31" and "3 \<le> j" and "j < 31"
  shows "\<exists>n. double_until sz (2 ^ j) = Some (2 ^ n) \<and> j < n \<and> n \<le> 31 \<and> sz \<le> 2 ^ n \<and> (n = Suc j \<or> 2 ^ (n - 1) < sz)"
  using assms(2,3)
proof (induction "31 - j" arbitrary: j)
  case (Suc m)
  have d: "u32 (int (2 ^ j) * 2) = 2 ^ Suc j"
  proof -
    have "(2::nat) ^ Suc j \<le> 2 ^ 31" by (rule power_increasing) (use Suc.prems in auto)
    moreover have "int (2 ^ j) * 2 = int (2 ^ Suc j)" by simp
    ultimately show ?thesis using u32_nat[of "2 ^ Suc j"] by (simp only:) simp
  qed
  show ?case
  proof (cases "2 ^ Suc j < sz")
    case False
    then have "double_until sz (2 ^ j) = Some (2 ^ Suc j)" using d by (subst double_until.simps) (simp add: Let_def)
    then show ?thesis using False Suc.prems by (intro exI[of _ "Suc j"]) auto
  next
    case True
    then have e: "double_until sz (2 ^ j) = double_until sz (2 ^ Suc j)"
      using d by (subst double_until.simps) (simp add: Let_def)
    have "Suc j \<noteq> 31" using True assms(1) by auto
    then have "\<exists>n. double_until sz (2 ^ Suc j) = Some (2 ^ n) \<and> Suc j < n \<and> n \<le> 31 \<and> sz \<le> 2 ^ n \<and>
        (n = Suc (Suc j) \<or> 2 ^ (n - 1) < sz)"
      using Suc by (intro Suc.hyps) auto
    then show ?thesis using True unfolding e by auto
  qed
qed simp

lemma double_power:
  assumes "(\<exists>j\<le>31. m = 2 ^ j) \<or> m = 0"
  shows "u32 (int m * 2) \<le> 2 ^ 31 \<and> ((\<exists>j\<le>31. u32 (int m * 2) = 2 ^ j) \<or> u32 (int m * 2) = 0)"
proof (cases "m = 0")
  case False
  then obtain j where j: "j \<le> 31" "m = 2 ^ j" using assms by auto
  show ?thesis
  proof (cases "j = 31")
    case True
    then show ?thesis using j by (simp add: u32_def)
  next
    case False
    then have le: "(2::nat) ^ Suc j \<le> 2 ^ 31" using j(1) by (intro power_increasing) auto
    moreover have "int m * 2 = int (2 ^ Suc j)" using j(2) by simp
    ultimately have "u32 (int m * 2) = 2 ^ Suc j" using u32_nat[of "2 ^ Suc j"] by (simp only:) simp
    then show ?thesis using le False j(1) by (metis Suc_leI le_neq_implies_less)
  qed
qed (simp add: u32_def)

lemma double_until_diverges:
  assumes "double_until sz n = Some r"
  shows "2 ^ 31 < sz \<longrightarrow> (\<exists>j\<le>31. n = 2 ^ j) \<or> n = 0 \<longrightarrow> False"
proof (rule double_until.raw_induct[where P = "\<lambda>s m _. 2 ^ 31 < s \<longrightarrow> (\<exists>j\<le>31. m = 2 ^ j) \<or> m = 0 \<longrightarrow> False", OF _ assms],
    intro impI)
  fix rec :: "nat \<Rightarrow> nat \<Rightarrow> nat option" and s m r
  assume IH: "\<And>s' m' y. rec s' m' = Some y \<Longrightarrow>
      2 ^ 31 < s' \<longrightarrow> (\<exists>j\<le>31. m' = 2 ^ j) \<or> m' = 0 \<longrightarrow> False"
    and body: "(let m' = u32 (int m * 2) in if m' < s then rec s m' else Some m') = Some r"
    and s: "2 ^ 31 < s" and m: "(\<exists>j\<le>31. m = 2 ^ j) \<or> m = 0"
  note d = double_power[OF m]
  have "u32 (int m * 2) < s" using d s by linarith
  then have "rec s (u32 (int m * 2)) = Some r" using body by (simp add: Let_def)
  then show False using IH s d by blast
qed

section \<open>Iterating over the table\<close>

definition rest :: "'v pj_hash_table \<Rightarrow> nat \<Rightarrow> 'v pj_hash_entry list" where
  "rest ht i = concat (drop i (table ht))"

definition it_rest :: "'v pj_hash_table \<Rightarrow> 'v pj_hash_iterator option \<Rightarrow> 'v pj_hash_entry list" where
  "it_rest ht it = (case it of None \<Rightarrow> [] | Some i \<Rightarrow> it_entry i @ rest ht (Suc (it_index i)))"

definition it_ok :: "'v pj_hash_iterator option \<Rightarrow> bool" where
  "it_ok it \<longleftrightarrow> (\<forall>i. it = Some i \<longrightarrow> it_entry i \<noteq> [])"

lemma next_row_rest:
  assumes "length (table ht) = Suc (rows ht)"
  shows "it_rest ht (next_row ht i) = rest ht i \<and> it_ok (next_row ht i)"
  using assms
proof (induction ht i rule: next_row.induct)
  case (1 ht i)
  show ?case
  proof (cases "i \<le> rows ht")
    case False
    then show ?thesis using "1.prems"
      by (subst next_row.simps) (simp add: it_rest_def rest_def it_ok_def next_row.simps)
  next
    case True
    have d: "rest ht i = table ht ! i @ rest ht (Suc i)"
      using True "1.prems" by (simp add: rest_def Cons_nth_drop_Suc[symmetric])
    show ?thesis
    proof (cases "table ht ! i")
      case Nil
      then have "next_row ht i = next_row ht (i + 1)" using True by (subst next_row.simps) simp
      then show ?thesis using "1.IH"[OF True Nil "1.prems"] d Nil by simp
    next
      case (Cons e es)
      then have "next_row ht i = Some \<lparr>it_index = i, it_entry = e # es\<rparr>"
        using True by (subst next_row.simps) simp
      then show ?thesis using d Cons by (simp add: it_rest_def it_ok_def)
    qed
  qed
qed

lemma next_rest:
  assumes "length (table ht) = Suc (rows ht)" and "it_entry it \<noteq> []"
  shows "it_rest ht (Some it) = hd (it_entry it) # it_rest ht (pj_hash_next ht it) \<and> it_ok (pj_hash_next ht it)"
  using assms next_row_rest[OF assms(1), of "Suc (it_index it)"]
  by (cases "it_entry it") (auto simp: pj_hash_next_def it_rest_def it_ok_def split: list.split)

lemma iterate_rest:
  "length (table ht) = Suc (rows ht) \<Longrightarrow> it_ok it \<Longrightarrow> length (it_rest ht it) \<le> fuel
   \<Longrightarrow> iterate fuel ht it = map he_value (it_rest ht it)"
proof (induction fuel ht it rule: iterate.induct)
  case (1 ht it)
  then show ?case by simp
next
  case (2 fuel ht)
  then show ?case by (simp add: it_rest_def)
next
  case (3 fuel ht it)
  then have "it_entry it \<noteq> []" by (simp add: it_ok_def)
  note n = next_rest[OF "3.prems"(1) this]
  then have "iterate fuel ht (pj_hash_next ht it) = map he_value (it_rest ht (pj_hash_next ht it))"
    using "3.IH" "3.prems" by simp
  then show ?case using n by (simp add: pj_hash_this_def)
qed

section \<open>The table as a service\<close>

text \<open>
  What the clients of a table rely on (the transaction layer registers its transactions in one, by
  their keys): lookups and updates of the map \<open>content\<close>, whose keys are in the canonical form
  \<open>canon\<close>.
\<close>

locale key_table =
  fixes inv :: "'s \<Rightarrow> bool" and content :: "'s \<Rightarrow> 'c \<Rightarrow> 'v option" and ok :: "'k \<Rightarrow> bool"
    and canon :: "'k \<Rightarrow> 'c" and get :: "'s \<Rightarrow> 'k \<Rightarrow> 'v option" and put :: "'s \<Rightarrow> 'k \<Rightarrow> 'v option \<Rightarrow> 's"
  assumes get_law: "inv s \<Longrightarrow> ok k \<Longrightarrow> get s k = content s (canon k)"
    and put_inv: "inv s \<Longrightarrow> ok k \<Longrightarrow> inv (put s k v)"
    and put_law: "inv s \<Longrightarrow> ok k \<Longrightarrow> content (put s k v) = (content s)(canon k := v)"
begin

lemma get_put:
  assumes "inv s" and "ok k" and "ok k'"
  shows "get (put s k v) k' = (if canon k' = canon k then v else get s k')"
  using assms by (simp add: get_law put_inv put_law)

text \<open>Registering a new key and removing it restores the content.\<close>

lemma put_remove:
  assumes "inv s" and "ok k" and "get s k = None"
  shows "content (put (put s k (Some v)) k None) = content s"
  using assms by (auto simp: put_law put_inv get_law fun_eq_iff)

text \<open>An object registered under two keys, as UAS transactions are, is found by either.\<close>

lemma put_two:
  assumes "inv s" and "ok k" and "ok k'"
  shows "get (put (put s k (Some v)) k' (Some v)) k = Some v"
    and "get (put (put s k (Some v)) k' (Some v)) k' = Some v"
  using assms by (simp_all add: get_put put_inv)

lemma put_comm:
  assumes "inv s" and "ok k" and "ok k'" and "canon k \<noteq> canon k'"
  shows "content (put (put s k v) k' v') = content (put (put s k' v') k v)"
  using assms by (simp add: put_law put_inv fun_upd_twist)

end

lemma hval_ok_calc: "hval_ok True k (Some (fst (pj_hash_calc_tolower 0 k)))"
  by (simp add: hval_ok_def hash_of_def norm_def tolower_calc)

interpretation tbl: key_table "hash_inv False" "view False" "\<lambda>_. True" "norm False"
  "\<lambda>ht k. pj_hash_get ht (Key_Bytes k) None" "\<lambda>ht k v. pj_hash_set ht (Key_Bytes k) 0 v"
proof
  fix s :: "'v pj_hash_table" and k v
  assume a: "hash_inv False s"
  show "pj_hash_get s (Key_Bytes k) None = view False s (norm False k)"
    unfolding pj_hash_get_def by (subst get_view[OF a]) (simp_all add: key_ok_def hval_ok_def)
  show "hash_inv False (pj_hash_set s (Key_Bytes k) 0 v)"
    unfolding pj_hash_set_def by (rule hash_set_inv_view(1)[OF a]) (simp_all add: key_ok_def hval_ok_def)
  show "view False (pj_hash_set s (Key_Bytes k) 0 v) = (view False s)(norm False k := v)"
    unfolding pj_hash_set_def by (subst hash_set_inv_view(2)[OF a]) (simp_all add: key_ok_def hval_ok_def)
qed

text \<open>
  The case-insensitive table, with the hash values the transaction layer passes: zero to look up, the
  one calculated in advance to set.
\<close>

interpretation lower_tbl: key_table "hash_inv True" "view True" "key_ok True" "norm True"
  "\<lambda>ht k. pj_hash_get_lower ht (Key_Bytes k) (Some 0)"
  "\<lambda>ht k v. pj_hash_set_lower ht (Key_Bytes k) (fst (pj_hash_calc_tolower 0 k)) v"
proof
  fix s :: "'v pj_hash_table" and k v
  assume a: "hash_inv True s" "key_ok True k"
  show "pj_hash_get_lower s (Key_Bytes k) (Some 0) = view True s (norm True k)"
    unfolding pj_hash_get_lower_def by (subst get_view[OF a(1)]) (simp_all add: a hval_ok_def)
  show "hash_inv True (pj_hash_set_lower s (Key_Bytes k) (fst (pj_hash_calc_tolower 0 k)) v)"
    unfolding pj_hash_set_lower_def by (rule hash_set_inv_view(1)[OF a(1)]) (simp_all add: a hval_ok_calc)
  show "view True (pj_hash_set_lower s (Key_Bytes k) (fst (pj_hash_calc_tolower 0 k)) v)
      = (view True s)(norm True k := v)"
    unfolding pj_hash_set_lower_def by (subst hash_set_inv_view(2)[OF a(1)]) (simp_all add: a hval_ok_calc)
qed

section \<open>Properties\<close>

text \<open>C7: setting a key (a value, or NULL to delete) refines the update of a map: the table stays well
  formed, every lookup afterwards answers as the updated map, and the count is the number of keys.
  The same holds of the case-insensitive operations, up to the case of the keys.\<close>

theorem hash_refines_map:
  assumes "hash_inv lower ht" and "key_ok lower (key_bytes k)" and "hval_ok lower (key_bytes k) (Some hval)"
    and "key_ok lower (key_bytes q)" and "hval_ok lower (key_bytes q) qval"
  shows "let ht' = hash_set lower ht k hval v; m = (view lower ht)(norm lower (key_bytes k) := v)
    in hash_inv lower ht' \<and> view lower ht' = m \<and> pj_hash_count ht' = card (dom m) \<and>
      (if lower then pj_hash_get_lower ht' q qval else pj_hash_get ht' q qval) = m (norm lower (key_bytes q))"
proof -
  define ht' where "ht' = hash_set lower ht k hval v"
  define m where "m = (view lower ht)(norm lower (key_bytes k) := v)"
  have i: "hash_inv lower ht'" and w: "view lower ht' = m"
    using hash_set_inv_view[OF assms(1-3)] by (simp_all add: ht'_def m_def)
  have "(if lower then pj_hash_get_lower ht' q qval else pj_hash_get ht' q qval) = m (norm lower (key_bytes q))"
    using get_view[OF i assms(4,5)] w
    by (cases lower) (simp_all add: pj_hash_get_lower_def pj_hash_get_def)
  then show ?thesis
    unfolding Let_def ht'_def[symmetric] m_def[symmetric] using i w count_view[OF i] by simp
qed

text \<open>C33: iterating from \<^verbatim>\<open>pj_hash_first\<close> with \<^verbatim>\<open>pj_hash_next\<close> visits the value of every entry, each
  entry once, and ends after \<^verbatim>\<open>count\<close> steps.\<close>

theorem hash_iterate_visits_all:
  assumes "hash_inv lower ht"
  shows "iterate (pj_hash_count ht) ht (pj_hash_first ht) = map he_value (concat (table ht)) \<and>
    iterate (pj_hash_count ht + n) ht (pj_hash_first ht) = iterate (pj_hash_count ht) ht (pj_hash_first ht) \<and>
    set (map he_value (concat (table ht))) = ran (view lower ht)"
proof -
  have len: "length (table ht) = Suc (rows ht)" "pj_hash_count ht = length (concat (table ht))"
    using assms by (auto simp: hash_inv_def pj_hash_count_def)
  have f: "it_rest ht (pj_hash_first ht) = concat (table ht)" "it_ok (pj_hash_first ht)"
    using next_row_rest[OF len(1), of 0] by (simp_all add: pj_hash_first_def rest_def)
  have "set (map he_value (concat (table ht))) = ran (view lower ht)"
    unfolding ran_def view_iff[OF assms] by auto
  then show ?thesis using iterate_rest[OF len(1) f(2)] f(1) len(2) by simp
qed

text \<open>C34: \<^verbatim>\<open>pj_hash_create\<close> returns exactly for sizes up to \<open>2 ^ 31\<close> (for a larger one the doubled
  \<^verbatim>\<open>unsigned\<close> wraps to zero and the loop never ends); then the table is empty and well formed, and
  its number of buckets is the least power of two from 16 on that is not below the size.\<close>

theorem hash_create_total:
  "if sz \<le> 2 ^ 31 then \<exists>ht :: 'v pj_hash_table. pj_hash_create sz = Some ht \<and>
      hash_inv lower ht \<and> view lower ht = Map.empty \<and>
      (\<exists>n. rows ht + 1 = 2 ^ n \<and> 4 \<le> n \<and> sz \<le> 2 ^ n \<and> (n = 4 \<or> 2 ^ (n - 1) < sz))
   else (pj_hash_create sz :: 'v pj_hash_table option) = None"
proof (cases "sz \<le> 2 ^ 31")
  case True
  then obtain n where n: "double_until sz 8 = Some (2 ^ n)" "4 \<le> n" "n \<le> 31" "sz \<le> 2 ^ n" "n = 4 \<or> 2 ^ (n - 1) < sz"
    using double_until_power[OF True, of 3] by auto
  let ?ht = "\<lparr>table = replicate (2 ^ n - 1 + 1) [], ht_count = 0, rows = 2 ^ n - 1\<rparr> :: 'v pj_hash_table"
  have "(2::nat) ^ n \<le> 2 ^ 31" using n(3) by (rule power_increasing) simp
  then have "hash_inv lower ?ht" by (simp add: hash_inv_def)
  moreover have "view lower ?ht = Map.empty" by (simp add: view_def fun_eq_iff)
  moreover have "pj_hash_create sz = Some ?ht" using n(1) by (simp add: pj_hash_create_def)
  ultimately show ?thesis using True n by auto
next
  case False
  then have "double_until sz 8 = None"
    using double_until_diverges[of sz 8] by (cases "double_until sz 8") (auto dest!: spec[of _ 3])
  then show ?thesis using False by (simp add: pj_hash_create_def)
qed

section \<open>Witnesses\<close>

definition two_keys :: "nat pj_hash_table" where
  "two_keys = hash_set True (hash_set True \<lparr>table = replicate 16 [], ht_count = 0, rows = 15\<rparr>
     (Key_Bytes [65, 98]) 0 (Some 1)) (Key_Bytes [99]) 0 (Some 2)"

lemma two_keys_inv: "hash_inv True two_keys"
proof -
  have e: "hash_inv True (\<lparr>table = replicate 16 [], ht_count = 0, rows = 15\<rparr> :: nat pj_hash_table)"
    by (simp add: hash_inv_def)
  show ?thesis unfolding two_keys_def
    by (intro hash_set_inv_view(1) e) (simp_all add: key_ok_def hval_ok_def)
qed

lemma hash_refines_map_witness:
  "pj_hash_get_lower (hash_set True two_keys (Key_String [97, 66, 0, 1]) 0 (Some 9)) (Key_Bytes [65, 66]) None = Some 9"
  using hash_refines_map[OF two_keys_inv, of "Key_String [97, 66, 0, 1]" 0 "Key_Bytes [65, 66]" None "Some 9"]
  by (simp add: Let_def key_ok_def hval_ok_def norm_def pj_tolower_def)

lemma hash_iterate_visits_all_witness:
  "iterate (pj_hash_count two_keys) two_keys (pj_hash_first two_keys) = map he_value (concat (table two_keys))"
  using hash_iterate_visits_all[OF two_keys_inv] by blast

end
