(* ===== verification/Rtp.thy ===== *)
theory Rtp
  imports Prelude
begin

text \<open>
  The RTP session of \<^verbatim>\<open>pjmedia/src/pjmedia/rtp.c\<close>: building and decoding headers, and the tracking
  of received sequence numbers. Integers keep their C width. The fields of a header that are in
  network byte order in the C structure are the numbers they denote, so that \<^verbatim>\<open>pj_htons\<close> and
  \<^verbatim>\<open>pj_ntohs\<close> are the identity on them; \<open>hdr_bytes\<close> and \<open>hdr_at\<close> are the layout of the structure
  in memory (the little-endian bit fields of \<^verbatim>\<open>rtp.h\<close>, whose bytes are those of RFC 3550).
\<close>

unbundle bit_operations_syntax

section \<open>Data\<close>

record pjmedia_rtp_hdr =
  hdr_v :: "2 word"
  hdr_p :: bool
  hdr_x :: bool
  hdr_cc :: "4 word"
  hdr_m :: bool
  hdr_pt :: "7 word"
  hdr_seq :: "16 word"
  hdr_ts :: "32 word"
  hdr_ssrc :: "32 word"

record pjmedia_rtp_seq_session =
  max_seq :: "16 word"
  cycles :: "32 word"
  base_seq :: "32 word"
  bad_seq :: "32 word"
  probation :: "32 word"

record pjmedia_rtp_session =
  out_hdr :: pjmedia_rtp_hdr
  seq_ctrl :: pjmedia_rtp_seq_session
  out_pt :: "16 word"
  out_extseq :: "32 word"
  has_peer_ssrc :: bool
  peer_ssrc :: "32 word"
  received :: "32 word"

record pjmedia_rtp_status =
  st_bad :: bool
  st_badpt :: bool
  st_badssrc :: bool
  st_dup :: bool
  st_outorder :: bool
  st_probation :: bool
  st_restart :: bool
  st_diff :: "16 word"

definition status_zero :: pjmedia_rtp_status where
  "status_zero = \<lparr>st_bad = False, st_badpt = False, st_badssrc = False, st_dup = False,
     st_outorder = False, st_probation = False, st_restart = False, st_diff = 0\<rparr>"

abbreviation (input) "PJMEDIA_RTP_EINVER \<equiv> (220122 :: pj_status_t)"
abbreviation (input) "PJMEDIA_RTP_EINLEN \<equiv> (220125 :: pj_status_t)"

abbreviation (input) "RTP_VERSION \<equiv> 2"
abbreviation (input) "RTP_SEQ_MOD \<equiv> 65536"
abbreviation (input) "MAX_DROPOUT \<equiv> 3000"
abbreviation (input) "MAX_MISORDER \<equiv> 100"
abbreviation (input) "MIN_SEQUENTIAL \<equiv> 2"

section \<open>The layout of a header\<close>

definition bool_bit :: "bool \<Rightarrow> nat \<Rightarrow> byte" where
  "bool_bit b n = (if b then push_bit n 1 else 0)"

definition be16 :: "16 word \<Rightarrow> byte list" where
  "be16 w = [ucast (drop_bit 8 w), ucast w]"

definition be32 :: "32 word \<Rightarrow> byte list" where
  "be32 w = [ucast (drop_bit 24 w), ucast (drop_bit 16 w), ucast (drop_bit 8 w), ucast w]"

definition hdr_bytes :: "pjmedia_rtp_hdr \<Rightarrow> byte list" where
  "hdr_bytes h =
     [push_bit 6 (ucast (hdr_v h)) OR bool_bit (hdr_p h) 5 OR bool_bit (hdr_x h) 4 OR ucast (hdr_cc h),
      bool_bit (hdr_m h) 7 OR ucast (hdr_pt h)]
     @ be16 (hdr_seq h) @ be32 (hdr_ts h) @ be32 (hdr_ssrc h)"

text \<open>A packet is memory, of which the first \<^verbatim>\<open>pkt_len\<close> bytes are its content.\<close>

type_synonym memory = "nat \<Rightarrow> byte"

definition get16 :: "memory \<Rightarrow> nat \<Rightarrow> 16 word" where
  "get16 pkt i = push_bit 8 (ucast (pkt i)) OR ucast (pkt (i + 1))"

definition get32 :: "memory \<Rightarrow> nat \<Rightarrow> 32 word" where
  "get32 pkt i = push_bit 24 (ucast (pkt i)) OR push_bit 16 (ucast (pkt (i + 1))) OR
     push_bit 8 (ucast (pkt (i + 2))) OR ucast (pkt (i + 3))"

definition hdr_at :: "memory \<Rightarrow> pjmedia_rtp_hdr" where
  "hdr_at pkt =
     \<lparr>hdr_v = ucast (drop_bit 6 (pkt 0)), hdr_p = bit (pkt 0) 5, hdr_x = bit (pkt 0) 4,
      hdr_cc = ucast (pkt 0), hdr_m = bit (pkt 1) 7, hdr_pt = ucast (pkt 1),
      hdr_seq = get16 pkt 2, hdr_ts = get32 pkt 4, hdr_ssrc = get32 pkt 8\<rparr>"

definition mem_of :: "byte list \<Rightarrow> memory" where
  "mem_of bs i = (if i < length bs then bs ! i else 0)"

section \<open>Sequence numbers\<close>

definition pjmedia_rtp_seq_restart :: "pjmedia_rtp_seq_session \<Rightarrow> 16 word \<Rightarrow> pjmedia_rtp_seq_session" where
  "pjmedia_rtp_seq_restart sess seq =
     sess\<lparr>base_seq := ucast seq, max_seq := seq, bad_seq := RTP_SEQ_MOD + 1, cycles := 0\<rparr>"

definition pjmedia_rtp_seq_init :: "pjmedia_rtp_seq_session \<Rightarrow> 16 word \<Rightarrow> pjmedia_rtp_seq_session" where
  "pjmedia_rtp_seq_init sess seq =
     (pjmedia_rtp_seq_restart sess seq)\<lparr>max_seq := seq - 1, probation := MIN_SEQUENTIAL\<rparr>"

definition pjmedia_rtp_seq_update ::
  "pjmedia_rtp_seq_session \<Rightarrow> 16 word \<Rightarrow> pjmedia_rtp_seq_session \<times> pjmedia_rtp_status" where
  "pjmedia_rtp_seq_update sess seq =
     (let udelta = seq - max_seq sess; st = status_zero
      in if probation sess \<noteq> 0 then
           let st1 = st\<lparr>st_probation := True\<rparr>
           in if seq = max_seq sess + 1 then
                let sess1 = sess\<lparr>probation := probation sess - 1, max_seq := seq\<rparr>
                in (if probation sess1 = 0 then sess1\<lparr>base_seq := ucast seq\<rparr> else sess1,
                    st1\<lparr>st_diff := 1\<rparr>)
              else
                let st2 = st1\<lparr>st_diff := 0, st_bad := True\<rparr>;
                    st3 = (if seq = max_seq sess then st2\<lparr>st_dup := True\<rparr> else st2\<lparr>st_outorder := True\<rparr>)
                in (sess\<lparr>probation := MIN_SEQUENTIAL - 1, max_seq := seq\<rparr>, st3)
         else if udelta = 0 then (sess, st\<lparr>st_dup := True\<rparr>)
         else if unat udelta < MAX_DROPOUT then
           ((if seq < max_seq sess then sess\<lparr>cycles := cycles sess + RTP_SEQ_MOD\<rparr> else sess)\<lparr>max_seq := seq\<rparr>,
            st\<lparr>st_diff := udelta\<rparr>)
         else if unat udelta \<le> RTP_SEQ_MOD - MAX_MISORDER then
           if ucast seq = bad_seq sess then
             (pjmedia_rtp_seq_restart sess seq, st\<lparr>st_restart := True, st_probation := True, st_diff := 1\<rparr>)
           else
             (sess\<lparr>bad_seq := (ucast seq + 1) AND (RTP_SEQ_MOD - 1)\<rparr>, st\<lparr>st_bad := True, st_outorder := True\<rparr>)
         else (sess, st\<lparr>st_outorder := True\<rparr>))"

section \<open>Sessions\<close>

text \<open>\<open>rand1\<close> and \<open>rand2\<close> are what the two calls of \<^verbatim>\<open>pj_rand\<close> return (the first one is only made
  when the SSRC is not specified).\<close>

definition pjmedia_rtp_session_init :: "32 word \<Rightarrow> 32 word \<Rightarrow> int \<Rightarrow> 32 word \<Rightarrow> pjmedia_rtp_session" where
  "pjmedia_rtp_session_init rand1 rand2 default_pt sender_ssrc =
     (let ssrc = (if sender_ssrc = 0 \<or> sender_ssrc = -1 then rand1 else sender_ssrc);
          extseq = rand2 AND 0x7FFF
      in \<lparr>out_hdr = \<lparr>hdr_v = RTP_VERSION, hdr_p = False, hdr_x = False, hdr_cc = 0, hdr_m = False,
            hdr_pt = word_of_int default_pt, hdr_seq = ucast extseq, hdr_ts = 0, hdr_ssrc = ssrc\<rparr>,
          seq_ctrl = \<lparr>max_seq = 0, cycles = 0, base_seq = 0, bad_seq = 0, probation = 0\<rparr>,
          out_pt = word_of_int default_pt, out_extseq = extseq, has_peer_ssrc = False, peer_ssrc = 0,
          received = 0\<rparr>)"

record pjmedia_rtp_session_setting =
  set_flags :: byte
  set_default_pt :: int
  set_sender_ssrc :: "32 word"
  set_peer_ssrc :: "32 word"
  set_seq :: "16 word"
  set_ts :: "32 word"

definition pjmedia_rtp_session_init2 ::
  "32 word \<Rightarrow> 32 word \<Rightarrow> pjmedia_rtp_session_setting \<Rightarrow> pjmedia_rtp_session" where
  "pjmedia_rtp_session_init2 rand1 rand2 settings =
     (let pt = (if bit (set_flags settings) 0 then set_default_pt settings else 0);
          sender_ssrc = (if bit (set_flags settings) 1 then set_sender_ssrc settings else 0);
          ses = pjmedia_rtp_session_init rand1 rand2 pt sender_ssrc;
          ses1 = (if bit (set_flags settings) 2
                  then ses\<lparr>out_extseq := ucast (set_seq settings),
                           out_hdr := (out_hdr ses)\<lparr>hdr_seq := set_seq settings\<rparr>\<rparr> else ses);
          ses2 = (if bit (set_flags settings) 3
                  then ses1\<lparr>out_hdr := (out_hdr ses1)\<lparr>hdr_ts := set_ts settings\<rparr>\<rparr> else ses1)
      in if bit (set_flags settings) 4
         then ses2\<lparr>has_peer_ssrc := True, peer_ssrc := set_peer_ssrc settings\<rparr> else ses2)"

text \<open>The header is \<open>None\<close> for a clock frame, where the code leaves its output arguments alone.\<close>

definition pjmedia_rtp_encode_rtp ::
  "pjmedia_rtp_session \<Rightarrow> int \<Rightarrow> bool \<Rightarrow> int \<Rightarrow> int \<Rightarrow> pjmedia_rtp_session \<times> pjmedia_rtp_hdr option" where
  "pjmedia_rtp_encode_rtp ses pt m payload_len ts_len =
     (let ses1 = ses\<lparr>out_hdr := (out_hdr ses)\<lparr>hdr_ts := hdr_ts (out_hdr ses) + word_of_int ts_len\<rparr>\<rparr>
      in if payload_len = 0 then (ses1, None)
         else let ses2 = ses1\<lparr>out_extseq := out_extseq ses1 + 1\<rparr>;
                  hdr = (out_hdr ses2)\<lparr>
                     hdr_pt := (if pt = -1 then ucast (ucast (out_pt ses2) :: byte) else word_of_int pt),
                     hdr_m := m, hdr_seq := ucast (out_extseq ses2)\<rparr>
              in (ses2\<lparr>out_hdr := hdr\<rparr>, Some hdr))"

record rtp_decoded =
  dec_hdr :: pjmedia_rtp_hdr
  dec_ext :: "nat option"
  dec_ext_len :: nat
  dec_payload :: "nat option"
  dec_payloadlen :: nat

text \<open>
  The extension and the payload are offsets into the packet; \<open>Inl\<close> is an error status. The header
  is read whatever the length of the packet, as the code does.
\<close>

definition pjmedia_rtp_decode_rtp2 :: "memory \<Rightarrow> int \<Rightarrow> pj_status_t + rtp_decoded" where
  "pjmedia_rtp_decode_rtp2 pkt pkt_len =
     (let hdr = hdr_at pkt
      in if hdr_v hdr \<noteq> RTP_VERSION then Inl PJMEDIA_RTP_EINVER
         else let offset = 12 + unat (hdr_cc hdr) * 4
         in if hdr_x hdr \<and> offset + 4 > u32 pkt_len then Inl PJMEDIA_RTP_EINLEN
         else let ext_len = (if hdr_x hdr then unat (get16 pkt (offset + 2)) else 0);
                  ext = (if hdr_x hdr then Some (offset + 4) else None);
                  offset' = (if hdr_x hdr then offset + (ext_len + 1) * 4 else offset)
         in if int offset' > pkt_len then Inl PJMEDIA_RTP_EINLEN
         else let payload = (if int offset' = pkt_len then None else Some offset');
                  payloadlen = nat (pkt_len - int offset');
                  pad_len = unat (pkt (offset' + (payloadlen - 1)));
                  payloadlen' = (if hdr_p hdr \<and> payloadlen > 0 \<and> pad_len \<le> payloadlen
                                 then payloadlen - pad_len else payloadlen)
         in Inr \<lparr>dec_hdr = hdr, dec_ext = ext, dec_ext_len = ext_len, dec_payload = payload,
                 dec_payloadlen = payloadlen'\<rparr>)"

definition pjmedia_rtp_decode_rtp :: "memory \<Rightarrow> int \<Rightarrow> pj_status_t + pjmedia_rtp_hdr \<times> nat option \<times> nat" where
  "pjmedia_rtp_decode_rtp pkt pkt_len =
     (case pjmedia_rtp_decode_rtp2 pkt pkt_len of
        Inl e \<Rightarrow> Inl e
      | Inr d \<Rightarrow> Inr (dec_hdr d, dec_payload d, dec_payloadlen d))"

text \<open>\<open>p_seq_st\<close> is the caller's status structure, \<open>None\<close> for NULL.\<close>

definition pjmedia_rtp_session_update2 ::
  "pjmedia_rtp_session \<Rightarrow> pjmedia_rtp_hdr \<Rightarrow> pjmedia_rtp_status option \<Rightarrow> bool
   \<Rightarrow> pjmedia_rtp_session \<times> pjmedia_rtp_status option" where
  "pjmedia_rtp_session_update2 ses hdr p_seq_st check_pt =
     (let seq_st = status_zero;
          ses1 = (if \<not> has_peer_ssrc ses \<and> peer_ssrc ses = 0 then ses\<lparr>peer_ssrc := hdr_ssrc hdr\<rparr> else ses);
          (seq_st1, ses2) = (if hdr_ssrc hdr \<noteq> peer_ssrc ses1
             then (seq_st\<lparr>st_badssrc := True\<rparr>,
                   if \<not> has_peer_ssrc ses1 then ses1\<lparr>peer_ssrc := hdr_ssrc hdr\<rparr> else ses1)
             else (seq_st, ses1))
      in if check_pt \<and> unat (hdr_pt hdr) \<noteq> unat (out_pt ses2) then
           (ses2, map_option (\<lambda>p. seq_st1\<lparr>st_bad := True, st_badpt := True, st_diff := st_diff p\<rparr>) p_seq_st)
         else let ses3 = (if received ses2 = 0
                          then ses2\<lparr>seq_ctrl := pjmedia_rtp_seq_init (seq_ctrl ses2) (hdr_seq hdr)\<rparr> else ses2);
                  (ctrl, seq_st2) = pjmedia_rtp_seq_update (seq_ctrl ses3) (hdr_seq hdr);
                  ses4 = ses3\<lparr>seq_ctrl := ctrl\<rparr>;
                  ses5 = (if st_restart seq_st2 then ses4\<lparr>received := received ses4 + 1\<rparr>
                          else if \<not> st_bad seq_st2 then ses4\<lparr>received := received ses4 + 1\<rparr> else ses4)
              in (ses5, map_option (\<lambda>_. seq_st2) p_seq_st))"

definition pjmedia_rtp_session_update ::
  "pjmedia_rtp_session \<Rightarrow> pjmedia_rtp_hdr \<Rightarrow> pjmedia_rtp_status option
   \<Rightarrow> pjmedia_rtp_session \<times> pjmedia_rtp_status option" where
  "pjmedia_rtp_session_update ses hdr p_seq_st = pjmedia_rtp_session_update2 ses hdr p_seq_st True"

section \<open>Encoding and decoding\<close>

lemma get16_at: "pkt i = ucast (drop_bit 8 w) \<Longrightarrow> pkt (i + 1) = ucast w \<Longrightarrow> get16 pkt i = w"
  by (rule bit_word_eqI) (auto simp: get16_def bit_simps)

lemma get32_at:
  assumes "pkt i = ucast (drop_bit 24 w)" and "pkt (i + 1) = ucast (drop_bit 16 w)"
    and "pkt (i + 2) = ucast (drop_bit 8 w)" and "pkt (i + 3) = ucast w"
  shows "get32 pkt i = w"
proof (rule bit_word_eqI)
  fix n assume n: "n < LENGTH(32)"
  consider "n < 8" | "8 \<le> n" "n < 16" | "16 \<le> n" "n < 24" | "24 \<le> n" "n < 32" using n by fastforce
  then show "bit (get32 pkt i) n = bit w n"
    unfolding get32_def assms by cases (auto simp: bit_simps)
qed

lemma ucast_up_down [simp]: "ucast (ucast (w :: 16 word) :: 32 word) = w"
  by (rule bit_word_eqI) (auto simp: bit_simps)

lemma hdr_bytes_length: "length (hdr_bytes h) = 12"
  by (simp add: hdr_bytes_def be16_def be32_def)

lemma hdr_at_bytes: "hdr_at (mem_of (hdr_bytes h @ rest)) = h"
proof -
  let ?m = "mem_of (hdr_bytes h @ rest)"
  have m: "?m 0 = push_bit 6 (ucast (hdr_v h)) OR bool_bit (hdr_p h) 5 OR bool_bit (hdr_x h) 4 OR ucast (hdr_cc h)"
    "?m 1 = bool_bit (hdr_m h) 7 OR ucast (hdr_pt h)"
    by (simp_all add: mem_of_def hdr_bytes_def)
  have "get16 ?m 2 = hdr_seq h"
    by (rule get16_at) (simp_all add: mem_of_def hdr_bytes_def be16_def be32_def eval_nat_numeral)
  moreover have "get32 ?m 4 = hdr_ts h" "get32 ?m 8 = hdr_ssrc h"
    by (rule get32_at; simp add: mem_of_def hdr_bytes_def be16_def be32_def eval_nat_numeral)+
  moreover have "ucast (drop_bit 6 (?m 0)) = hdr_v h"
    unfolding m by (rule bit_word_eqI)
      (auto simp: bool_bit_def bit_simps less_2_cases_iff dest: bit_imp_le_length)
  moreover have "ucast (?m 0) = hdr_cc h"
  proof (rule bit_word_eqI)
    fix n assume "n < LENGTH(4)"
    then consider "n = 0" | "n = 1" | "n = 2" | "n = 3" by fastforce
    then show "bit (ucast (?m 0) :: 4 word) n = bit (hdr_cc h) n"
      unfolding m by cases (auto simp: bool_bit_def bit_simps)
  qed
  moreover have "ucast (?m 1) = hdr_pt h"
  proof (rule bit_word_eqI)
    fix n assume "n < LENGTH(7)"
    then consider "n = 0" | "n = 1" | "n = 2" | "n = 3" | "n = 4" | "n = 5" | "n = 6" by fastforce
    then show "bit (ucast (?m 1) :: 7 word) n = bit (hdr_pt h) n"
      unfolding m by cases (auto simp: bool_bit_def bit_simps)
  qed
  moreover have "bit (?m 0) 5 = hdr_p h" "bit (?m 0) 4 = hdr_x h" "bit (?m 1) 7 = hdr_m h"
    unfolding m by (auto simp: bool_bit_def bit_simps dest: bit_imp_le_length)
  ultimately show ?thesis by (simp add: hdr_at_def)
qed

text \<open>The fields of the outgoing header that no operation changes after the initialisation.\<close>

definition out_ok :: "pjmedia_rtp_session \<Rightarrow> bool" where
  "out_ok ses \<longleftrightarrow> hdr_v (out_hdr ses) = RTP_VERSION \<and> \<not> hdr_p (out_hdr ses) \<and> \<not> hdr_x (out_hdr ses) \<and>
     hdr_cc (out_hdr ses) = 0 \<and> hdr_seq (out_hdr ses) = ucast (out_extseq ses)"

lemma session_init_ok: "out_ok (pjmedia_rtp_session_init r1 r2 pt ssrc)"
  by (simp add: out_ok_def pjmedia_rtp_session_init_def Let_def)

lemma session_init2_ok: "out_ok (pjmedia_rtp_session_init2 r1 r2 settings)"
  using session_init_ok[of r1 r2]
  by (simp add: out_ok_def pjmedia_rtp_session_init2_def Let_def)

lemma encode_ok:
  assumes "out_ok ses"
  shows "out_ok (fst (pjmedia_rtp_encode_rtp ses pt m payload_len ts_len))"
  using assms by (simp add: out_ok_def pjmedia_rtp_encode_rtp_def Let_def)

section \<open>Extended sequence numbers\<close>

definition ext_seq :: "pjmedia_rtp_seq_session \<Rightarrow> 32 word" where
  "ext_seq sess = cycles sess + ucast (max_seq sess)"

text \<open>A sequence of packets, and the sequence numbers a sender that skips gives them.\<close>

fun feed :: "pjmedia_rtp_seq_session \<Rightarrow> 16 word list \<Rightarrow> pjmedia_rtp_seq_session \<times> pjmedia_rtp_status list" where
  "feed sess [] = (sess, [])"
| "feed sess (s # ss) =
     (let (sess1, st) = pjmedia_rtp_seq_update sess s; (sess2, sts) = feed sess1 ss in (sess2, st # sts))"

fun numbers :: "16 word \<Rightarrow> nat list \<Rightarrow> 16 word list" where
  "numbers s [] = []"
| "numbers s (j # js) = (s + word_of_nat j) # numbers (s + word_of_nat j) js"

lemma unat16_less: "unat (s :: 16 word) < 65536"
  using unsigned_less[of s, where ?'a = nat] by simp

lemma unat_ucast16 [simp]: "unat (ucast (s :: 16 word) :: 32 word) = unat s"
  using unat16_less[of s] by (simp add: unsigned_ucast_eq take_bit_nat_eq_self)

lemma ucast_down_Suc: "(ucast (x + 1 :: 32 word) :: 16 word) = ucast x + 1"
proof (rule word_unat_eq_iff[THEN iffD2])
  show "unat (ucast (x + 1) :: 16 word) = unat ((ucast x :: 16 word) + 1)"
    by (simp add: unat_word_ariths unsigned_ucast_eq take_bit_eq_mod mod_simps mod_mod_cancel)
qed

lemma unat_step:
  assumes "j < 65536"
  shows "unat ((s :: 16 word) + word_of_nat j) = (if unat s + j < 65536 then unat s + j else unat s + j - 65536)"
proof -
  have "unat (word_of_nat j :: 16 word) = j" using assms by (simp add: unat_of_nat)
  moreover have "unat s < 65536" by (rule unat16_less)
  ultimately show ?thesis using assms by (simp add: unat_word_ariths mod_if)
qed

lemma seq_update_in_order:
  assumes "probation sess = 0" and "1 \<le> j" and "j < MAX_DROPOUT"
  shows "\<exists>sess'. pjmedia_rtp_seq_update sess (max_seq sess + word_of_nat j) =
      (sess', status_zero\<lparr>st_diff := word_of_nat j\<rparr>) \<and> probation sess' = 0 \<and>
    max_seq sess' = max_seq sess + word_of_nat j \<and> base_seq sess' = base_seq sess \<and>
    ext_seq sess' = ext_seq sess + word_of_nat j"
proof -
  let ?s = "max_seq sess" and ?n = "max_seq sess + word_of_nat j"
  have u: "unat (word_of_nat j :: 16 word) = j" using assms(3) by (simp add: unat_of_nat)
  then have nz: "(word_of_nat j :: 16 word) \<noteq> 0" using assms(2) by (metis not_one_le_zero unat_0)
  have n: "unat ?n = (if unat ?s + j < 65536 then unat ?s + j else unat ?s + j - 65536)"
    using assms(3) by (intro unat_step) simp
  have s: "unat ?s < 65536" by (rule unat16_less)
  have lt: "?n < ?s \<longleftrightarrow> 65536 \<le> unat ?s + j"
    using n s assms(3) by (auto simp: word_less_nat_alt)
  have "ucast ?n + (if ?n < ?s then 65536 else 0) = (ucast ?s + word_of_nat j :: 32 word)"
  proof -
    have "(ucast ?n :: 32 word) = word_of_nat (unat ?n)" by simp
    also have "\<dots> + (if ?n < ?s then 65536 else 0) = word_of_nat (unat ?s + j)"
    proof (cases "?n < ?s")
      case True
      then have "unat ?n + 65536 = unat ?s + j" using n lt by simp
      then have "word_of_nat (unat ?n + 65536) = (word_of_nat (unat ?s + j) :: 32 word)" by simp
      then show ?thesis using True by (simp only: of_nat_add if_True) simp
    next
      case False
      then show ?thesis using n lt by simp
    qed
    finally show ?thesis by simp
  qed
  then have "ext_seq ((if ?n < ?s then sess\<lparr>cycles := cycles sess + 65536\<rparr> else sess)\<lparr>max_seq := ?n\<rparr>)
      = ext_seq sess + word_of_nat j"
    by (auto simp: ext_seq_def algebra_simps split: if_splits)
  then show ?thesis
    using assms u nz by (auto simp: pjmedia_rtp_seq_update_def Let_def)
qed

lemma feed_in_order:
  "probation sess = 0 \<Longrightarrow> \<forall>j\<in>set js. 1 \<le> j \<and> j < MAX_DROPOUT \<Longrightarrow>
   \<exists>sess'. feed sess (numbers (max_seq sess) js) =
       (sess', map (\<lambda>j. status_zero\<lparr>st_diff := word_of_nat j\<rparr>) js) \<and>
     ext_seq sess' = ext_seq sess + word_of_nat (sum_list js) \<and> base_seq sess' = base_seq sess"
proof (induction js arbitrary: sess)
  case (Cons j js)
  obtain s1 where s1: "pjmedia_rtp_seq_update sess (max_seq sess + word_of_nat j) =
      (s1, status_zero\<lparr>st_diff := word_of_nat j\<rparr>)" "probation s1 = 0"
    "max_seq s1 = max_seq sess + word_of_nat j" "base_seq s1 = base_seq sess"
    "ext_seq s1 = ext_seq sess + word_of_nat j"
    using seq_update_in_order[OF Cons.prems(1), of j] Cons.prems(2) by auto
  obtain s2 where s2: "feed s1 (numbers (max_seq s1) js) =
       (s2, map (\<lambda>j. status_zero\<lparr>st_diff := word_of_nat j\<rparr>) js)"
     "ext_seq s2 = ext_seq s1 + word_of_nat (sum_list js)" "base_seq s2 = base_seq s1"
    using Cons.IH[OF s1(2)] Cons.prems(2) by auto
  show ?case using s1 s2 by simp
qed simp

section \<open>Properties\<close>

text \<open>C26: a header that \<^verbatim>\<open>pjmedia_rtp_encode_rtp\<close> builds from a well-formed session carries the next
  sequence number and the advanced timestamp, and a packet made of it and a payload decodes to the
  same header and to exactly that payload.\<close>

theorem rtp_roundtrip:
  assumes "out_ok ses" and "payload \<noteq> []"
    and "pjmedia_rtp_encode_rtp ses pt m (int (length payload)) ts_len = (ses', Some hdr)"
  shows "out_ok ses' \<and> hdr_seq hdr = hdr_seq (out_hdr ses) + 1 \<and>
    hdr_ts hdr = hdr_ts (out_hdr ses) + word_of_int ts_len \<and> hdr_ssrc hdr = hdr_ssrc (out_hdr ses) \<and>
    pjmedia_rtp_decode_rtp (mem_of (hdr_bytes hdr @ payload)) (12 + int (length payload)) =
      Inr (hdr, Some 12, length payload)"
proof -
  have h: "hdr_v hdr = 2" "\<not> hdr_p hdr" "\<not> hdr_x hdr" "hdr_cc hdr = 0" "hdr_ssrc hdr = hdr_ssrc (out_hdr ses)"
    "hdr_ts hdr = hdr_ts (out_hdr ses) + word_of_int ts_len" "hdr_seq hdr = ucast (out_extseq ses + 1)"
    using assms by (auto simp: pjmedia_rtp_encode_rtp_def Let_def out_ok_def)
  have "(ucast (out_extseq ses + 1) :: 16 word) = ucast (out_extseq ses) + 1"
    by (rule ucast_down_Suc)
  moreover have "pjmedia_rtp_decode_rtp (mem_of (hdr_bytes hdr @ payload)) (12 + int (length payload)) =
      Inr (hdr, Some 12, length payload)"
    using h assms(2) by (simp add: pjmedia_rtp_decode_rtp_def pjmedia_rtp_decode_rtp2_def hdr_at_bytes Let_def)
  moreover have "out_ok ses'" using encode_ok[OF assms(1), of pt m "int (length payload)" ts_len] assms(3) by simp
  ultimately show ?thesis using h assms(1) by (simp add: out_ok_def)
qed

text \<open>C27: decoding reads only the packet: it answers the same for any two memories that agree on the
  packet's bytes, for every packet that is not empty. What it answers lies inside the packet: the
  payload with its length, and the extension with its length.\<close>

theorem rtp_decode_in_bounds:
  assumes "0 < pkt_len" and "pkt_len < 2 ^ 31" and "\<And>i. int i < pkt_len \<Longrightarrow> pkt i = pkt' i"
  shows "pjmedia_rtp_decode_rtp2 pkt pkt_len = pjmedia_rtp_decode_rtp2 pkt' pkt_len \<and>
    (\<forall>d. pjmedia_rtp_decode_rtp2 pkt pkt_len = Inr d \<longrightarrow>
      (case dec_payload d of Some p \<Rightarrow> int p + int (dec_payloadlen d) \<le> pkt_len | None \<Rightarrow> dec_payloadlen d = 0) \<and>
      (case dec_ext d of Some e \<Rightarrow> int e + 4 * int (dec_ext_len d) \<le> pkt_len | None \<Rightarrow> dec_ext_len d = 0))"
proof
  have u: "u32 pkt_len = nat pkt_len" using assms(1,2) by simp
  have b0: "pkt 0 = pkt' 0" using assms(1,3) by simp
  let ?o = "12 + unat (hdr_cc (hdr_at pkt)) * 4"
  have f: "hdr_v (hdr_at pkt) = hdr_v (hdr_at pkt')" "hdr_x (hdr_at pkt) = hdr_x (hdr_at pkt')"
    "hdr_p (hdr_at pkt) = hdr_p (hdr_at pkt')" "hdr_cc (hdr_at pkt) = hdr_cc (hdr_at pkt')"
    using b0 by (simp_all add: hdr_at_def)
  have h: "hdr_at pkt = hdr_at pkt'" if "12 \<le> pkt_len"
    using that assms(3) by (simp add: hdr_at_def get16_def get32_def)
  have e: "get16 pkt (?o + 2) = get16 pkt' (?o + 2)" if "\<not> u32 pkt_len < ?o + 4"
  proof -
    have "pkt (?o + 2) = pkt' (?o + 2)" "pkt (?o + 2 + 1) = pkt' (?o + 2 + 1)"
      using that u by (intro assms(3); linarith)+
    then show ?thesis by (simp only: get16_def)
  qed
  have pad: "pkt (i + (nat (pkt_len - int i) - 1)) = pkt' (i + (nat (pkt_len - int i) - 1))"
    if "0 < nat (pkt_len - int i)" for i
    using that by (intro assms(3)) linarith
  show "pjmedia_rtp_decode_rtp2 pkt pkt_len = pjmedia_rtp_decode_rtp2 pkt' pkt_len"
  proof (cases "12 \<le> pkt_len")
    case False
    have short: "pjmedia_rtp_decode_rtp2 p pkt_len =
        (if hdr_v (hdr_at p) \<noteq> 2 then Inl 220122 else Inl 220125)" for p
    proof -
      have "u32 pkt_len < 12 + unat (hdr_cc (hdr_at p)) * 4 + 4"
        "pkt_len < int (12 + unat (hdr_cc (hdr_at p)) * 4)"
        using False u by linarith+
      then show ?thesis
        unfolding pjmedia_rtp_decode_rtp2_def Let_def
        by (cases "hdr_v (hdr_at p) = 2"; cases "hdr_x (hdr_at p)") (simp_all only: if_True if_False simp_thms)
    qed
    show ?thesis using f(1) by (simp add: short)
  next
    case True
    let ?q = "12 + unat (hdr_cc (hdr_at pkt')) * 4"
    let ?r = "?q + (unat (get16 pkt' (?q + 2)) + 1) * 4"
    note e' = e[unfolded h[OF True]]
    show ?thesis
    proof (cases "hdr_x (hdr_at pkt')")
      case False
      then show ?thesis
        unfolding pjmedia_rtp_decode_rtp2_def Let_def h[OF True]
        using pad[of ?q] by (cases "0 < nat (pkt_len - int ?q)") simp_all
    next
      case x: True
      show ?thesis
      proof (cases "u32 pkt_len < ?q + 4")
        case True
        then show ?thesis
          using x unfolding pjmedia_rtp_decode_rtp2_def Let_def h[OF \<open>12 \<le> pkt_len\<close>] by simp
      next
        case False
        show ?thesis
          unfolding pjmedia_rtp_decode_rtp2_def Let_def h[OF True]
          using x False e'[OF False] pad[of ?r]
          by (cases "0 < nat (pkt_len - int ?r)") simp_all
      qed
    qed
  qed
  show "\<forall>d. pjmedia_rtp_decode_rtp2 pkt pkt_len = Inr d \<longrightarrow>
      (case dec_payload d of Some p \<Rightarrow> int p + int (dec_payloadlen d) \<le> pkt_len | None \<Rightarrow> dec_payloadlen d = 0) \<and>
      (case dec_ext d of Some e \<Rightarrow> int e + 4 * int (dec_ext_len d) \<le> pkt_len | None \<Rightarrow> dec_ext_len d = 0)"
    unfolding pjmedia_rtp_decode_rtp2_def Let_def by (auto split: if_splits option.splits)
qed

text \<open>C8: once the source is valid, a sender that loses fewer than 2999 packets between any two is
  followed exactly: the extended sequence number advances by the true distance, modulo \<open>2 ^ 32\<close> and
  over any number of wrap-arounds of the 16-bit number, and each packet is reported clean, with its
  distance.\<close>

theorem rtp_seq_tracks_sender:
  assumes "probation sess = 0" and "\<forall>j\<in>set js. 1 \<le> j \<and> j < 3000"
  shows "\<exists>sess'. feed sess (numbers (max_seq sess) js) =
       (sess', map (\<lambda>j. status_zero\<lparr>st_diff := word_of_nat j\<rparr>) js) \<and>
     ext_seq sess' = ext_seq sess + word_of_nat (sum_list js) \<and> base_seq sess' = base_seq sess"
  by (rule feed_in_order[OF assms])

text \<open>After a very large jump, the first packet is rejected and only remembered, and when its
  successor follows, the session restarts from there.\<close>

theorem rtp_seq_resync:
  assumes "probation sess = 0" and "3000 \<le> unat (s - max_seq sess)" and "unat (s - max_seq sess) < 65436"
    and "ucast s \<noteq> bad_seq sess"
  shows "\<exists>sess' st st'. feed sess [s, s + 1] = (sess', [st, st']) \<and> st_bad st \<and> st_outorder st \<and>
    \<not> st_bad st' \<and> st_restart st' \<and> st_diff st' = 1 \<and> ext_seq sess' = ucast (s + 1) \<and> base_seq sess' = ucast (s + 1)"
proof -
  let ?d = "s - max_seq sess"
  have nz: "?d \<noteq> 0" using assms(2) by auto
  have d1: "unat (s + 1 - max_seq sess) = unat ?d + 1"
    using unat_step[of 1 ?d] assms(3) by (simp add: algebra_simps)
  then have nz1: "s + 1 - max_seq sess \<noteq> 0" by (metis add_is_0 one_neq_zero unat_0)
  have "(ucast s + 1) AND 65535 = (ucast (s + 1) :: 32 word)"
  proof (rule word_unat_eq_iff[THEN iffD2])
    have "unat (ucast s + 1 :: 32 word) = unat s + 1"
      using unat16_less[of s] by (simp add: unat_word_ariths)
    moreover have "unat ((ucast s + 1 :: 32 word) AND 65535) = unat (ucast s + 1 :: 32 word) mod 65536"
    proof -
      have "(65535 :: 32 word) = mask 16" by (simp add: mask_eq_exp_minus_1)
      then have "(ucast s + 1 :: 32 word) AND 65535 = take_bit 16 (ucast s + 1)" by (simp only: take_bit_eq_mask)
      then show ?thesis by (simp add: take_bit_eq_mod unat_mod_distrib)
    qed
    ultimately show "unat ((ucast s + 1 :: 32 word) AND 65535) = unat (ucast (s + 1) :: 32 word)"
      by (simp add: unat_word_ariths)
  qed
  then show ?thesis
    using assms nz nz1 d1 by (simp add: pjmedia_rtp_seq_update_def pjmedia_rtp_seq_restart_def ext_seq_def
        status_zero_def Let_def)
qed

text \<open>Unless the payload type is rejected, a packet with the wrong SSRC is never reported as such:
  \<^verbatim>\<open>pjmedia_rtp_session_update2\<close> sets the flag \<^verbatim>\<open>badssrc\<close>, and \<^verbatim>\<open>pjmedia_rtp_seq_update\<close> then overwrites
  the whole status.\<close>

theorem rtp_badssrc_lost:
  assumes "\<not> (check_pt \<and> unat (hdr_pt hdr) \<noteq> unat (out_pt ses))"
    and "pjmedia_rtp_session_update2 ses hdr (Some st) check_pt = (ses', Some st')"
  shows "\<not> st_badssrc st'"
proof -
  have "\<not> st_badssrc (snd (pjmedia_rtp_seq_update c s))" for c s
    by (simp add: pjmedia_rtp_seq_update_def status_zero_def Let_def)
  then have no: "pjmedia_rtp_seq_update c s = (c', x) \<Longrightarrow> \<not> st_badssrc x" for c s c' x by (metis snd_conv)
  show ?thesis
    using assms by (auto simp: pjmedia_rtp_session_update2_def Let_def status_zero_def dest: no split: prod.splits if_splits)
qed

section \<open>Witnesses\<close>

definition demo_session :: pjmedia_rtp_session where
  "demo_session = pjmedia_rtp_session_init 7 65530 8 0x12345678"

definition demo_seq :: pjmedia_rtp_seq_session where
  "demo_seq = \<lparr>max_seq = 65000, cycles = 65536, base_seq = 5, bad_seq = 65537, probation = 0\<rparr>"

lemma rtp_roundtrip_witness:
  "\<exists>ses' hdr. pjmedia_rtp_encode_rtp demo_session (-1) True 3 160 = (ses', Some hdr) \<and>
     pjmedia_rtp_decode_rtp (mem_of (hdr_bytes hdr @ [1, 2, 3])) 15 = Inr (hdr, Some 12, 3)"
proof -
  have "out_ok demo_session" by (simp add: demo_session_def session_init_ok)
  moreover obtain ses' hdr where e: "pjmedia_rtp_encode_rtp demo_session (-1) True 3 160 = (ses', Some hdr)"
    by (simp add: pjmedia_rtp_encode_rtp_def Let_def)
  ultimately show ?thesis
    using rtp_roundtrip[of demo_session "[1, 2, 3]" "-1" True 160 ses' hdr] by simp
qed

lemma rtp_decode_in_bounds_witness:
  "pjmedia_rtp_decode_rtp2 (mem_of [0x90, 0, 0, 1, 0, 0, 0, 0, 0, 0, 0, 9, 0, 0, 0, 0, 42]) 17 =
   pjmedia_rtp_decode_rtp2 (mem_of [0x90, 0, 0, 1, 0, 0, 0, 0, 0, 0, 0, 9, 0, 0, 0, 0, 42, 99]) 17"
  by (rule rtp_decode_in_bounds[THEN conjunct1]) (auto simp: mem_of_def nth_Cons split: nat.split)

lemma rtp_seq_tracks_sender_witness:
  "\<exists>sess'. feed demo_seq (numbers 65000 [1, 600, 2999]) =
       (sess', map (\<lambda>j. status_zero\<lparr>st_diff := word_of_nat j\<rparr>) [1, 600, 2999]) \<and>
     ext_seq sess' = 65536 + 65000 + 3600"
proof -
  have "probation demo_seq = 0" "max_seq demo_seq = 65000" "ext_seq demo_seq = 65536 + 65000"
    by (simp_all add: demo_seq_def ext_seq_def)
  moreover have "\<forall>j\<in>set [1, 600, 2999]. 1 \<le> j \<and> j < (3000 :: nat)"
    "word_of_nat (sum_list [1, 600, 2999]) = (3600 :: 32 word)" by simp_all
  ultimately show ?thesis using rtp_seq_tracks_sender[of demo_seq "[1, 600, 2999]"] by metis
qed

lemma rtp_seq_resync_witness:
  "\<exists>sess' st st'. feed demo_seq [20000, 20001] = (sess', [st, st']) \<and> st_bad st \<and> st_restart st'"
proof -
  have "unat (20000 - 65000 :: 16 word) = 20536" by code_simp
  then show ?thesis using rtp_seq_resync[of demo_seq 20000] by (auto simp: demo_seq_def)
qed

lemma rtp_badssrc_lost_witness:
  "\<exists>ses' st'. pjmedia_rtp_session_update2 (demo_session\<lparr>has_peer_ssrc := True, peer_ssrc := 1\<rparr>)
      (out_hdr demo_session) (Some status_zero) True = (ses', Some st') \<and> \<not> st_badssrc st'"
proof -
  obtain ses' st' where u: "pjmedia_rtp_session_update2 (demo_session\<lparr>has_peer_ssrc := True, peer_ssrc := 1\<rparr>)
      (out_hdr demo_session) (Some status_zero) True = (ses', Some st')"
  proof -
    have "snd (pjmedia_rtp_session_update2 s h (Some st) c) \<noteq> None" for s h st c
      by (auto simp: pjmedia_rtp_session_update2_def Let_def split_def)
    then show thesis using that by (metis not_None_eq prod.collapse)
  qed
  moreover have "\<not> (True \<and> unat (hdr_pt (out_hdr demo_session)) \<noteq>
      unat (out_pt (demo_session\<lparr>has_peer_ssrc := True, peer_ssrc := 1\<rparr>)))"
    by code_simp
  ultimately show ?thesis using rtp_badssrc_lost by blast
qed

end
