(* ===== verification/Jbuf_Framelist.thy ===== *)
theory Jbuf_Framelist
  imports Prelude
begin

text \<open>
  The frame list of the jitter buffer (\<^verbatim>\<open>jb_framelist_t\<close> in \<^verbatim>\<open>pjmedia/src/pjmedia/jbuf.c\<close>): a
  circular buffer of frame slots, kept in parallel arrays, with the sequence number of its head. The
  arrays are functions of the slot; the invariant keeps every slot the code uses below
  \<^verbatim>\<open>max_count\<close>. The list refines the sequence of its slots from the head on (\<open>window\<close>), and every
  operation is proved to be the evident operation on that sequence.
\<close>

section \<open>Data\<close>

datatype jb_frame_type = MISSING_FRAME | NORMAL_FRAME | ZERO_PREFETCH_FRAME | ZERO_EMPTY_FRAME | DISCARDED_FRAME

record jb_framelist =
  fl_frame_size :: nat
  fl_max_count :: nat
  fl_content :: "nat \<Rightarrow> byte list"
  fl_type :: "nat \<Rightarrow> jb_frame_type"
  fl_content_len :: "nat \<Rightarrow> nat"
  fl_bit_info :: "nat \<Rightarrow> nat"
  fl_ts :: "nat \<Rightarrow> nat"
  fl_head :: nat
  fl_size :: nat
  fl_discarded_num :: nat
  fl_origin :: int

abbreviation (input) "INVALID_OFFSET \<equiv> (-9999 :: int)"

text \<open>\<^verbatim>\<open>0xFFFFFFFF / 9000\<close>\<close>

abbreviation (input) "MAX_FRAME_INDEX \<equiv> (477218 :: nat)"

section \<open>Operations\<close>

definition jb_framelist_reset :: "jb_framelist \<Rightarrow> jb_framelist" where
  "jb_framelist_reset fl =
     fl\<lparr>fl_head := 0, fl_origin := INVALID_OFFSET, fl_size := 0, fl_discarded_num := 0,
        fl_type := (\<lambda>i. if i < fl_max_count fl then MISSING_FRAME else fl_type fl i),
        fl_content_len := (\<lambda>i. if i < fl_max_count fl then 0 else fl_content_len fl i)\<rparr>"

text \<open>\<open>mem\<close> is the list whose arrays are the freshly allocated memory.\<close>

definition jb_framelist_init :: "jb_framelist \<Rightarrow> nat \<Rightarrow> nat \<Rightarrow> jb_framelist" where
  "jb_framelist_init mem frame_size max_count =
     jb_framelist_reset (mem\<lparr>fl_frame_size := frame_size, fl_max_count := max_count, fl_head := 0,
       fl_size := 0, fl_discarded_num := 0, fl_origin := 0\<rparr>)"

definition jb_framelist_size :: "jb_framelist \<Rightarrow> nat" where
  "jb_framelist_size fl = fl_size fl"

definition jb_framelist_eff_size :: "jb_framelist \<Rightarrow> nat" where
  "jb_framelist_eff_size fl = u32 (int (fl_size fl) - int (fl_discarded_num fl))"

definition jb_framelist_origin :: "jb_framelist \<Rightarrow> int" where
  "jb_framelist_origin fl = fl_origin fl"

text \<open>The number of discarded slots among the \<open>n\<close> slots from \<open>lo\<close> on.\<close>

definition discarded_in :: "jb_framelist \<Rightarrow> nat \<Rightarrow> nat \<Rightarrow> nat" where
  "discarded_in fl lo n = length (filter (\<lambda>i. fl_type fl i = DISCARDED_FRAME) [lo..<lo + n])"

text \<open>One of the two steps of \<^verbatim>\<open>jb_framelist_remove_head\<close>: counts, then clears, a run of slots.\<close>

definition clear_run :: "jb_framelist \<Rightarrow> nat \<Rightarrow> nat \<Rightarrow> jb_framelist" where
  "clear_run fl lo n =
     fl\<lparr>fl_discarded_num := u32 (int (fl_discarded_num fl) - int (discarded_in fl lo n)),
        fl_type := (\<lambda>i. if lo \<le> i \<and> i < lo + n then MISSING_FRAME else fl_type fl i),
        fl_content_len := (\<lambda>i. if lo \<le> i \<and> i < lo + n then 0 else fl_content_len fl i)\<rparr>"

definition jb_framelist_remove_head :: "jb_framelist \<Rightarrow> nat \<Rightarrow> nat \<times> jb_framelist" where
  "jb_framelist_remove_head fl count0 =
     (let count = (if count0 > fl_size fl then fl_size fl else count0)
      in if count \<noteq> 0 then
           let tmp = fl_head fl + count;
               step1 = (if tmp > fl_max_count fl then fl_max_count fl - fl_head fl else count);
               step2 = (if tmp > fl_max_count fl then count - step1 else 0);
               fl1 = clear_run fl (fl_head fl) step1;
               fl2 = (if step2 \<noteq> 0 then clear_run fl1 0 step2 else fl1)
           in (count, fl2\<lparr>fl_origin := fl_origin fl2 + int count,
                          fl_head := (fl_head fl2 + count) mod fl_max_count fl2,
                          fl_size := fl_size fl2 - count\<rparr>)
         else (count, fl))"

text \<open>The loop that skips discarded frames; it has no test of the size.\<close>

partial_function (option) skip_discarded :: "jb_framelist \<Rightarrow> bool \<Rightarrow> (jb_framelist \<times> bool) option" where
  "skip_discarded fl prev_discarded =
     (if fl_type fl (fl_head fl) = DISCARDED_FRAME
      then skip_discarded (snd (jb_framelist_remove_head fl 1)) True
      else Some (fl, prev_discarded))"

text \<open>
  What \<^verbatim>\<open>jb_framelist_get\<close> stores through its pointers. The caller's buffer holds \<^verbatim>\<open>max_size\<close> bytes
  (\<open>None\<close>: the size pointer is NULL, and the frame fits by contract); \<open>got_frame\<close> is what is copied.
\<close>

record jb_got =
  got_type :: jb_frame_type
  got_frame :: "byte list"
  got_bit_info :: nat
  got_ts :: nat
  got_seq :: int

definition jb_framelist_get :: "jb_framelist \<Rightarrow> nat option \<Rightarrow> (jb_framelist \<times> jb_got option) option" where
  "jb_framelist_get fl max_size =
     (if fl_size fl \<noteq> 0 then
        case skip_discarded fl False of
          None \<Rightarrow> None
        | Some (fl1, prev_discarded) \<Rightarrow>
            if fl_size fl1 \<noteq> 0 then
              let h = fl_head fl1;
                  frm_size = fl_content_len fl1 h;
                  copy_size = PJ_MIN (case max_size of Some n \<Rightarrow> n | None \<Rightarrow> frm_size) frm_size;
                  got = (if prev_discarded
                         then \<lparr>got_type = MISSING_FRAME, got_frame = [], got_bit_info = 0,
                               got_ts = fl_ts fl1 h, got_seq = fl_origin fl1\<rparr>
                         else \<lparr>got_type = fl_type fl1 h, got_frame = take copy_size (fl_content fl1 h),
                               got_bit_info = fl_bit_info fl1 h, got_ts = fl_ts fl1 h,
                               got_seq = fl_origin fl1\<rparr>)
              in Some (fl1\<lparr>fl_type := (fl_type fl1)(h := MISSING_FRAME),
                           fl_content_len := (fl_content_len fl1)(h := 0),
                           fl_bit_info := (fl_bit_info fl1)(h := 0), fl_ts := (fl_ts fl1)(h := 0),
                           fl_origin := fl_origin fl1 + 1, fl_head := (h + 1) mod fl_max_count fl1,
                           fl_size := fl_size fl1 - 1\<rparr>, Some got)
            else Some (fl1, None)
      else Some (fl, None))"

partial_function (option) peek_pos :: "jb_framelist \<Rightarrow> nat \<Rightarrow> nat \<Rightarrow> nat option" where
  "peek_pos fl pos idx =
     (if fl_type fl pos \<noteq> DISCARDED_FRAME then
        if idx = 0 then Some pos else peek_pos fl ((pos + 1) mod fl_max_count fl) (idx - 1)
      else peek_pos fl ((pos + 1) mod fl_max_count fl) idx)"

definition jb_framelist_peek :: "jb_framelist \<Rightarrow> nat \<Rightarrow> jb_got option option" where
  "jb_framelist_peek fl offset =
     (if offset \<ge> jb_framelist_eff_size fl then Some None
      else case peek_pos fl (fl_head fl) offset of
        None \<Rightarrow> None
      | Some pos \<Rightarrow> Some (Some \<lparr>got_type = fl_type fl pos,
                               got_frame = take (fl_content_len fl pos) (fl_content fl pos),
                               got_bit_info = fl_bit_info fl pos, got_ts = fl_ts fl pos,
                               got_seq = fl_origin fl + int offset\<rparr>))"

text \<open>
  \<^verbatim>\<open>jb_framelist_put_at\<close>, block by block; a pair is the local \<^verbatim>\<open>distance\<close> and the list. First, a frame
  before the origin: a sequence restart or a far jump (the comparison with \<^verbatim>\<open>MAX_FRAME_INDEX\<close> is
  unsigned, and so is the subtraction that gives the new origin).
\<close>

definition put_back :: "jb_framelist \<Rightarrow> int \<Rightarrow> int \<times> jb_framelist" where
  "put_back fl index =
     (let distance = index - fl_origin fl
      in if distance < 0 then
           if u32 (fl_origin fl + int (fl_size fl)) \<ge> MAX_FRAME_INDEX
           then (int (fl_size fl), fl\<lparr>fl_origin := s32 (u32 (index - int (fl_size fl)))\<rparr>)
           else (0, (jb_framelist_reset fl)\<lparr>fl_origin := index\<rparr>)
         else (distance, fl))"

text \<open>An empty list takes its origin from the frame.\<close>

definition put_empty :: "int \<Rightarrow> int \<times> jb_framelist \<Rightarrow> int \<times> jb_framelist" where
  "put_empty index p = (if fl_size (snd p) = 0 then (0, (snd p)\<lparr>fl_origin := index\<rparr>) else p)"

text \<open>A frame beyond the capacity, when it was not rejected.\<close>

definition put_far :: "int \<Rightarrow> int \<times> jb_framelist \<Rightarrow> int \<times> jb_framelist" where
  "put_far index p =
     (if fst p \<ge> int (fl_max_count (snd p)) then (0, (jb_framelist_reset (snd p))\<lparr>fl_origin := index\<rparr>) else p)"

text \<open>Filling the slot; \<^verbatim>\<open>memcpy\<close> overwrites the first bytes of its content.\<close>

definition put_slot ::
  "jb_framelist \<Rightarrow> int \<Rightarrow> int \<Rightarrow> byte list \<Rightarrow> nat \<Rightarrow> nat \<Rightarrow> nat \<Rightarrow> jb_frame_type \<Rightarrow> pj_status_t \<times> jb_framelist" where
  "put_slot fl distance index frame frame_size bit_info ts frame_type =
     (let pos = nat ((int (fl_head fl) + distance) mod int (fl_max_count fl))
      in if fl_type fl pos \<noteq> MISSING_FRAME then (PJ_EEXISTS, fl)
      else let fl1 = fl\<lparr>fl_type := (fl_type fl)(pos := frame_type),
                        fl_content_len := (fl_content_len fl)(pos := frame_size),
                        fl_bit_info := (fl_bit_info fl)(pos := bit_info),
                        fl_ts := (fl_ts fl)(pos := ts)\<rparr>;
               fl2 = (if fl_origin fl1 + int (fl_size fl1) \<le> index
                      then fl1\<lparr>fl_size := nat (distance + 1)\<rparr> else fl1);
               fl3 = (if frame_type = NORMAL_FRAME
                      then fl2\<lparr>fl_content := (fl_content fl2)(pos :=
                                 take frame_size frame @ drop frame_size (fl_content fl2 pos))\<rparr>
                      else fl2)
           in (PJ_SUCCESS, fl3))"

definition jb_framelist_put_at ::
  "jb_framelist \<Rightarrow> int \<Rightarrow> byte list \<Rightarrow> nat \<Rightarrow> nat \<Rightarrow> nat \<Rightarrow> jb_frame_type \<Rightarrow> pj_status_t \<times> jb_framelist" where
  "jb_framelist_put_at fl index frame frame_size bit_info ts frame_type =
     (if \<not> frame_size \<le> fl_frame_size fl then (PJ_EINVAL, fl)
      else if index - fl_origin fl < 0 \<and> fl_origin fl - index < 100 then (PJ_ETOOSMALL, fl)
      else let (distance, fl1) = put_empty index (put_back fl index)
      in if distance \<ge> int (fl_max_count fl1) \<and> \<not> distance > 3000 then (PJ_ETOOMANY, fl1)
      else let (distance', fl2) = put_far index (distance, fl1)
           in put_slot fl2 distance' index frame frame_size bit_info ts frame_type)"

definition jb_framelist_discard :: "jb_framelist \<Rightarrow> int \<Rightarrow> pj_status_t \<times> jb_framelist" where
  "jb_framelist_discard fl index =
     (if \<not> (index \<ge> fl_origin fl \<and> index < fl_origin fl + int (fl_size fl)) then (PJ_EINVAL, fl)
      else let pos = (fl_head fl + nat (index - fl_origin fl)) mod fl_max_count fl
           in (PJ_SUCCESS, fl\<lparr>fl_type := (fl_type fl)(pos := DISCARDED_FRAME),
                              fl_discarded_num := fl_discarded_num fl + 1\<rparr>))"

section \<open>The sequence of slots\<close>

declare skip_discarded.simps [code] peek_pos.simps [code]

datatype jslot = Missing | Discarded | Frame "byte list" nat nat

definition slot_at :: "jb_framelist \<Rightarrow> nat \<Rightarrow> jslot" where
  "slot_at fl pos =
     (case fl_type fl pos of
        MISSING_FRAME \<Rightarrow> Missing
      | DISCARDED_FRAME \<Rightarrow> Discarded
      | _ \<Rightarrow> Frame (take (fl_content_len fl pos) (fl_content fl pos)) (fl_bit_info fl pos) (fl_ts fl pos))"

definition ring :: "jb_framelist \<Rightarrow> nat \<Rightarrow> nat" where
  "ring fl i = (fl_head fl + i) mod fl_max_count fl"

definition window :: "jb_framelist \<Rightarrow> jslot list" where
  "window fl = map (\<lambda>i. slot_at fl (ring fl i)) [0..<fl_size fl]"

definition discards :: "jslot list \<Rightarrow> nat" where
  "discards w = length (filter (\<lambda>s. s = Discarded) w)"

definition fl_inv :: "jb_framelist \<Rightarrow> bool" where
  "fl_inv fl \<longleftrightarrow> 0 < fl_max_count fl \<and> fl_max_count fl < 2 ^ 31 \<and> fl_head fl < fl_max_count fl \<and>
     fl_size fl \<le> fl_max_count fl \<and> fl_discarded_num fl = discards (window fl) \<and>
     (\<forall>i<fl_max_count fl. fl_type fl i \<in> {MISSING_FRAME, NORMAL_FRAME, DISCARDED_FRAME}) \<and>
     (\<forall>i. fl_size fl \<le> i \<and> i < fl_max_count fl \<longrightarrow> fl_type fl (ring fl i) = MISSING_FRAME) \<and>
     (\<forall>i<fl_max_count fl. fl_content_len fl i \<le> fl_frame_size fl) \<and>
     (\<forall>i<fl_max_count fl. fl_type fl i = MISSING_FRAME \<longrightarrow> fl_content_len fl i = 0)"

lemma fl_invI:
  assumes "0 < fl_max_count fl" and "fl_max_count fl < 2 ^ 31" and "fl_head fl < fl_max_count fl"
    and "fl_size fl \<le> fl_max_count fl" and "fl_discarded_num fl = discards (window fl)"
    and "\<And>i. fl_size fl \<le> i \<Longrightarrow> i < fl_max_count fl \<Longrightarrow> fl_type fl (ring fl i) = MISSING_FRAME"
    and "\<And>p. p < fl_max_count fl \<Longrightarrow> fl_type fl p \<in> {MISSING_FRAME, NORMAL_FRAME, DISCARDED_FRAME} \<and>
      fl_content_len fl p \<le> fl_frame_size fl \<and> (fl_type fl p = MISSING_FRAME \<longrightarrow> fl_content_len fl p = 0)"
  shows "fl_inv fl"
  using assms by (simp add: fl_inv_def)

lemma fl_inv_slots:
  "fl_inv fl \<Longrightarrow> p < fl_max_count fl \<Longrightarrow> fl_type fl p \<in> {MISSING_FRAME, NORMAL_FRAME, DISCARDED_FRAME} \<and>
      fl_content_len fl p \<le> fl_frame_size fl \<and> (fl_type fl p = MISSING_FRAME \<longrightarrow> fl_content_len fl p = 0)"
  by (simp add: fl_inv_def)

lemma window_length [simp]: "length (window fl) = fl_size fl"
  by (simp add: window_def)

lemma window_nth [simp]: "i < fl_size fl \<Longrightarrow> window fl ! i = slot_at fl (ring fl i)"
  by (simp add: window_def)

lemma ring_less [simp]: "0 < fl_max_count fl \<Longrightarrow> ring fl i < fl_max_count fl"
  by (simp add: ring_def)

lemma ring_if:
  assumes "fl_head fl < fl_max_count fl" and "i \<le> fl_max_count fl"
  shows "ring fl i = (if fl_head fl + i < fl_max_count fl then fl_head fl + i else fl_head fl + i - fl_max_count fl)"
  using assms by (simp add: ring_def mod_if)

lemma ring_inj:
  assumes "fl_head fl < fl_max_count fl" and "i < fl_max_count fl" and "j < fl_max_count fl"
  shows "ring fl i = ring fl j \<longleftrightarrow> i = j"
  using assms ring_if[of fl i] ring_if[of fl j] by (simp split: if_splits) linarith

lemma ring_surj:
  assumes "fl_head fl < fl_max_count fl" and "p < fl_max_count fl"
  obtains i where "i < fl_max_count fl" and "ring fl i = p"
proof (cases "fl_head fl \<le> p")
  case True
  with assms show thesis by (intro that[of "p - fl_head fl"]) (auto simp: ring_if)
next
  case False
  with assms show thesis by (intro that[of "p + fl_max_count fl - fl_head fl"]) (auto simp: ring_if)
qed

lemma slot_discarded [simp]: "slot_at fl p = Discarded \<longleftrightarrow> fl_type fl p = DISCARDED_FRAME"
  by (simp add: slot_at_def split: jb_frame_type.split)

lemma slot_missing [simp]: "slot_at fl p = Missing \<longleftrightarrow> fl_type fl p = MISSING_FRAME"
  by (simp add: slot_at_def split: jb_frame_type.split)

lemma discards_le: "discards w \<le> length w"
  by (simp add: discards_def)

lemma discards_simps [simp]:
  "discards [] = 0" "discards (x # xs) = (if x = Discarded then 1 else 0) + discards xs"
  "discards (xs @ ys) = discards xs + discards ys"
  by (simp_all add: discards_def)

lemma eff_size: "fl_inv fl \<Longrightarrow> jb_framelist_eff_size fl = fl_size fl - discards (window fl)"
  using discards_le[of "window fl"]
  by (simp add: jb_framelist_eff_size_def fl_inv_def nat_diff_distrib)

text \<open>A list with the same window: the fields the invariant and the window depend on.\<close>

lemma slot_at_cong:
  "fl_type fl' p = fl_type fl p \<Longrightarrow> fl_content_len fl' p = fl_content_len fl p \<Longrightarrow>
   fl_content fl' p = fl_content fl p \<Longrightarrow> fl_bit_info fl' p = fl_bit_info fl p \<Longrightarrow> fl_ts fl' p = fl_ts fl p \<Longrightarrow>
   slot_at fl' p = slot_at fl p"
  by (simp add: slot_at_def split: jb_frame_type.split)

section \<open>Removing from the head\<close>

text \<open>The slots the two steps clear are the first \<open>count\<close> slots of the window.\<close>

definition step_one :: "jb_framelist \<Rightarrow> nat \<Rightarrow> nat" where
  "step_one fl c = (if fl_head fl + c > fl_max_count fl then fl_max_count fl - fl_head fl else c)"

definition step_two :: "jb_framelist \<Rightarrow> nat \<Rightarrow> nat" where
  "step_two fl c = (if fl_head fl + c > fl_max_count fl then c - (fl_max_count fl - fl_head fl) else 0)"

lemma cleared_ring:
  assumes "fl_head fl < fl_max_count fl" and "c \<le> fl_max_count fl" and "i < fl_max_count fl"
  shows "(fl_head fl \<le> ring fl i \<and> ring fl i < fl_head fl + step_one fl c) \<or> ring fl i < step_two fl c
    \<longleftrightarrow> i < c"
  using assms ring_if[of fl i] by (auto simp: step_one_def step_two_def)

lemma run_map:
  assumes "fl_head fl < fl_max_count fl" and "c \<le> fl_max_count fl"
  shows "[fl_head fl..<fl_head fl + step_one fl c] = map (ring fl) [0..<step_one fl c]"
    and "[0..<step_two fl c] = map (ring fl) [step_one fl c..<c]"
proof -
  show "[fl_head fl..<fl_head fl + step_one fl c] = map (ring fl) [0..<step_one fl c]"
    using assms by (intro nth_equalityI) (auto simp: step_one_def ring_if split: if_splits)
  show "[0..<step_two fl c] = map (ring fl) [step_one fl c..<c]"
    using assms by (intro nth_equalityI) (auto simp: step_one_def step_two_def ring_if split: if_splits)
qed

lemma discarded_prefix:
  assumes "fl_inv fl" and "c \<le> fl_size fl"
  shows "discarded_in fl (fl_head fl) (step_one fl c) + discarded_in fl 0 (step_two fl c)
    = discards (take c (window fl))"
proof -
  have a: "fl_head fl < fl_max_count fl" "c \<le> fl_max_count fl" using assms by (auto simp: fl_inv_def)
  have le: "step_one fl c \<le> c" using a by (auto simp: step_one_def)
  have "[0..<c] = [0..<step_one fl c] @ [step_one fl c..<c]"
    using upt_add_eq_append[of 0 "step_one fl c" "c - step_one fl c"] le by simp
  then have "take c (window fl) = map (\<lambda>i. slot_at fl (ring fl i)) ([0..<step_one fl c] @ [step_one fl c..<c])"
    using assms(2) by (simp add: window_def take_map del: map_append)
  then have "discards (take c (window fl)) =
      discards (map (slot_at fl) (map (ring fl) [0..<step_one fl c])) +
      discards (map (slot_at fl) (map (ring fl) [step_one fl c..<c]))"
    by (simp add: comp_def)
  also have "\<dots> = discards (map (slot_at fl) [fl_head fl..<fl_head fl + step_one fl c]) +
      discards (map (slot_at fl) [0..<step_two fl c])"
    by (simp only: run_map[OF a])
  finally show ?thesis
    by (simp add: discards_def discarded_in_def filter_map comp_def)
qed

lemma remove_head_clears:
  assumes "fl_inv fl" and "c = min count (fl_size fl)"
  shows "\<exists>fl'. jb_framelist_remove_head fl count = (c, fl') \<and> fl_max_count fl' = fl_max_count fl \<and>
    fl_frame_size fl' = fl_frame_size fl \<and> fl_origin fl' = fl_origin fl + int c \<and>
    fl_size fl' = fl_size fl - c \<and> fl_head fl' = ring fl c \<and>
    fl_discarded_num fl' = fl_discarded_num fl - discards (take c (window fl)) \<and>
    fl_content fl' = fl_content fl \<and> fl_bit_info fl' = fl_bit_info fl \<and> fl_ts fl' = fl_ts fl \<and>
    (\<forall>i<fl_max_count fl. fl_type fl' (ring fl i) = (if i < c then MISSING_FRAME else fl_type fl (ring fl i)) \<and>
       fl_content_len fl' (ring fl i) = (if i < c then 0 else fl_content_len fl (ring fl i)))"
proof (cases "c = 0")
  case True
  then have "jb_framelist_remove_head fl count = (0, fl)"
    using assms(2) by (auto simp: jb_framelist_remove_head_def Let_def)
  then show ?thesis using True assms(1) by (simp add: ring_def fl_inv_def)
next
  case False
  have a: "fl_head fl < fl_max_count fl" "c \<le> fl_size fl" "c \<le> fl_max_count fl"
    using assms by (auto simp: fl_inv_def)
  have cc: "(if count > fl_size fl then fl_size fl else count) = c" using assms(2) by simp
  let ?f1 = "clear_run fl (fl_head fl) (step_one fl c)"
  let ?f2 = "if step_two fl c \<noteq> 0 then clear_run ?f1 0 (step_two fl c) else ?f1"
  have r: "jb_framelist_remove_head fl count = (c, ?f2\<lparr>fl_origin := fl_origin ?f2 + int c,
      fl_head := (fl_head ?f2 + c) mod fl_max_count ?f2, fl_size := fl_size ?f2 - c\<rparr>)"
    using False unfolding jb_framelist_remove_head_def Let_def cc
    by (simp add: step_one_def step_two_def)
  have d: "fl_discarded_num fl = discards (window fl)" "fl_discarded_num fl < 4294967296"
    using assms(1) discards_le[of "window fl"] by (auto simp: fl_inv_def)
  have "step_two fl c \<le> fl_head fl" using a by (auto simp: step_two_def)
  then have d2: "discarded_in ?f1 0 (step_two fl c) = discarded_in fl 0 (step_two fl c)"
    unfolding discarded_in_def by (intro arg_cong[of _ _ length] filter_cong) (auto simp: clear_run_def)
  have sum: "discarded_in fl (fl_head fl) (step_one fl c) + discarded_in fl 0 (step_two fl c)
      = discards (take c (window fl))"
    by (rule discarded_prefix[OF assms(1) a(2)])
  have le: "discards (take c (window fl)) \<le> discards (window fl)"
    by (metis append_take_drop_id discards_simps(3) le_add1)
  have "fl_discarded_num ?f2 = fl_discarded_num fl - discards (take c (window fl))"
  proof (cases "step_two fl c = 0")
    case True
    then show ?thesis
      using sum le d by (simp add: clear_run_def nat_diff_distrib discarded_in_def)
  next
    case False
    have "fl_discarded_num ?f1 = fl_discarded_num fl - discarded_in fl (fl_head fl) (step_one fl c)"
      using sum le d by (simp add: clear_run_def nat_diff_distrib)
    moreover have "fl_discarded_num ?f2 = u32 (int (fl_discarded_num ?f1) - int (discarded_in fl 0 (step_two fl c)))"
      using False d2 by (simp add: clear_run_def)
    ultimately show ?thesis using sum le d by (simp add: nat_diff_distrib)
  qed
  moreover have "fl_type ?f2 (ring fl i) = (if i < c then MISSING_FRAME else fl_type fl (ring fl i))"
    "fl_content_len ?f2 (ring fl i) = (if i < c then 0 else fl_content_len fl (ring fl i))"
    if "i < fl_max_count fl" for i
    using cleared_ring[OF a(1,3) that] by (auto simp: clear_run_def)
  ultimately show ?thesis unfolding r by (simp add: ring_def clear_run_def)
qed

lemma ring_shift:
  assumes "fl_head fl' = ring fl c" and "fl_max_count fl' = fl_max_count fl"
  shows "ring fl' i = ring fl (c + i)"
  using assms by (simp add: ring_def mod_add_left_eq add.assoc)

lemma remove_head_refines:
  assumes "fl_inv fl" and "c = min count (fl_size fl)"
  shows "\<exists>fl'. jb_framelist_remove_head fl count = (c, fl') \<and> fl_inv fl' \<and> window fl' = drop c (window fl) \<and>
    fl_origin fl' = fl_origin fl + int c \<and> fl_max_count fl' = fl_max_count fl \<and>
    fl_frame_size fl' = fl_frame_size fl"
proof -
  obtain fl' where r: "jb_framelist_remove_head fl count = (c, fl')"
    and f: "fl_max_count fl' = fl_max_count fl" "fl_frame_size fl' = fl_frame_size fl"
      "fl_origin fl' = fl_origin fl + int c" "fl_size fl' = fl_size fl - c" "fl_head fl' = ring fl c"
      "fl_discarded_num fl' = fl_discarded_num fl - discards (take c (window fl))"
      "fl_content fl' = fl_content fl" "fl_bit_info fl' = fl_bit_info fl" "fl_ts fl' = fl_ts fl"
    and ty: "\<And>i. i < fl_max_count fl \<Longrightarrow> fl_type fl' (ring fl i) = (if i < c then MISSING_FRAME else fl_type fl (ring fl i))"
    and ln: "\<And>i. i < fl_max_count fl \<Longrightarrow> fl_content_len fl' (ring fl i) = (if i < c then 0 else fl_content_len fl (ring fl i))"
    using remove_head_clears[OF assms] by metis
  have inv: "0 < fl_max_count fl" "fl_head fl < fl_max_count fl" "fl_size fl \<le> fl_max_count fl"
    "fl_discarded_num fl = discards (window fl)"
    "\<And>i. fl_size fl \<le> i \<Longrightarrow> i < fl_max_count fl \<Longrightarrow> fl_type fl (ring fl i) = MISSING_FRAME"
    and pt: "\<And>p. p < fl_max_count fl \<Longrightarrow> fl_type fl p \<in> {MISSING_FRAME, NORMAL_FRAME, DISCARDED_FRAME} \<and>
      fl_content_len fl p \<le> fl_frame_size fl \<and> (fl_type fl p = MISSING_FRAME \<longrightarrow> fl_content_len fl p = 0)"
    using assms(1) by (auto simp: fl_inv_def)
  have c: "c \<le> fl_size fl" using assms(2) by simp
  note sh = ring_shift[OF f(5,1)]
  have w: "window fl' = drop c (window fl)"
  proof (rule nth_equalityI)
    fix i assume "i < length (window fl')"
    then have i: "i < fl_size fl - c" using f(4) by simp
    then have "c + i < fl_max_count fl" using inv(3) by simp
    then have "slot_at fl' (ring fl (c + i)) = slot_at fl (ring fl (c + i))"
      by (intro slot_at_cong) (simp_all add: ty ln f)
    then show "window fl' ! i = drop c (window fl) ! i" using i f(4) c by (simp add: sh)
  qed (simp add: f(4))
  have "fl_discarded_num fl' = discards (window fl')"
    unfolding f(6) inv(4) w by (metis append_take_drop_id diff_add_inverse discards_simps(3))
  moreover have "fl_type fl' p \<in> {MISSING_FRAME, NORMAL_FRAME, DISCARDED_FRAME} \<and>
      fl_content_len fl' p \<le> fl_frame_size fl \<and> (fl_type fl' p = MISSING_FRAME \<longrightarrow> fl_content_len fl' p = 0)"
    if p: "p < fl_max_count fl" for p
  proof -
    obtain i where "i < fl_max_count fl" "p = ring fl i" using ring_surj[OF inv(2) p] by metis
    then show ?thesis using ty[of i] ln[of i] pt[OF p] by auto
  qed
  moreover have "fl_type fl' (ring fl' i) = MISSING_FRAME" if "fl_size fl' \<le> i" "i < fl_max_count fl'" for i
  proof (cases "c + i < fl_max_count fl")
    case True
    then show ?thesis using ty[OF True] that inv(5)[of "c + i"] f(4) by (simp add: sh)
  next
    case False
    then have "c + i - fl_max_count fl < c" "c + i - fl_max_count fl < fl_max_count fl"
      using that f(1) c inv(3) by auto
    moreover have "ring fl (c + i) = ring fl (c + i - fl_max_count fl)"
      using False unfolding ring_def by (metis Nat.add_diff_assoc mod_add_self2 not_less le_add_diff_inverse2 add.assoc)
    ultimately show ?thesis using ty[of "c + i - fl_max_count fl"] by (simp add: sh)
  qed
  ultimately have "fl_inv fl'"
    using inv assms(1) f by (simp add: fl_inv_def)
  then show ?thesis using r w f by blast
qed

section \<open>Discarding and getting\<close>

text \<open>One slot of the window changes.\<close>

lemma window_upd:
  assumes "fl_head fl < fl_max_count fl" and "fl_size fl \<le> fl_max_count fl"
    and "fl_head fl' = fl_head fl" and "fl_max_count fl' = fl_max_count fl" and "fl_size fl' = fl_size fl"
    and "d < fl_size fl"
    and "\<And>p. p \<noteq> ring fl d \<Longrightarrow> slot_at fl' p = slot_at fl p"
  shows "window fl' = (window fl)[d := slot_at fl' (ring fl d)]"
proof (rule nth_equalityI)
  fix i assume "i < length (window fl')"
  then have i: "i < fl_size fl" using assms(5) by simp
  have ri: "ring fl' i = ring fl i" using assms(3,4) by (simp add: ring_def)
  show "window fl' ! i = (window fl)[d := slot_at fl' (ring fl d)] ! i"
  proof (cases "i = d")
    case False
    then have "ring fl i \<noteq> ring fl d" using i assms(1,2,6) by (simp add: ring_inj)
    then show ?thesis using False i assms(5,7) ri by simp
  qed (use i assms(5,6) ri in simp)
qed (simp add: assms(5))

lemma discards_upd:
  "d < length w \<Longrightarrow> discards (w[d := s]) + (if w ! d = Discarded then 1 else 0) = discards w + (if s = Discarded then 1 else 0)"
proof (induction w arbitrary: d)
  case (Cons x w)
  show ?case
  proof (cases d)
    case (Suc e)
    then show ?thesis using Cons.IH[of e] Cons.prems by (auto split: if_splits)
  qed simp
qed simp

lemma discard_refines:
  assumes "fl_inv fl" and "fl_origin fl \<le> index" and "index < fl_origin fl + int (fl_size fl)"
  defines "d \<equiv> nat (index - fl_origin fl)"
  assumes "window fl ! d \<noteq> Discarded"
  shows "\<exists>fl'. jb_framelist_discard fl index = (PJ_SUCCESS, fl') \<and> fl_inv fl' \<and>
    window fl' = (window fl)[d := Discarded] \<and> fl_origin fl' = fl_origin fl \<and>
    fl_max_count fl' = fl_max_count fl \<and> fl_frame_size fl' = fl_frame_size fl"
proof -
  have inv: "0 < fl_max_count fl" "fl_head fl < fl_max_count fl" "fl_size fl \<le> fl_max_count fl"
    using assms(1) by (auto simp: fl_inv_def)
  have d: "d < fl_size fl" using assms(2,3) by (simp add: d_def)
  define fl' where "fl' = fl\<lparr>fl_type := (fl_type fl)(ring fl d := DISCARDED_FRAME),
      fl_discarded_num := fl_discarded_num fl + 1\<rparr>"
  have r: "jb_framelist_discard fl index = (PJ_SUCCESS, fl')"
    using assms(2,3) by (simp add: jb_framelist_discard_def fl'_def d_def ring_def)
  have "slot_at fl' p = slot_at fl p" if "p \<noteq> ring fl d" for p
    using that by (intro slot_at_cong) (simp_all add: fl'_def)
  then have w: "window fl' = (window fl)[d := slot_at fl' (ring fl d)]"
    by (intro window_upd[OF inv(2,3) _ _ _ d]) (simp_all add: fl'_def)
  have sd: "slot_at fl' (ring fl d) = Discarded" by (simp add: fl'_def)
  have "fl_discarded_num fl' = discards (window fl')"
    using discards_upd[of d "window fl" Discarded] d assms(1,5) unfolding w sd by (simp add: fl'_def fl_inv_def)
  moreover have "fl_type fl' (ring fl' i) = MISSING_FRAME" if "fl_size fl' \<le> i" "i < fl_max_count fl'" for i
  proof -
    have i: "fl_size fl \<le> i" "i < fl_max_count fl" "ring fl' i = ring fl i" using that by (simp_all add: fl'_def ring_def)
    then have "ring fl i \<noteq> ring fl d" using d inv by (simp add: ring_inj)
    then show ?thesis using assms(1) i by (simp add: fl'_def fl_inv_def)
  qed
  moreover have "fl_type fl' p \<in> {MISSING_FRAME, NORMAL_FRAME, DISCARDED_FRAME} \<and>
      fl_content_len fl' p \<le> fl_frame_size fl' \<and> (fl_type fl' p = MISSING_FRAME \<longrightarrow> fl_content_len fl' p = 0)"
    if "p < fl_max_count fl'" for p
    using fl_inv_slots[OF assms(1), of p] that by (auto simp: fl'_def)
  moreover have "fl_max_count fl' = fl_max_count fl" "fl_head fl' = fl_head fl" "fl_size fl' = fl_size fl"
    "fl_max_count fl < 2 ^ 31"
    using assms(1) by (auto simp: fl'_def fl_inv_def)
  ultimately have "fl_inv fl'" using inv by (intro fl_invI) simp_all
  moreover have "fl_origin fl' = fl_origin fl" "fl_max_count fl' = fl_max_count fl"
    "fl_frame_size fl' = fl_frame_size fl" by (simp_all add: fl'_def)
  ultimately show ?thesis using r w[unfolded sd] by blast
qed

definition skipped :: "jslot list \<Rightarrow> nat" where
  "skipped w = length (takeWhile (\<lambda>s. s = Discarded) w)"

lemma skipped_le: "skipped w \<le> length w"
  by (simp add: skipped_def length_takeWhile_le)

lemma skipped_drop: "dropWhile (\<lambda>s. s = Discarded) w = drop (skipped w) w"
  by (simp add: skipped_def dropWhile_eq_drop)

lemma skip_discarded_refines:
  "fl_inv fl \<Longrightarrow> \<exists>fl'. skip_discarded fl b = Some (fl', b \<or> 0 < skipped (window fl)) \<and> fl_inv fl' \<and>
    window fl' = drop (skipped (window fl)) (window fl) \<and>
    fl_origin fl' = fl_origin fl + int (skipped (window fl)) \<and> fl_max_count fl' = fl_max_count fl \<and>
    fl_frame_size fl' = fl_frame_size fl"
proof (induction "fl_size fl" arbitrary: fl b)
  case 0
  then have "fl_type fl (ring fl 0) = MISSING_FRAME" by (simp add: fl_inv_def)
  then have "fl_type fl (fl_head fl) = MISSING_FRAME" using 0 by (simp add: ring_def fl_inv_def)
  moreover have "window fl = []" using 0 by (simp add: window_def)
  ultimately show ?case using 0 by (subst skip_discarded.simps) (simp add: skipped_def)
next
  case (Suc n)
  have h: "ring fl 0 = fl_head fl" using Suc.prems by (simp add: ring_def fl_inv_def)
  have "window fl \<noteq> []" using Suc.hyps(2) by (metis Zero_not_Suc length_0_conv window_length)
  then have ne: "window fl = slot_at fl (fl_head fl) # tl (window fl)"
    using Suc.hyps(2) h window_nth[of 0 fl] by (cases "window fl") auto
  show ?case
  proof (cases "fl_type fl (fl_head fl) = DISCARDED_FRAME")
    case False
    then have "skipped (window fl) = 0" by (subst ne) (simp add: skipped_def)
    then show ?thesis using False Suc.prems by (subst skip_discarded.simps) simp
  next
    case True
    obtain f where f: "jb_framelist_remove_head fl 1 = (1, f)" "fl_inv f" "window f = drop 1 (window fl)"
      "fl_origin f = fl_origin fl + 1" "fl_max_count f = fl_max_count fl" "fl_frame_size f = fl_frame_size fl"
      using remove_head_refines[OF Suc.prems, of 1 1] Suc.hyps(2) by auto
    have "n = fl_size f" using arg_cong[OF f(3), of length] Suc.hyps(2) by simp
    from Suc.hyps(1)[OF this f(2), of True] obtain g where g: "skip_discarded f True = Some (g, True)" "fl_inv g"
      "window g = drop (skipped (window f)) (window f)" "fl_origin g = fl_origin f + int (skipped (window f))"
      "fl_max_count g = fl_max_count f" "fl_frame_size g = fl_frame_size f"
      by auto
    have k: "skipped (window fl) = Suc (skipped (window f))"
    proof -
      obtain ws where "window fl = Discarded # ws" using ne True by (metis slot_discarded)
      then show ?thesis using f(3) by (simp add: skipped_def)
    qed
    have "skip_discarded fl b = Some (g, True)" using True f(1) g(1) by (subst skip_discarded.simps) simp
    then show ?thesis using g f k by (simp add: add.commute)
  qed
qed

text \<open>What \<^verbatim>\<open>jb_framelist_get\<close> answers for the first slot that is not discarded.\<close>

definition got_of :: "nat option \<Rightarrow> jslot \<Rightarrow> jb_frame_type \<times> byte list" where
  "got_of max_size s =
     (case s of
        Frame bs _ _ \<Rightarrow> (NORMAL_FRAME, take (case max_size of Some n \<Rightarrow> n | None \<Rightarrow> length bs) bs)
      | _ \<Rightarrow> (MISSING_FRAME, []))"

lemma got_slot:
  assumes "fl_type fl p \<in> {MISSING_FRAME, NORMAL_FRAME}" and "fl_type fl p = MISSING_FRAME \<longrightarrow> fl_content_len fl p = 0"
  shows "got_of max_size (slot_at fl p) = (fl_type fl p, take (PJ_MIN (case max_size of Some n \<Rightarrow> n | None \<Rightarrow>
    fl_content_len fl p) (fl_content_len fl p)) (fl_content fl p))"
proof -
  have "take (min (length xs) n) xs = take n xs" for n and xs :: "byte list"
    by (cases "n \<le> length xs") simp_all
  then show ?thesis using assms by (auto simp: got_of_def slot_at_def split: option.split)
qed

lemma get_refines:
  assumes "fl_inv fl"
  defines "w \<equiv> window fl"
  defines "k \<equiv> skipped w"
  shows "\<exists>fl' got. jb_framelist_get fl max_size = Some (fl', got) \<and> fl_inv fl' \<and>
    fl_max_count fl' = fl_max_count fl \<and> fl_frame_size fl' = fl_frame_size fl \<and> window fl' = drop (k + 1) w \<and>
    fl_origin fl' = fl_origin fl + int (min (k + 1) (length w)) \<and>
    (if k = length w then got = None
     else \<exists>g. got = Some g \<and> got_seq g = fl_origin fl + int k \<and>
       (got_type g, got_frame g) = (if k = 0 then got_of max_size (hd w) else (MISSING_FRAME, [])))"
proof (cases "fl_size fl = 0")
  case True
  then have "w = []" by (simp add: w_def window_def)
  then show ?thesis using True assms(1) by (simp add: jb_framelist_get_def k_def skipped_def window_def)
next
  case False
  obtain f where f: "skip_discarded fl False = Some (f, 0 < k)" "fl_inv f" "window f = drop k w"
    "fl_origin f = fl_origin fl + int k" "fl_max_count f = fl_max_count fl" "fl_frame_size f = fl_frame_size fl"
    using skip_discarded_refines[OF assms(1), of False] by (auto simp: w_def k_def)
  have kl: "k \<le> length w" by (simp add: k_def skipped_le)
  show ?thesis
  proof (cases "fl_size f = 0")
    case True
    then have "k = length w" using f(3) kl by (metis drop_eq_Nil le_antisym length_0_conv window_length)
    then show ?thesis using True f False by (simp add: jb_framelist_get_def)
  next
    case ne: False
    have len: "fl_size f = length w - k" using arg_cong[OF f(3), of length] by simp
    then have kw: "k < length w" using ne by simp
    have inv: "0 < fl_max_count f" "fl_head f < fl_max_count f" "fl_size f \<le> fl_max_count f"
      using f(2) by (auto simp: fl_inv_def)
    let ?h = "fl_head f"
    have h: "ring f 0 = ?h" using inv by (simp add: ring_def)
    have s0: "slot_at f ?h = w ! k" using window_nth[of 0 f] ne h f(3) kw by simp
    have "w ! k \<noteq> Discarded"
      using kw nth_length_takeWhile[of "\<lambda>s. s = Discarded" w] by (simp add: k_def skipped_def)
    then have ty: "fl_type f ?h \<in> {MISSING_FRAME, NORMAL_FRAME}"
      and cl: "fl_type f ?h = MISSING_FRAME \<longrightarrow> fl_content_len f ?h = 0"
      using f(2) inv(2) s0 slot_discarded[of f ?h] unfolding fl_inv_def by auto
    define fl' where "fl' = f\<lparr>fl_type := (fl_type f)(?h := MISSING_FRAME),
        fl_content_len := (fl_content_len f)(?h := 0), fl_bit_info := (fl_bit_info f)(?h := 0),
        fl_ts := (fl_ts f)(?h := 0), fl_origin := fl_origin f + 1, fl_head := (?h + 1) mod fl_max_count f,
        fl_size := fl_size f - 1\<rparr>"
    have sh: "ring fl' i = ring f (Suc i)" for i
      by (simp add: ring_def fl'_def mod_add_left_eq mod_Suc_eq)
    have rne: "ring f (Suc i) \<noteq> ?h" if "Suc i < fl_max_count f" for i
      using that inv h ring_inj[of f "Suc i" 0] by simp
    have w': "window fl' = drop (k + 1) w"
    proof (rule nth_equalityI)
      show "length (window fl') = length (drop (k + 1) w)" using len by (simp add: fl'_def)
      fix i assume "i < length (window fl')"
      then have i: "Suc i < fl_size f" "i < fl_size fl'" by (simp_all add: fl'_def)
      then have "slot_at fl' (ring f (Suc i)) = slot_at f (ring f (Suc i))"
        using rne[of i] inv by (intro slot_at_cong) (simp_all add: fl'_def)
      also have "\<dots> = w ! (k + Suc i)" using window_nth[OF i(1)] f(3) kw by simp
      finally show "window fl' ! i = drop (k + 1) w ! i" using i kw len by (simp add: sh)
    qed
    have "discards (window fl') = discards (window f)"
      using \<open>w ! k \<noteq> Discarded\<close> kw unfolding w' f(3) by (simp add: Cons_nth_drop_Suc[symmetric])
    moreover have "fl_type fl' (ring fl' i) = MISSING_FRAME" if i: "fl_size fl' \<le> i" "i < fl_max_count fl'" for i
    proof (cases "Suc i < fl_max_count f")
      case True
      then have "fl_type f (ring f (Suc i)) = MISSING_FRAME" using f(2) i by (simp add: fl'_def fl_inv_def)
      then show ?thesis using rne[OF True] unfolding sh by (simp add: fl'_def)
    next
      case False
      then have "Suc i = fl_max_count f" using i by (simp add: fl'_def)
      then have "ring f (Suc i) = ?h" using inv by (simp add: ring_def)
      then show ?thesis unfolding sh by (simp add: fl'_def)
    qed
    moreover have "fl_type fl' p \<in> {MISSING_FRAME, NORMAL_FRAME, DISCARDED_FRAME} \<and>
        fl_content_len fl' p \<le> fl_frame_size fl' \<and> (fl_type fl' p = MISSING_FRAME \<longrightarrow> fl_content_len fl' p = 0)"
      if "p < fl_max_count fl'" for p
      using fl_inv_slots[OF f(2), of p] that by (auto simp: fl'_def)
    moreover have "fl_max_count fl' = fl_max_count f" "fl_head fl' < fl_max_count f" "fl_size fl' \<le> fl_max_count f"
      "fl_discarded_num fl' = discards (window f)" "fl_max_count f < 2 ^ 31"
      using f(2) inv by (auto simp: fl'_def fl_inv_def)
    ultimately have i': "fl_inv fl'" using inv by (intro fl_invI) simp_all
    have g: "jb_framelist_get fl max_size = Some (fl', Some (if 0 < k
         then \<lparr>got_type = MISSING_FRAME, got_frame = [], got_bit_info = 0, got_ts = fl_ts f ?h, got_seq = fl_origin f\<rparr>
         else \<lparr>got_type = fl_type f ?h, got_frame = take (PJ_MIN (case max_size of Some n \<Rightarrow> n | None \<Rightarrow>
                 fl_content_len f ?h) (fl_content_len f ?h)) (fl_content f ?h),
               got_bit_info = fl_bit_info f ?h, got_ts = fl_ts f ?h, got_seq = fl_origin f\<rparr>))"
      using False ne f(1) by (simp add: jb_framelist_get_def fl'_def Let_def)
    have "hd w = slot_at f ?h" if "k = 0" using s0 kw that by (simp add: hd_conv_nth)
    then have "\<exists>g. (got_type g, got_frame g) = (if k = 0 then got_of max_size (hd w) else (MISSING_FRAME, [])) \<and>
       got_seq g = fl_origin fl + int k \<and> jb_framelist_get fl max_size = Some (fl', Some g)"
      unfolding g using got_slot[OF ty cl, of max_size] f(4) by auto
    then show ?thesis
      using i' w' kw f by (auto simp: fl'_def)
  qed
qed

section \<open>Putting\<close>

text \<open>What \<^verbatim>\<open>jb_framelist_put_at\<close> does to the origin and the window.\<close>

definition place :: "nat \<Rightarrow> jslot \<Rightarrow> jslot list \<Rightarrow> jslot list" where
  "place d s w = (if d < length w then w[d := s] else w @ replicate (d - length w) Missing @ [s])"

definition put_spec :: "nat \<Rightarrow> int \<Rightarrow> jslot \<Rightarrow> int \<Rightarrow> jslot list \<Rightarrow> pj_status_t \<times> int \<times> jslot list" where
  "put_spec cap index s orig w =
     (let d = index - orig
      in if d < 0 \<and> orig - index < 100 then (PJ_ETOOSMALL, orig, w)
      else let (d1, o1, w1) =
             (if d < 0 then
                if u32 (orig + int (length w)) \<ge> MAX_FRAME_INDEX
                then (int (length w), index - int (length w), w) else (0, index, [])
              else (d, orig, w));
           (d2, o2) = (if w1 = [] then (0, index) else (d1, o1))
      in if d2 \<ge> int cap \<and> \<not> d2 > 3000 then (PJ_ETOOMANY, o2, w1)
      else let (d3, o3, w3) = (if d2 \<ge> int cap then (0, index, []) else (d2, o2, w1))
      in if nat d3 < length w3 \<and> w3 ! nat d3 \<noteq> Missing then (PJ_EEXISTS, o3, w3)
      else (PJ_SUCCESS, o3, place (nat d3) s w3))"

lemma origin_upd:
  "fl_inv fl \<Longrightarrow> fl_inv (fl\<lparr>fl_origin := x\<rparr>)" "window (fl\<lparr>fl_origin := x\<rparr>) = window fl"
proof -
  show w: "window (fl\<lparr>fl_origin := x\<rparr>) = window fl"
    by (simp add: window_def slot_at_def ring_def cong: jb_frame_type.case_cong)
  show "fl_inv fl \<Longrightarrow> fl_inv (fl\<lparr>fl_origin := x\<rparr>)"
    unfolding fl_inv_def w by (simp add: ring_def)
qed

lemma reset_refines:
  assumes "0 < fl_max_count fl" and "fl_max_count fl < 2 ^ 31"
  shows "fl_inv (jb_framelist_reset fl)" and "window (jb_framelist_reset fl) = []"
    and "fl_origin (jb_framelist_reset fl) = INVALID_OFFSET"
    and "fl_max_count (jb_framelist_reset fl) = fl_max_count fl"
    and "fl_frame_size (jb_framelist_reset fl) = fl_frame_size fl"
proof -
  show w: "window (jb_framelist_reset fl) = []" by (simp add: window_def jb_framelist_reset_def)
  show "fl_inv (jb_framelist_reset fl)"
    using assms unfolding fl_inv_def w by (simp add: jb_framelist_reset_def ring_def)
qed (simp_all add: jb_framelist_reset_def)

definition stored :: "jb_framelist \<Rightarrow> nat \<Rightarrow> byte list \<Rightarrow> nat \<Rightarrow> nat \<Rightarrow> nat \<Rightarrow> jb_framelist" where
  "stored fl d frame n bits ts =
     fl\<lparr>fl_type := (fl_type fl)(ring fl d := NORMAL_FRAME),
        fl_content_len := (fl_content_len fl)(ring fl d := n),
        fl_bit_info := (fl_bit_info fl)(ring fl d := bits), fl_ts := (fl_ts fl)(ring fl d := ts),
        fl_size := (if fl_size fl \<le> d then d + 1 else fl_size fl),
        fl_content := (fl_content fl)(ring fl d := take n frame @ drop n (fl_content fl (ring fl d)))\<rparr>"

lemma stored_refines:
  assumes "fl_inv fl" and "d < fl_max_count fl" and "n \<le> length frame" and "n \<le> fl_frame_size fl"
    and "fl_type fl (ring fl d) = MISSING_FRAME"
  shows "fl_inv (stored fl d frame n bits ts) \<and>
    window (stored fl d frame n bits ts) = place d (Frame (take n frame) bits ts) (window fl)"
proof -
  let ?f = "stored fl d frame n bits ts"
  have inv: "0 < fl_max_count fl" "fl_head fl < fl_max_count fl" "fl_size fl \<le> fl_max_count fl"
    and miss: "\<And>i. fl_size fl \<le> i \<Longrightarrow> i < fl_max_count fl \<Longrightarrow> fl_type fl (ring fl i) = MISSING_FRAME"
    using assms(1) by (auto simp: fl_inv_def)
  have r: "ring ?f = ring fl" by (simp add: ring_def stored_def fun_eq_iff)
  have other: "slot_at ?f p = slot_at fl p" if "p \<noteq> ring fl d" for p
    using that by (intro slot_at_cong) (simp_all add: stored_def)
  have new: "slot_at ?f (ring fl d) = Frame (take n frame) bits ts"
    using assms(3) by (simp add: slot_at_def stored_def)
  have sz: "fl_size ?f = (if fl_size fl \<le> d then d + 1 else fl_size fl)" by (simp add: stored_def)
  have w: "window ?f = place d (Frame (take n frame) bits ts) (window fl)"
  proof (rule nth_equalityI)
    show "length (window ?f) = length (place d (Frame (take n frame) bits ts) (window fl))"
      by (simp add: sz place_def)
    fix i assume "i < length (window ?f)"
    then have i: "i < fl_size ?f" "i < fl_max_count fl" using assms(2) inv(3) sz by (auto split: if_splits)
    have at: "window ?f ! i = slot_at ?f (ring fl i)" using i(1) by (simp add: r)
    show "window ?f ! i = place d (Frame (take n frame) bits ts) (window fl) ! i"
    proof (cases "i = d")
      case True
      then show ?thesis unfolding at using new by (simp add: place_def nth_append)
    next
      case False
      then have "slot_at ?f (ring fl i) = slot_at fl (ring fl i)"
        using other i(2) assms(2) inv(2) by (simp add: ring_inj)
      then show ?thesis
        unfolding at using False i(1) sz miss[of i] i(2)
        by (auto simp: place_def nth_append nth_Cons' split: if_splits)
    qed
  qed
  have "slot_at fl (ring fl d) = Missing" using assms(5) by simp
  then have "discards (place d (Frame (take n frame) bits ts) (window fl)) = discards (window fl)"
    using discards_upd[of d "window fl" "Frame (take n frame) bits ts"]
    by (auto simp: place_def discards_def split: if_splits)
  then have "fl_discarded_num ?f = discards (window ?f)"
    using assms(1) unfolding w by (simp add: stored_def fl_inv_def)
  moreover have "fl_type ?f (ring ?f i) = MISSING_FRAME" if "fl_size ?f \<le> i" "i < fl_max_count ?f" for i
  proof -
    have i: "fl_size fl \<le> i" "i < fl_max_count fl" "i \<noteq> d" using that by (auto simp: stored_def split: if_splits)
    then have "ring fl i \<noteq> ring fl d" using assms(2) inv(2) by (simp add: ring_inj)
    then show ?thesis unfolding r using miss[OF i(1,2)] by (simp add: stored_def)
  qed
  moreover have "fl_type ?f p \<in> {MISSING_FRAME, NORMAL_FRAME, DISCARDED_FRAME} \<and>
      fl_content_len ?f p \<le> fl_frame_size ?f \<and> (fl_type ?f p = MISSING_FRAME \<longrightarrow> fl_content_len ?f p = 0)"
    if "p < fl_max_count ?f" for p
    using fl_inv_slots[OF assms(1), of p] that assms(4) by (auto simp: stored_def)
  moreover have "fl_max_count ?f = fl_max_count fl" "fl_head ?f = fl_head fl" "fl_size ?f \<le> fl_max_count fl"
    "fl_max_count fl < 2 ^ 31"
    using assms(1,2) by (auto simp: stored_def fl_inv_def)
  ultimately have "fl_inv ?f" using inv by (intro fl_invI) simp_all
  then show ?thesis using w by blast
qed

lemma s32_u32_id: "- 2147483648 \<le> x \<Longrightarrow> x < 2147483648 \<Longrightarrow> s32 (u32 x) = x"
proof (cases "0 \<le> x")
  case False
  assume "- 2147483648 \<le> x"
  then have "(x + 4294967296) mod 4294967296 = x + 4294967296"
    using False by (intro mod_pos_pos_trivial) linarith+
  then have "u32 x = nat (x + 4294967296)" by (simp add: u32_def)
  then show ?thesis using False \<open>- 2147483648 \<le> x\<close> by (simp add: s32_def)
qed simp

lemma put_slot_refines:
  assumes "fl_inv fl" and "0 \<le> d" and "d < int (fl_max_count fl)" and "index = fl_origin fl + d"
    and "n \<le> length frame" and "n \<le> fl_frame_size fl"
  shows "\<exists>fl'. put_slot fl d index frame n bits ts NORMAL_FRAME =
      (if nat d < fl_size fl \<and> window fl ! nat d \<noteq> Missing then (PJ_EEXISTS, fl) else (PJ_SUCCESS, fl')) \<and>
    (\<not> (nat d < fl_size fl \<and> window fl ! nat d \<noteq> Missing) \<longrightarrow>
      fl_inv fl' \<and> window fl' = place (nat d) (Frame (take n frame) bits ts) (window fl) \<and>
      fl_origin fl' = fl_origin fl \<and> fl_max_count fl' = fl_max_count fl \<and> fl_frame_size fl' = fl_frame_size fl)"
proof -
  have dm: "nat d < fl_max_count fl" using assms(2,3) by linarith
  have pos: "nat ((int (fl_head fl) + d) mod int (fl_max_count fl)) = ring fl (nat d)"
    using assms(2) by (simp add: ring_def nat_mod_distrib nat_add_distrib)
  have free: "fl_type fl (ring fl (nat d)) \<noteq> MISSING_FRAME \<longleftrightarrow> nat d < fl_size fl \<and> window fl ! nat d \<noteq> Missing"
    using assms(1) dm unfolding fl_inv_def by (metis not_le slot_missing window_nth)
  have cond: "fl_origin fl + int (fl_size fl) \<le> index \<longleftrightarrow> fl_size fl \<le> nat d"
    using assms(2,4) by linarith
  show ?thesis
  proof (cases "fl_type fl (ring fl (nat d)) = MISSING_FRAME")
    case False
    then have "nat d < fl_size fl \<and> window fl ! nat d \<noteq> Missing" using free by blast
    then show ?thesis using False by (simp add: put_slot_def pos Let_def)
  next
    case True
    have "put_slot fl d index frame n bits ts NORMAL_FRAME = (PJ_SUCCESS, stored fl (nat d) frame n bits ts)"
      using True cond assms(2) by (simp add: put_slot_def pos Let_def stored_def nat_add_distrib)
    moreover have "fl_origin (stored fl (nat d) frame n bits ts) = fl_origin fl"
      "fl_max_count (stored fl (nat d) frame n bits ts) = fl_max_count fl"
      "fl_frame_size (stored fl (nat d) frame n bits ts) = fl_frame_size fl"
      by (simp_all add: stored_def)
    moreover have "\<not> (nat d < fl_size fl \<and> window fl ! nat d \<noteq> Missing)" using free True by blast
    ultimately show ?thesis
      using stored_refines[OF assms(1) dm assms(5,6) True, of bits ts] by (metis (full_types))
  qed
qed

definition agrees :: "int \<Rightarrow> nat \<Rightarrow> nat \<Rightarrow> int \<times> jb_framelist \<Rightarrow> int \<times> int \<times> jslot list \<Rightarrow> bool" where
  "agrees index cap fsz p q \<longleftrightarrow> fst p = fst q \<and> fl_origin (snd p) = fst (snd q) \<and> window (snd p) = snd (snd q) \<and>
     fl_inv (snd p) \<and> fl_max_count (snd p) = cap \<and> fl_frame_size (snd p) = fsz \<and> 0 \<le> fst p \<and>
     index = fl_origin (snd p) + fst p"

lemma put_back_agrees:
  assumes "fl_inv fl" and "0 \<le> index" and "index < 2 ^ 31"
  shows "agrees index (fl_max_count fl) (fl_frame_size fl) (put_back fl index)
    (if index - fl_origin fl < 0 then
       if u32 (fl_origin fl + int (length (window fl))) \<ge> MAX_FRAME_INDEX
       then (int (length (window fl)), index - int (length (window fl)), window fl) else (0, index, [])
     else (index - fl_origin fl, fl_origin fl, window fl))"
proof -
  have m: "0 < fl_max_count fl" "fl_max_count fl < 2 ^ 31" "fl_size fl \<le> fl_max_count fl"
    using assms(1) by (auto simp: fl_inv_def)
  have s: "s32 (u32 (index - int (fl_size fl))) = index - int (fl_size fl)"
  proof (rule s32_u32_id)
    have "index < 2147483648" "fl_max_count fl < 2147483648" using assms(3) m(2) by simp_all
    then show "- 2147483648 \<le> index - int (fl_size fl)" "index - int (fl_size fl) < 2147483648"
      using assms(2) m(3) by linarith+
  qed
  note R = reset_refines[OF m(1,2)]
  show ?thesis
    using assms(1) s R origin_upd(1)[OF assms(1)] origin_upd(1)[OF R(1)]
    by (auto simp: agrees_def put_back_def origin_upd(2) Let_def)
qed

lemma put_empty_agrees:
  assumes "agrees index cap fsz p (d, o1, w)"
  shows "agrees index cap fsz (put_empty index p) (if w = [] then (0, index, w) else (d, o1, w))"
proof -
  have "w = [] \<longleftrightarrow> fl_size (snd p) = 0" using assms by (metis agrees_def length_0_conv snd_conv window_length)
  then show ?thesis using assms origin_upd by (auto simp: agrees_def put_empty_def)
qed

lemma put_far_agrees:
  assumes "agrees index cap fsz p (d, o1, w)"
  shows "agrees index cap fsz (put_far index p) (if d \<ge> int cap then (0, index, []) else (d, o1, w))"
proof -
  have m: "0 < fl_max_count (snd p)" "fl_max_count (snd p) < 2 ^ 31"
    using assms by (auto simp: agrees_def fl_inv_def)
  note R = reset_refines[OF m]
  show ?thesis
    using assms R origin_upd(1)[OF R(1)] by (auto simp: agrees_def put_far_def origin_upd(2))
qed

lemma put_at_refines:
  assumes "fl_inv fl" and "n \<le> length frame" and "n \<le> fl_frame_size fl" and "0 \<le> index" and "index < 2 ^ 31"
  shows "\<exists>fl'. jb_framelist_put_at fl index frame n bits ts NORMAL_FRAME =
      (fst (put_spec (fl_max_count fl) index (Frame (take n frame) bits ts) (fl_origin fl) (window fl)), fl') \<and>
    (fl_origin fl', window fl') =
      snd (put_spec (fl_max_count fl) index (Frame (take n frame) bits ts) (fl_origin fl) (window fl)) \<and>
    fl_inv fl' \<and> fl_max_count fl' = fl_max_count fl \<and> fl_frame_size fl' = fl_frame_size fl"
proof (cases "index - fl_origin fl < 0 \<and> fl_origin fl - index < 100")
  case True
  then show ?thesis using assms(1,3) by (simp add: jb_framelist_put_at_def put_spec_def Let_def)
next
  case False
  let ?cap = "fl_max_count fl" and ?s = "Frame (take n frame) bits ts"
  obtain d1 o1 w1 where q1: "(if index - fl_origin fl < 0 then
       if u32 (fl_origin fl + int (length (window fl))) \<ge> MAX_FRAME_INDEX
       then (int (length (window fl)), index - int (length (window fl)), window fl) else (0, index, [])
     else (index - fl_origin fl, fl_origin fl, window fl)) = (d1, o1, w1)"
    by (metis prod_cases3)
  have a1: "agrees index ?cap (fl_frame_size fl) (put_back fl index) (d1, o1, w1)"
    using put_back_agrees[OF assms(1,4,5)] unfolding q1 .
  obtain d2 o2 where q2: "(if w1 = [] then (0, index, w1) else (d1, o1, w1)) = (d2, o2, w1)"
    by (cases "w1 = []") auto
  obtain p2 fl2 where p2: "put_empty index (put_back fl index) = (p2, fl2)" by fastforce
  have a2: "agrees index ?cap (fl_frame_size fl) (p2, fl2) (d2, o2, w1)"
    using put_empty_agrees[OF a1] unfolding q2 p2 .
  obtain d3 o3 w3 where q3: "(if d2 \<ge> int ?cap then (0, index, []) else (d2, o2, w1)) = (d3, o3, w3)"
    by (metis prod_cases3)
  obtain p3 fl3 where p3: "put_far index (p2, fl2) = (p3, fl3)" by fastforce
  have a3: "agrees index ?cap (fl_frame_size fl) (p3, fl3) (d3, o3, w3)"
    using put_far_agrees[OF a2] unfolding q3 p3 .
  have spec: "put_spec ?cap index ?s (fl_origin fl) (window fl) =
    (if d2 \<ge> int ?cap \<and> \<not> d2 > 3000 then (PJ_ETOOMANY, o2, w1)
     else if nat d3 < length w3 \<and> w3 ! nat d3 \<noteq> Missing then (PJ_EEXISTS, o3, w3)
     else (PJ_SUCCESS, o3, place (nat d3) ?s w3))"
  proof -
    have "(if w1 = [] then (0, index) else (d1, o1)) = (d2, o2)" using q2 by (auto split: if_splits)
    then show ?thesis unfolding put_spec_def Let_def if_not_P[OF False] q1 using q3 by simp
  qed
  have code: "jb_framelist_put_at fl index frame n bits ts NORMAL_FRAME =
    (if d2 \<ge> int ?cap \<and> \<not> d2 > 3000 then (PJ_ETOOMANY, fl2) else put_slot fl3 d3 index frame n bits ts NORMAL_FRAME)"
  proof -
    have "p2 = d2" "fl_max_count fl2 = ?cap" "p3 = d3" "\<not> \<not> n \<le> fl_frame_size fl"
      using a2 a3 assms(3) by (simp_all add: agrees_def)
    then show ?thesis
      unfolding jb_framelist_put_at_def if_not_P[OF False] p2 Let_def prod.case p3 by simp
  qed
  show ?thesis
  proof (cases "d2 \<ge> int ?cap \<and> \<not> d2 > 3000")
    case True
    then show ?thesis using a2 unfolding spec code by (auto simp: agrees_def)
  next
    case ok: False
    have f3: "fl_inv fl3" "0 \<le> d3" "index = fl_origin fl3 + d3" "fl_max_count fl3 = ?cap" "window fl3 = w3"
      "fl_frame_size fl3 = fl_frame_size fl" "fl_origin fl3 = o3"
      using a3 by (auto simp: agrees_def)
    have "0 < ?cap" using assms(1) by (simp add: fl_inv_def)
    then have "d3 < int (fl_max_count fl3)" using q3 f3(4) by (auto split: if_splits)
    from put_slot_refines[OF f3(1,2) this f3(3) assms(2), of bits ts] assms(3)
    obtain fl' where fl': "put_slot fl3 d3 index frame n bits ts NORMAL_FRAME =
        (if nat d3 < fl_size fl3 \<and> window fl3 ! nat d3 \<noteq> Missing then (PJ_EEXISTS, fl3) else (PJ_SUCCESS, fl'))"
      "\<not> (nat d3 < fl_size fl3 \<and> window fl3 ! nat d3 \<noteq> Missing) \<longrightarrow>
        fl_inv fl' \<and> window fl' = place (nat d3) ?s (window fl3) \<and>
        fl_origin fl' = fl_origin fl3 \<and> fl_max_count fl' = fl_max_count fl3 \<and> fl_frame_size fl' = fl_frame_size fl3"
      using f3(6) by auto
    have "fl_size fl3 = length w3" using f3(5) by (metis window_length)
    then show ?thesis
      using ok fl' f3 unfolding spec code
      by (cases "nat d3 < length w3 \<and> w3 ! nat d3 \<noteq> Missing") auto
  qed
qed

section \<open>Peeking\<close>

text \<open>The \<open>n\<close>-th slot of the window that is not discarded.\<close>

definition kept :: "jslot list \<Rightarrow> jslot list" where
  "kept w = filter (\<lambda>s. s \<noteq> Discarded) w"

lemma kept_length: "length (kept w) = length w - discards w"
  by (induction w) (auto simp: kept_def discards_def Suc_diff_le length_filter_le)

lemma peek_pos_kept:
  assumes "fl_inv fl"
  shows "i \<le> fl_size fl \<Longrightarrow> idx < length (kept (drop i (window fl))) \<Longrightarrow>
    \<exists>pos. peek_pos fl (ring fl i) idx = Some pos \<and> pos < fl_max_count fl \<and>
      slot_at fl pos = kept (drop i (window fl)) ! idx"
proof (induction "fl_size fl - i" arbitrary: i idx)
  case 0
  then show ?case by (simp add: kept_def)
next
  case (Suc m)
  have i: "i < fl_size fl" using Suc.hyps(2) by simp
  have d: "drop i (window fl) = slot_at fl (ring fl i) # drop (Suc i) (window fl)"
    using i by (simp add: Cons_nth_drop_Suc[symmetric])
  have nx: "(ring fl i + 1) mod fl_max_count fl = ring fl (Suc i)"
    by (simp add: ring_def mod_Suc_eq)
  have pos: "0 < fl_max_count fl" using assms by (simp add: fl_inv_def)
  show ?case
  proof (cases "slot_at fl (ring fl i) = Discarded")
    case True
    have k: "kept (drop i (window fl)) = kept (drop (Suc i) (window fl))" using True d by (simp add: kept_def)
    have "peek_pos fl (ring fl i) idx = peek_pos fl (ring fl (Suc i)) idx"
      using True nx by (subst peek_pos.simps) simp
    then show ?thesis using Suc.hyps(1)[of "Suc i" idx] Suc.hyps(2) Suc.prems i k by simp
  next
    case False
    have k: "kept (drop i (window fl)) = slot_at fl (ring fl i) # kept (drop (Suc i) (window fl))"
      using False d by (simp add: kept_def)
    show ?thesis
    proof (cases idx)
      case 0
      then have "peek_pos fl (ring fl i) idx = Some (ring fl i)"
        using False by (subst peek_pos.simps) simp
      then show ?thesis using 0 k pos by simp
    next
      case (Suc j)
      then have "peek_pos fl (ring fl i) idx = peek_pos fl (ring fl (Suc i)) j"
        using False nx by (subst peek_pos.simps) simp
      then show ?thesis using Suc.hyps(1)[of "Suc i" j] Suc.hyps(2) Suc.prems i k Suc by simp
    qed
  qed
qed

section \<open>The buffer as a service\<close>

text \<open>
  What the jitter buffer relies on: a window of slots with the number of its first one, that is cut
  from the front, and into which a numbered frame is put.
\<close>

locale frame_window =
  fixes inv :: "'s \<Rightarrow> bool" and win :: "'s \<Rightarrow> jslot list" and orig :: "'s \<Rightarrow> int"
    and cap :: "'s \<Rightarrow> nat" and fsize :: "'s \<Rightarrow> nat"
    and remove :: "'s \<Rightarrow> nat \<Rightarrow> nat \<times> 's"
    and put :: "'s \<Rightarrow> int \<Rightarrow> byte list \<Rightarrow> nat \<Rightarrow> nat \<Rightarrow> nat \<Rightarrow> pj_status_t \<times> 's"
  assumes within: "inv s \<Longrightarrow> length (win s) \<le> cap s \<and> 0 < cap s"
    and remove_law: "inv s \<Longrightarrow> c = min count (length (win s)) \<Longrightarrow>
      \<exists>s'. remove s count = (c, s') \<and> inv s' \<and> win s' = drop c (win s) \<and> orig s' = orig s + int c \<and>
        cap s' = cap s \<and> fsize s' = fsize s"
    and put_law: "inv s \<Longrightarrow> n \<le> length frame \<Longrightarrow> n \<le> fsize s \<Longrightarrow> 0 \<le> index \<Longrightarrow> index < 2 ^ 31 \<Longrightarrow>
      \<exists>s'. put s index frame n bits ts =
          (fst (put_spec (cap s) index (Frame (take n frame) bits ts) (orig s) (win s)), s') \<and>
        (orig s', win s') = snd (put_spec (cap s) index (Frame (take n frame) bits ts) (orig s) (win s)) \<and>
        inv s' \<and> cap s' = cap s \<and> fsize s' = fsize s"
begin

text \<open>
  A frame rejected because the buffer is full fits once \<open>d\<close> slots are removed, \<open>d\<close> being the distance
  by which it is out of range: one retry is enough.
\<close>

lemma full_distance:
  assumes "put_spec c index f o1 w = (PJ_ETOOMANY, o2, w2)" and "0 < c"
  shows "w2 = w \<and> w \<noteq> [] \<and> int c \<le> index - o2 \<and> index - o2 \<le> 3000"
  using assms by (auto simp: put_spec_def Let_def split: if_splits)

lemma put_in_reach:
  assumes "0 \<le> index - o1" and "index - o1 < int c" and "int (length w) \<le> index - o1" and "w \<noteq> []"
  shows "put_spec c index f o1 w = (PJ_SUCCESS, o1, place (nat (index - o1)) f w)"
proof -
  have "\<not> nat (index - o1) < length w" using assms(1,3) by linarith
  then show ?thesis using assms by (simp add: put_spec_def Let_def)
qed

lemma put_on_empty:
  assumes "0 < c" and "0 \<le> index - o1"
  shows "put_spec c index f o1 [] = (PJ_SUCCESS, index, [f])"
  using assms by (simp add: put_spec_def Let_def place_def)

lemma retry_succeeds:
  assumes "inv s" and "n \<le> length frame" and "n \<le> fsize s" and "0 \<le> index" and "index < 2 ^ 31"
    and "put s index frame n bits ts = (PJ_ETOOMANY, s1)"
    and "d = index - orig s1 - int (cap s1) + 1"
  shows "0 < d \<and> (\<exists>c s2 s3. remove s1 (nat d) = (c, s2) \<and> put s2 index frame n bits ts = (PJ_SUCCESS, s3) \<and>
    inv s1 \<and> inv s2 \<and> inv s3 \<and> cap s3 = cap s \<and> fsize s3 = fsize s \<and> 0 < c \<and> win s1 = win s \<and>
    win s2 = drop c (win s) \<and> orig s2 = orig s1 + int c \<and> cap s1 = cap s \<and> fsize s1 = fsize s \<and>
    cap s2 = cap s \<and> fsize s2 = fsize s \<and>
    win s3 \<noteq> [] \<and> last (win s3) = Frame (take n frame) bits ts \<and> orig s3 + int (length (win s3)) = index + 1)"
proof -
  let ?f = "Frame (take n frame) bits ts"
  obtain s' where p: "put s index frame n bits ts = (fst (put_spec (cap s) index ?f (orig s) (win s)), s')"
    "(orig s', win s') = snd (put_spec (cap s) index ?f (orig s) (win s))" "inv s'" "cap s' = cap s" "fsize s' = fsize s"
    using put_law[OF assms(1-5)] by blast
  then have "put_spec (cap s) index ?f (orig s) (win s) = (PJ_ETOOMANY, orig s1, win s1)" and s1: "s' = s1"
    using assms(6) by (metis Pair_inject prod.collapse)+
  have cpos: "0 < cap s" using within[OF assms(1)] by blast
  note F = full_distance[OF \<open>put_spec (cap s) index ?f (orig s) (win s) = (PJ_ETOOMANY, orig s1, win s1)\<close> cpos]
  have d: "0 < d" using assms(7) F p(4) s1 by simp
  define c where "c = min (nat d) (length (win s1))"
  have c: "0 < c" using d F by (simp add: c_def)
  obtain s2 where r: "remove s1 (nat d) = (c, s2)" "inv s2" "win s2 = drop c (win s1)"
    "orig s2 = orig s1 + int c" "cap s2 = cap s1" "fsize s2 = fsize s1"
    using remove_law[of s1 c "nat d"] p(3) s1 c_def by blast
  obtain s3 where q: "put s2 index frame n bits ts = (fst (put_spec (cap s2) index ?f (orig s2) (win s2)), s3)"
    "(orig s3, win s3) = snd (put_spec (cap s2) index ?f (orig s2) (win s2))" "inv s3" "cap s3 = cap s2" "fsize s3 = fsize s2"
    using put_law[OF r(2) assms(2) _ assms(4,5)] assms(3) r(6) p(5) s1 by fastforce
  have w: "length (win s1) \<le> cap s1" "0 < cap s1" using within p(3) s1 by auto
  have "put_spec (cap s2) index ?f (orig s2) (win s2) =
      (PJ_SUCCESS, if win s2 = [] then (index, [?f]) else (orig s2, place (nat (index - orig s2)) ?f (win s2)))"
  proof (cases "win s2 = []")
    case True
    have "c \<le> cap s1" using c_def w by simp
    then have "0 \<le> index - orig s2" using F r(4) p(4) s1 by simp
    then show ?thesis using True put_on_empty w r(5) by simp
  next
    case False
    then have "c = nat d" using r(3) c_def by (auto simp: min_def split: if_splits)
    then have "index - orig s2 = int (cap s1) - 1" using r(4) d assms(7) by simp
    then show ?thesis
      using False put_in_reach[of index "orig s2" "cap s2" "win s2" ?f] r(3,5) w c by simp
  qed
  moreover have "index - orig s2 = int (cap s1) - 1 \<and> length (win s2) \<le> cap s1 - 1" if "win s2 \<noteq> []"
  proof -
    have "c = nat d" using that r(3) c_def by (auto simp: min_def split: if_splits)
    then show ?thesis using r(3,4) d assms(7) w c by simp
  qed
  ultimately have "put s2 index frame n bits ts = (PJ_SUCCESS, s3) \<and> win s3 \<noteq> [] \<and> last (win s3) = ?f \<and>
      orig s3 + int (length (win s3)) = index + 1"
    using q(1,2) w by (cases "win s2 = []") (auto simp: place_def not_less)
  then show ?thesis using d r q p s1 c F by auto
qed

end

interpretation flist: frame_window fl_inv window fl_origin fl_max_count fl_frame_size jb_framelist_remove_head
  "\<lambda>fl index frame n bits ts. jb_framelist_put_at fl index frame n bits ts NORMAL_FRAME"
proof
  fix s :: jb_framelist and c count
  assume a: "fl_inv s"
  show "length (window s) \<le> fl_max_count s \<and> 0 < fl_max_count s" using a by (simp add: fl_inv_def)
  show "\<exists>s'. jb_framelist_remove_head s count = (c, s') \<and> fl_inv s' \<and> window s' = drop c (window s) \<and>
      fl_origin s' = fl_origin s + int c \<and> fl_max_count s' = fl_max_count s \<and> fl_frame_size s' = fl_frame_size s"
    if "c = min count (length (window s))"
    using remove_head_refines[OF a, of c count] that by simp
next
  fix s :: jb_framelist and n bits ts :: nat and frame :: "byte list" and index :: int
  assume "fl_inv s" "n \<le> length frame" "n \<le> fl_frame_size s" "0 \<le> index" "index < 2 ^ 31"
  then show "\<exists>s'. jb_framelist_put_at s index frame n bits ts NORMAL_FRAME =
        (fst (put_spec (fl_max_count s) index (Frame (take n frame) bits ts) (fl_origin s) (window s)), s') \<and>
      (fl_origin s', window s') = snd (put_spec (fl_max_count s) index (Frame (take n frame) bits ts) (fl_origin s) (window s)) \<and>
      fl_inv s' \<and> fl_max_count s' = fl_max_count s \<and> fl_frame_size s' = fl_frame_size s"
    by (rule put_at_refines)
qed

section \<open>Properties\<close>

text \<open>A list of four slots, the first two filled, for the witnesses.\<close>

definition small_list :: jb_framelist where
  "small_list = \<lparr>fl_frame_size = 8, fl_max_count = 4, fl_content = (\<lambda>i. [of_nat i, 1]),
     fl_type = (\<lambda>i. if i = 3 then DISCARDED_FRAME else if i = 0 then NORMAL_FRAME else MISSING_FRAME),
     fl_content_len = (\<lambda>i. if i = 0 then 2 else 0), fl_bit_info = (\<lambda>_. 0), fl_ts = (\<lambda>i. 160 * i),
     fl_head = 3, fl_size = 2, fl_discarded_num = 1, fl_origin = 40\<rparr>"

lemma small_list_window: "window small_list = [Discarded, Frame [0, 1] 0 0]"
  by (simp add: window_def small_list_def ring_def slot_at_def upt_rec)

lemma small_list_inv: "fl_inv small_list"
proof -
  have fl: "fl_max_count small_list = 4" "fl_head small_list = 3" "fl_size small_list = 2"
    "fl_discarded_num small_list = 1" by (simp_all add: small_list_def)
  show ?thesis
  proof (rule fl_invI)
    show "fl_type small_list (ring small_list i) = MISSING_FRAME"
      if "fl_size small_list \<le> i" "i < fl_max_count small_list" for i
    proof -
      have "i = 2 \<or> i = 3" using that by (auto simp: fl)
      then show ?thesis by (auto simp: ring_def small_list_def)
    qed
    show "fl_type small_list p \<in> {MISSING_FRAME, NORMAL_FRAME, DISCARDED_FRAME} \<and>
      fl_content_len small_list p \<le> fl_frame_size small_list \<and>
      (fl_type small_list p = MISSING_FRAME \<longrightarrow> fl_content_len small_list p = 0)" if "p < fl_max_count small_list" for p
      by (auto simp: small_list_def)
  qed (simp_all add: fl small_list_window)
qed

text \<open>C22: putting a frame into the circular buffer is putting it into the sequence of slots: the
  status, the new origin and the new sequence are those of \<open>put_spec\<close> (too late, duplicate, buffer
  full, restart, far jump, or stored at its distance, with missing slots before it), and the buffer
  stays well formed.\<close>

theorem framelist_put_refines:
  assumes "fl_inv fl" and "n \<le> length frame" and "n \<le> fl_frame_size fl" and "0 \<le> index" and "index < 2 ^ 31"
  shows "\<exists>fl'. jb_framelist_put_at fl index frame n bits ts NORMAL_FRAME =
      (fst (put_spec (fl_max_count fl) index (Frame (take n frame) bits ts) (fl_origin fl) (window fl)), fl') \<and>
    (fl_origin fl', window fl') =
      snd (put_spec (fl_max_count fl) index (Frame (take n frame) bits ts) (fl_origin fl) (window fl)) \<and> fl_inv fl'"
  using put_at_refines[OF assms, of bits ts] by blast

theorem framelist_put_refines_witness:
  "\<exists>fl'. jb_framelist_put_at small_list 42 [9, 9, 9] 3 0 320 NORMAL_FRAME =
      (fst (put_spec (fl_max_count small_list) 42 (Frame (take 3 [9, 9, 9]) 0 320) (fl_origin small_list) (window small_list)), fl') \<and>
    (fl_origin fl', window fl') =
      snd (put_spec (fl_max_count small_list) 42 (Frame (take 3 [9, 9, 9]) 0 320) (fl_origin small_list) (window small_list)) \<and>
    fl_inv fl'"
  by (rule framelist_put_refines[OF small_list_inv]) (simp_all add: small_list_def)

text \<open>C23: getting a frame always returns. It drops the discarded slots at the front and the slot after
  them, and answers that slot: its frame, cut to the caller's size, when nothing was skipped, and a
  missing frame otherwise, always with the number of the slot; nothing when no slot is left.\<close>

theorem framelist_get_refines:
  assumes "fl_inv fl"
  shows "\<exists>fl' got. jb_framelist_get fl max_size = Some (fl', got) \<and> fl_inv fl' \<and>
    window fl' = drop (skipped (window fl) + 1) (window fl) \<and>
    fl_origin fl' = fl_origin fl + int (min (skipped (window fl) + 1) (fl_size fl)) \<and>
    (if skipped (window fl) = fl_size fl then got = None
     else \<exists>g. got = Some g \<and> got_seq g = fl_origin fl + int (skipped (window fl)) \<and>
       (got_type g, got_frame g) =
         (if skipped (window fl) = 0 then got_of max_size (hd (window fl)) else (MISSING_FRAME, [])))"
  using get_refines[OF assms, of max_size] unfolding window_length by blast

theorem framelist_get_refines_witness:
  "\<exists>fl' got. jb_framelist_get small_list None = Some (fl', got) \<and> fl_inv fl' \<and> window fl' = [] \<and> fl_origin fl' = 42 \<and>
    (\<exists>g. got = Some g \<and> got_seq g = 41 \<and> (got_type g, got_frame g) = (MISSING_FRAME, []))"
proof -
  have "fl_size small_list = 2" "fl_origin small_list = 40" by (simp_all add: small_list_def)
  then show ?thesis
    using framelist_get_refines[OF small_list_inv, of None] by (simp add: small_list_window skipped_def)
qed

text \<open>Removing from the head drops that many slots from the sequence, as many as there are, in one
  or two runs of the circular arrays, and keeps the count of discarded slots exact.\<close>

theorem framelist_remove_refines:
  assumes "fl_inv fl"
  shows "\<exists>fl'. jb_framelist_remove_head fl count = (min count (fl_size fl), fl') \<and> fl_inv fl' \<and>
    window fl' = drop count (window fl) \<and> fl_origin fl' = fl_origin fl + int (min count (fl_size fl)) \<and>
    fl_discarded_num fl' = discards (drop count (window fl))"
proof -
  obtain fl' where "jb_framelist_remove_head fl count = (min count (fl_size fl), fl')" "fl_inv fl'"
    "window fl' = drop (min count (fl_size fl)) (window fl)" "fl_origin fl' = fl_origin fl + int (min count (fl_size fl))"
    using remove_head_refines[OF assms refl, of count] by blast
  moreover have "drop (min count (fl_size fl)) (window fl) = drop count (window fl)"
    by (cases "count \<le> fl_size fl") simp_all
  ultimately show ?thesis by (simp add: fl_inv_def)
qed

theorem framelist_remove_refines_witness:
  "\<exists>fl'. jb_framelist_remove_head small_list 1 = (1, fl') \<and> fl_inv fl' \<and> window fl' = [Frame [0, 1] 0 0] \<and>
    fl_origin fl' = 41 \<and> fl_discarded_num fl' = 0"
proof -
  have "fl_size small_list = 2" "fl_origin small_list = 40" by (simp_all add: small_list_def)
  then show ?thesis
    using framelist_remove_refines[OF small_list_inv, of 1] by (simp add: small_list_window)
qed

text \<open>Peeking always returns, and answers the slot at the given offset among those that are not
  discarded, or nothing when the offset is beyond them.\<close>

theorem framelist_peek_refines:
  assumes "fl_inv fl"
  shows "\<exists>r. jb_framelist_peek fl offset = Some r \<and>
    (case r of None \<Rightarrow> length (kept (window fl)) \<le> offset
     | Some g \<Rightarrow> offset < length (kept (window fl)) \<and>
         (got_type g, got_frame g) = got_of None (kept (window fl) ! offset))"
proof (cases "length (kept (window fl)) \<le> offset")
  case True
  then have "jb_framelist_peek fl offset = Some None"
    using eff_size[OF assms] by (simp add: jb_framelist_peek_def kept_length)
  then show ?thesis using True by simp
next
  case False
  have h: "ring fl 0 = fl_head fl" using assms by (simp add: ring_def fl_inv_def)
  obtain pos where pos: "peek_pos fl (fl_head fl) offset = Some pos" "pos < fl_max_count fl"
    "slot_at fl pos = kept (window fl) ! offset"
    using peek_pos_kept[OF assms, of 0 offset] False h by auto
  have "slot_at fl pos \<noteq> Discarded"
    using pos(3) False nth_mem[of offset "kept (window fl)"] by (auto simp: kept_def)
  then have "fl_type fl pos \<in> {MISSING_FRAME, NORMAL_FRAME}"
    using fl_inv_slots[OF assms pos(2)] by auto
  then have "got_of None (slot_at fl pos) = (fl_type fl pos, take (fl_content_len fl pos) (fl_content fl pos))"
    using got_slot[of fl pos None] fl_inv_slots[OF assms pos(2)] by simp
  then show ?thesis
    using False pos eff_size[OF assms] by (simp add: jb_framelist_peek_def kept_length)
qed

theorem framelist_peek_refines_witness:
  "\<exists>r. jb_framelist_peek small_list 0 = Some r \<and>
    (case r of None \<Rightarrow> False | Some g \<Rightarrow> (got_type g, got_frame g) = (NORMAL_FRAME, [0, 1]))"
  using framelist_peek_refines[OF small_list_inv, of 0]
  by (auto simp: small_list_window kept_def got_of_def split: option.splits)

end
