(* ===== verification/Jbuf.thy ===== *)
theory Jbuf
  imports Jbuf_Framelist
begin

text \<open>
  The adaptive jitter buffer of \<^verbatim>\<open>pjmedia/src/pjmedia/jbuf.c\<close> on top of its frame list: creation and
  settings, the measurement of the burst level, the two discard algorithms, and putting and getting
  frames. The function pointer \<^verbatim>\<open>jb_discard_algo\<close> is a datatype; of the delay and burst statistics
  (\<^verbatim>\<open>pj_math_stat\<close>) the integer part is kept (the mean and the deviation are computed in floating
  point, and feed nothing else).
\<close>

section \<open>Data\<close>

record pj_math_stat =
  stat_n :: int
  stat_max :: int
  stat_min :: int
  stat_last :: int

definition pj_math_stat_init :: pj_math_stat where
  "pj_math_stat_init = \<lparr>stat_n = 0, stat_max = 0, stat_min = 0, stat_last = 0\<rparr>"

definition pj_math_stat_update :: "pj_math_stat \<Rightarrow> int \<Rightarrow> pj_math_stat" where
  "pj_math_stat_update stat val =
     (let st = stat\<lparr>stat_last := val, stat_n := stat_n stat + 1\<rparr>
      in if stat_n stat \<noteq> 0 then
           let st1 = (if stat_min st > val then st\<lparr>stat_min := val\<rparr> else st)
           in if stat_max st1 < val then st1\<lparr>stat_max := val\<rparr> else st1
         else st\<lparr>stat_min := val, stat_max := val\<rparr>)"

datatype discard_algo = DISCARD_NONE | DISCARD_STATIC | DISCARD_PROGRESSIVE
datatype pjmedia_jb_op = JB_OP_INIT | JB_OP_PUT | JB_OP_GET
datatype jb_status_t = JB_STATUS_INITIALIZING | JB_STATUS_PROCESSING

record pjmedia_jbuf =
  jb_frame_size :: nat
  jb_frame_ptime :: nat
  jb_frame_ptime_denum :: nat
  jb_max_count :: nat
  jb_init_prefetch :: int
  jb_min_prefetch :: int
  jb_max_prefetch :: int
  jb_max_burst :: int
  jb_min_shrink_gap :: int
  jb_discard_algo :: discard_algo
  jb_framelist :: jb_framelist
  jb_level :: int
  jb_max_hist_level :: int
  jb_stable_hist :: int
  jb_last_op :: pjmedia_jb_op
  jb_eff_level :: int
  jb_prefetch :: int
  jb_prefetching :: bool
  jb_status :: jb_status_t
  jb_init_cycle_cnt :: int
  jb_discard_ref :: int
  jb_discard_dist :: nat
  jb_delay :: pj_math_stat
  jb_burst :: pj_math_stat
  jb_lost :: nat
  jb_discard :: nat
  jb_empty :: nat

abbreviation (input) "MAX_BURST_MSEC \<equiv> (1000 :: int)"
abbreviation (input) "INIT_CYCLE \<equiv> (10 :: int)"
abbreviation (input) "STA_DISC_SAFE_SHRINKING_DIFF \<equiv> (1 :: int)"
abbreviation (input) "PJMEDIA_JB_DEFAULT_INIT_DELAY \<equiv> (15 :: nat)"
abbreviation (input) "PJMEDIA_JBUF_DISC_MIN_GAP \<equiv> (200 :: int)"
abbreviation (input) "PJMEDIA_JBUF_PRO_DISC_MIN_BURST \<equiv> (1 :: nat)"
abbreviation (input) "PJMEDIA_JBUF_PRO_DISC_MAX_BURST \<equiv> (100 :: nat)"
abbreviation (input) "PJMEDIA_JBUF_PRO_DISC_T1 \<equiv> (2000 :: nat)"
abbreviation (input) "PJMEDIA_JBUF_PRO_DISC_T2 \<equiv> (10000 :: nat)"

section \<open>Creation and settings\<close>

definition pjmedia_jbuf_set_discard :: "pjmedia_jbuf \<Rightarrow> discard_algo \<Rightarrow> pjmedia_jbuf" where
  "pjmedia_jbuf_set_discard jb algo = jb\<lparr>jb_discard_algo := algo\<rparr>"

definition pjmedia_jbuf_reset :: "pjmedia_jbuf \<Rightarrow> pjmedia_jbuf" where
  "pjmedia_jbuf_reset jb =
     jb\<lparr>jb_level := 0, jb_last_op := JB_OP_INIT, jb_stable_hist := 0, jb_status := JB_STATUS_INITIALIZING,
        jb_init_cycle_cnt := 0, jb_max_hist_level := 0, jb_prefetching := (jb_prefetch jb \<noteq> 0),
        jb_discard_dist := 0, jb_framelist := jb_framelist_reset (jb_framelist jb)\<rparr>"

definition pjmedia_jbuf_create :: "jb_framelist \<Rightarrow> nat \<Rightarrow> nat \<Rightarrow> nat \<Rightarrow> pjmedia_jbuf" where
  "pjmedia_jbuf_create mem frame_size ptime max_count =
     (let four_fifths = u32 (int max_count * 4) div 5;
          jb = \<lparr>jb_frame_size = frame_size, jb_frame_ptime = ptime, jb_frame_ptime_denum = 1,
                jb_max_count = max_count, jb_init_prefetch = 0, jb_min_prefetch = 0,
                jb_max_prefetch = s32 four_fifths,
                jb_max_burst = s32 (PJ_MAX (u32 (MAX_BURST_MSEC div int ptime)) (u32 (int max_count * 3) div 4)),
                jb_min_shrink_gap = s32 (u32 (PJMEDIA_JBUF_DISC_MIN_GAP div int ptime)),
                jb_discard_algo = DISCARD_NONE,
                jb_framelist = jb_framelist_init mem frame_size max_count,
                jb_level = 0, jb_max_hist_level = 0, jb_stable_hist = 0, jb_last_op = JB_OP_INIT,
                jb_eff_level = 0, jb_prefetch = s32 (PJ_MIN PJMEDIA_JB_DEFAULT_INIT_DELAY four_fifths),
                jb_prefetching = False, jb_status = JB_STATUS_INITIALIZING, jb_init_cycle_cnt = 0,
                jb_discard_ref = 0, jb_discard_dist = 0, jb_delay = pj_math_stat_init,
                jb_burst = pj_math_stat_init, jb_lost = 0, jb_discard = 0, jb_empty = 0\<rparr>
      in pjmedia_jbuf_reset (pjmedia_jbuf_set_discard jb DISCARD_PROGRESSIVE))"

definition pjmedia_jbuf_set_ptime2 :: "pjmedia_jbuf \<Rightarrow> nat \<Rightarrow> nat \<Rightarrow> pjmedia_jbuf" where
  "pjmedia_jbuf_set_ptime2 jb ptime ptime_denum =
     jb\<lparr>jb_frame_ptime := ptime, jb_frame_ptime_denum := ptime_denum,
        jb_min_shrink_gap := s32 (u32 (PJMEDIA_JBUF_DISC_MIN_GAP * int ptime_denum) div ptime),
        jb_max_burst := s32 (u32 (int (PJ_MAX (u32 (MAX_BURST_MSEC * int ptime_denum) div ptime)
                                              (jb_max_count jb * 3 div 4))))\<rparr>"

definition pjmedia_jbuf_set_ptime :: "pjmedia_jbuf \<Rightarrow> nat \<Rightarrow> pjmedia_jbuf" where
  "pjmedia_jbuf_set_ptime jb ptime = pjmedia_jbuf_set_ptime2 jb ptime 1"

definition pjmedia_jbuf_set_fixed :: "pjmedia_jbuf \<Rightarrow> nat \<Rightarrow> pj_status_t \<times> pjmedia_jbuf" where
  "pjmedia_jbuf_set_fixed jb prefetch =
     (if \<not> prefetch \<le> jb_max_count jb then (PJ_EINVAL, jb)
      else (PJ_SUCCESS, pjmedia_jbuf_set_discard
             (jb\<lparr>jb_min_prefetch := s32 prefetch, jb_max_prefetch := s32 prefetch, jb_prefetch := s32 prefetch,
                 jb_init_prefetch := s32 prefetch\<rparr>) DISCARD_NONE))"

definition pjmedia_jbuf_set_adaptive ::
  "pjmedia_jbuf \<Rightarrow> nat \<Rightarrow> nat \<Rightarrow> nat \<Rightarrow> pj_status_t \<times> pjmedia_jbuf" where
  "pjmedia_jbuf_set_adaptive jb prefetch min_prefetch max_prefetch =
     (if \<not> (min_prefetch \<le> max_prefetch \<and> prefetch \<le> max_prefetch \<and> max_prefetch \<le> jb_max_count jb)
      then (PJ_EINVAL, jb)
      else (PJ_SUCCESS, jb\<lparr>jb_prefetch := s32 prefetch, jb_init_prefetch := s32 prefetch,
                           jb_min_prefetch := s32 min_prefetch, jb_max_prefetch := s32 max_prefetch\<rparr>))"

definition pjmedia_jbuf_is_full :: "pjmedia_jbuf \<Rightarrow> bool" where
  "pjmedia_jbuf_is_full jb \<longleftrightarrow> fl_size (jb_framelist jb) = fl_max_count (jb_framelist jb)"

section \<open>The burst level\<close>

definition jbuf_calculate_jitter :: "pjmedia_jbuf \<Rightarrow> pjmedia_jbuf" where
  "jbuf_calculate_jitter jb0 =
     (let jb1 = jb0\<lparr>jb_burst := pj_math_stat_update (jb_burst jb0) (jb_level jb0)\<rparr>;
          jb = jb1\<lparr>jb_max_hist_level := PJ_MAX (jb_max_hist_level jb1) (jb_level jb1)\<rparr>
      in if jb_level jb < jb_eff_level jb then
           let jb2 = jb\<lparr>jb_stable_hist := jb_stable_hist jb + 1\<rparr>
           in if jb_stable_hist jb2 > 20 then
                let d = cdiv (jb_eff_level jb2 - jb_max_hist_level jb2) 3;
                    diff = (if d < 1 then 1 else d);
                    jb3 = jb2\<lparr>jb_eff_level := jb_eff_level jb2 - diff\<rparr>;
                    jb4 = (if jb_init_prefetch jb3 \<noteq> 0 then
                             let p = jb_eff_level jb3;
                                 p1 = (if p < jb_min_prefetch jb3 then jb_min_prefetch jb3 else p);
                                 p2 = (if p1 > jb_max_prefetch jb3 then jb_max_prefetch jb3 else p1)
                             in jb3\<lparr>jb_prefetch := p2\<rparr>
                           else jb3)
                in jb4\<lparr>jb_max_hist_level := 0, jb_stable_hist := 0\<rparr>
              else jb2
         else if jb_level jb > jb_eff_level jb then
           let jb2 = jb\<lparr>jb_eff_level := PJ_MIN (jb_max_hist_level jb) (s32 (u32 (int (jb_max_count jb * 4 div 5))))\<rparr>;
               jb3 = (if jb_init_prefetch jb2 \<noteq> 0 then
                        let p = jb_eff_level jb2;
                            p1 = (if p > jb_max_prefetch jb2 then jb_max_prefetch jb2 else p);
                            p2 = (if p1 < jb_min_prefetch jb2 then jb_min_prefetch jb2 else p1)
                        in jb2\<lparr>jb_prefetch := p2\<rparr>
                      else jb2)
           in jb3\<lparr>jb_stable_hist := 0\<rparr>
         else jb\<lparr>jb_stable_hist := 0\<rparr>)"

section \<open>Discarding\<close>

definition jbuf_discard_static :: "pjmedia_jbuf \<Rightarrow> pjmedia_jbuf" where
  "jbuf_discard_static jb =
     (let burst_level = PJ_MAX (jb_eff_level jb) (jb_level jb);
          diff = s32 (u32 (int (jb_framelist_eff_size (jb_framelist jb)) - burst_level * 2))
      in if diff \<ge> STA_DISC_SAFE_SHRINKING_DIFF then
           let seq_origin = jb_framelist_origin (jb_framelist jb);
               jb1 = (if seq_origin < jb_discard_ref jb then jb\<lparr>jb_discard_ref := seq_origin\<rparr> else jb)
           in if seq_origin - jb_discard_ref jb1 \<ge> jb_min_shrink_gap jb1 then
                let (removed, fl) = jb_framelist_remove_head (jb_framelist jb1) 1
                in jb1\<lparr>jb_framelist := fl, jb_discard_ref := jb_framelist_origin fl,
                       jb_discard := u32 (int (jb_discard jb1) + int removed)\<rparr>
              else jb1
         else jb)"

text \<open>The time over which a latency above the burst level is given up, and the distance in frames.\<close>

definition discard_T :: "nat \<Rightarrow> nat" where
  "discard_T burst_level =
     (if burst_level \<le> PJMEDIA_JBUF_PRO_DISC_MIN_BURST then PJMEDIA_JBUF_PRO_DISC_T1
      else if burst_level \<ge> PJMEDIA_JBUF_PRO_DISC_MAX_BURST then PJMEDIA_JBUF_PRO_DISC_T2
      else PJMEDIA_JBUF_PRO_DISC_T1 +
           (PJMEDIA_JBUF_PRO_DISC_T2 - PJMEDIA_JBUF_PRO_DISC_T1) *
           (burst_level - PJMEDIA_JBUF_PRO_DISC_MIN_BURST) div
           (PJMEDIA_JBUF_PRO_DISC_MAX_BURST - PJMEDIA_JBUF_PRO_DISC_MIN_BURST))"

definition jbuf_discard_progressive :: "pjmedia_jbuf \<Rightarrow> pjmedia_jbuf" where
  "jbuf_discard_progressive jb =
     (if jb_last_op jb \<noteq> JB_OP_PUT then jb
      else let cur_size = jb_framelist_eff_size (jb_framelist jb);
               burst_level = u32 (PJ_MAX (jb_eff_level jb) (jb_level jb))
      in if cur_size \<le> burst_level then jb\<lparr>jb_discard_dist := 0\<rparr>
      else let overflow = cur_size - burst_level;
               discard_dist = u32 (int (discard_T burst_level) * int (jb_frame_ptime_denum jb)) div overflow
                              div jb_frame_ptime jb;
               last_seq = s32 (u32 (jb_framelist_origin (jb_framelist jb) +
                                    int (jb_framelist_size (jb_framelist jb)) - 1));
               jb1 = (if jb_discard_dist jb = 0 then jb\<lparr>jb_discard_ref := last_seq\<rparr>
                      else if last_seq < jb_discard_ref jb then jb\<lparr>jb_discard_ref := last_seq\<rparr>
                      else jb);
               jb2 = jb1\<lparr>jb_discard_dist := u32 (PJ_MAX (jb_min_shrink_gap jb1) (s32 discard_dist))\<rparr>
      in if last_seq \<ge> jb_discard_ref jb2 + s32 (jb_discard_dist jb2) then
           let d = s32 (u32 (jb_discard_ref jb2 + int (jb_discard_dist jb2)));
               discard_seq = (if d < jb_framelist_origin (jb_framelist jb2)
                              then jb_framelist_origin (jb_framelist jb2) else d);
               fl = snd (jb_framelist_discard (jb_framelist jb2) discard_seq)
           in jb2\<lparr>jb_framelist := fl, jb_discard_ref := discard_seq\<rparr>
         else jb2)"

definition run_discard :: "pjmedia_jbuf \<Rightarrow> pjmedia_jbuf" where
  "run_discard jb =
     (case jb_discard_algo jb of
        DISCARD_NONE \<Rightarrow> jb
      | DISCARD_STATIC \<Rightarrow> jbuf_discard_static jb
      | DISCARD_PROGRESSIVE \<Rightarrow> jbuf_discard_progressive jb)"

text \<open>\<^verbatim>\<open>jbuf_update\<close>; the flag says that it returned early, before the discard algorithm.\<close>

definition jbuf_switch_op :: "pjmedia_jbuf \<Rightarrow> pjmedia_jb_op \<Rightarrow> pjmedia_jbuf \<times> bool" where
  "jbuf_switch_op jb oper =
     (if jb_last_op jb \<noteq> oper then
        let jb1 = jb\<lparr>jb_last_op := oper\<rparr>;
            (jb2, early) =
              (if jb_status jb1 = JB_STATUS_INITIALIZING then
                 let jb' = jb1\<lparr>jb_init_cycle_cnt := jb_init_cycle_cnt jb1 + 1\<rparr>
                 in if jb_init_cycle_cnt jb' \<ge> INIT_CYCLE \<and> oper = JB_OP_GET
                    then (jb'\<lparr>jb_status := JB_STATUS_PROCESSING,
                              jb_level := PJ_MIN (jb_level jb') (jb_max_burst jb')\<rparr>, False)
                    else (jb'\<lparr>jb_level := 0\<rparr>, True)
               else (jb1, False))
        in if early then (jb2, True)
           else let jb3 = (if oper = JB_OP_GET \<and> jb_level jb2 \<le> jb_max_burst jb2
                           then jbuf_calculate_jitter jb2 else jb2)
                in (jb3\<lparr>jb_level := 0\<rparr>, False)
      else (jb, False))"

definition jbuf_update :: "pjmedia_jbuf \<Rightarrow> pjmedia_jb_op \<Rightarrow> pjmedia_jbuf" where
  "jbuf_update jb oper =
     (let (jb1, early) = jbuf_switch_op jb oper
      in if early then jb1
         else if jb_status jb1 = JB_STATUS_PROCESSING then run_discard jb1 else jb1)"

section \<open>Putting frames\<close>

partial_function (option) put_retry ::
  "pjmedia_jbuf \<Rightarrow> byte list \<Rightarrow> nat \<Rightarrow> nat \<Rightarrow> int \<Rightarrow> nat \<Rightarrow> pj_status_t \<Rightarrow> (pjmedia_jbuf \<times> pj_status_t) option" where
  "put_retry jb frame n bit_info frame_seq ts status =
     (if status = PJ_ETOOMANY then
        let distance = (frame_seq - jb_framelist_origin (jb_framelist jb)) - s32 (u32 (int (jb_max_count jb))) + 1;
            (removed, fl1) = jb_framelist_remove_head (jb_framelist jb) (u32 distance);
            (status', fl2) = jb_framelist_put_at fl1 frame_seq frame n bit_info ts NORMAL_FRAME
        in put_retry (jb\<lparr>jb_framelist := fl2, jb_discard := u32 (int (jb_discard jb) + int removed)\<rparr>)
             frame n bit_info frame_seq ts status'
      else Some (jb, status))"

declare put_retry.simps [code]

text \<open>The result is the buffer and the flag \<^verbatim>\<open>discarded\<close>.\<close>

definition pjmedia_jbuf_put_frame3 ::
  "pjmedia_jbuf \<Rightarrow> byte list \<Rightarrow> nat \<Rightarrow> int \<Rightarrow> nat \<Rightarrow> (pjmedia_jbuf \<times> bool) option" where
  "pjmedia_jbuf_put_frame3 jb frame bit_info frame_seq ts =
     (let cur_size = s32 (jb_framelist_eff_size (jb_framelist jb));
          min_frame_size = PJ_MIN (length frame) (jb_frame_size jb);
          (status0, fl0) = jb_framelist_put_at (jb_framelist jb) frame_seq frame min_frame_size bit_info ts NORMAL_FRAME
      in case put_retry (jb\<lparr>jb_framelist := fl0\<rparr>) frame min_frame_size bit_info frame_seq ts status0 of
        None \<Rightarrow> None
      | Some (jb1, status) \<Rightarrow>
          let new_size = s32 (jb_framelist_eff_size (jb_framelist jb1))
          in if status = PJ_SUCCESS then
               let jb2 = (if jb_prefetching jb1 \<and> new_size \<ge> jb_prefetch jb1
                          then jb1\<lparr>jb_prefetching := False\<rparr> else jb1);
                   jb3 = jb2\<lparr>jb_level := jb_level jb2 + (if new_size > cur_size then new_size - cur_size else 1)\<rparr>
               in Some (jbuf_update jb3 JB_OP_PUT, False)
             else Some (jb1\<lparr>jb_discard := u32 (int (jb_discard jb1) + 1)\<rparr>, True))"

definition pjmedia_jbuf_put_frame2 ::
  "pjmedia_jbuf \<Rightarrow> byte list \<Rightarrow> nat \<Rightarrow> int \<Rightarrow> (pjmedia_jbuf \<times> bool) option" where
  "pjmedia_jbuf_put_frame2 jb frame bit_info frame_seq = pjmedia_jbuf_put_frame3 jb frame bit_info frame_seq 0"

definition pjmedia_jbuf_put_frame :: "pjmedia_jbuf \<Rightarrow> byte list \<Rightarrow> int \<Rightarrow> pjmedia_jbuf option" where
  "pjmedia_jbuf_put_frame jb frame frame_seq = map_option fst (pjmedia_jbuf_put_frame3 jb frame 0 frame_seq 0)"

section \<open>Getting frames\<close>

text \<open>The result is the buffer, the frame type reported, and what the frame list delivered, if it did.\<close>

definition pjmedia_jbuf_get_frame3 ::
  "pjmedia_jbuf \<Rightarrow> nat option \<Rightarrow> (pjmedia_jbuf \<times> jb_frame_type \<times> jb_got option) option" where
  "pjmedia_jbuf_get_frame3 jb max_size =
     (let finish = (\<lambda>jb. jbuf_update (jb\<lparr>jb_level := jb_level jb + 1\<rparr>) JB_OP_GET)
      in if jb_prefetching jb then
           Some (finish (jb\<lparr>jb_empty := u32 (int (jb_empty jb) + 1)\<rparr>), ZERO_PREFETCH_FRAME, None)
         else case jb_framelist_get (jb_framelist jb) max_size of
           None \<Rightarrow> None
         | Some (fl, Some got) \<Rightarrow>
             let jb1 = jb\<lparr>jb_framelist := fl\<rparr>;
                 ftype = (if got_type got = NORMAL_FRAME then NORMAL_FRAME else MISSING_FRAME);
                 jb2 = (if got_type got = NORMAL_FRAME then jb1 else jb1\<lparr>jb_lost := u32 (int (jb_lost jb1) + 1)\<rparr>);
                 cur_size = u32 (int (jb_framelist_eff_size (jb_framelist jb2)) + 1);
                 jb3 = (if jb_last_op jb2 = JB_OP_PUT
                        then jb2\<lparr>jb_delay := pj_math_stat_update (jb_delay jb2)
                               (s32 (u32 (int cur_size * int (jb_frame_ptime jb2)) div jb_frame_ptime_denum jb2))\<rparr>
                        else jb2)
             in Some (finish jb3, ftype, Some got)
         | Some (fl, None) \<Rightarrow>
             let jb1 = jb\<lparr>jb_framelist := fl\<rparr>;
                 jb2 = (if jb_prefetch jb1 \<noteq> 0 then jb1\<lparr>jb_prefetching := True\<rparr> else jb1)
             in Some (finish (jb2\<lparr>jb_empty := u32 (int (jb_empty jb2) + 1)\<rparr>), ZERO_EMPTY_FRAME, None))"

definition pjmedia_jbuf_peek_frame :: "pjmedia_jbuf \<Rightarrow> nat \<Rightarrow> (jb_frame_type \<times> jb_got option) option" where
  "pjmedia_jbuf_peek_frame jb offset =
     (case jb_framelist_peek (jb_framelist jb) offset of
        None \<Rightarrow> None
      | Some None \<Rightarrow> Some (ZERO_EMPTY_FRAME, None)
      | Some (Some got) \<Rightarrow>
          Some (if got_type got = NORMAL_FRAME then NORMAL_FRAME else MISSING_FRAME, Some got))"

text \<open>\<^verbatim>\<open>pjmedia_jbuf_remove_frame\<close> removes more frames for every discarded one among those removed.\<close>

function remove_more :: "jb_framelist \<Rightarrow> nat \<Rightarrow> nat \<Rightarrow> nat \<times> jb_framelist" where
  "remove_more fl last_discard_num count =
     (if fl_discarded_num fl < last_discard_num then
        let frame_cnt = last_discard_num - fl_discarded_num fl;
            count1 = u32 (int count - int frame_cnt);
            (removed, fl1) = jb_framelist_remove_head fl frame_cnt
        in remove_more fl1 (fl_discarded_num fl) (u32 (int count1 + int removed))
      else (count, fl))"
  by pat_completeness auto
termination
  by (relation "measure (\<lambda>(fl, l, c). l)") auto

declare remove_more.simps [simp del]

definition pjmedia_jbuf_remove_frame :: "pjmedia_jbuf \<Rightarrow> nat \<Rightarrow> nat \<times> pjmedia_jbuf" where
  "pjmedia_jbuf_remove_frame jb frame_cnt =
     (let last_discard_num = fl_discarded_num (jb_framelist jb);
          (count, fl) = jb_framelist_remove_head (jb_framelist jb) frame_cnt;
          (count', fl') = remove_more fl last_discard_num count
      in (count', jb\<lparr>jb_framelist := fl'\<rparr>))"

record pjmedia_jb_state =
  js_frame_size :: nat
  js_min_prefetch :: int
  js_max_prefetch :: int
  js_max_count :: nat
  js_burst :: int
  js_prefetch :: int
  js_size :: nat
  js_min_delay :: int
  js_max_delay :: int
  js_empty :: nat
  js_discard :: nat
  js_lost :: nat

definition pjmedia_jbuf_get_state :: "pjmedia_jbuf \<Rightarrow> pjmedia_jb_state" where
  "pjmedia_jbuf_get_state jb =
     \<lparr>js_frame_size = jb_frame_size jb, js_min_prefetch = jb_min_prefetch jb,
      js_max_prefetch = jb_max_prefetch jb, js_max_count = jb_max_count jb, js_burst = jb_eff_level jb,
      js_prefetch = jb_prefetch jb, js_size = jb_framelist_eff_size (jb_framelist jb),
      js_min_delay = stat_min (jb_delay jb), js_max_delay = stat_max (jb_delay jb),
      js_empty = jb_empty jb, js_discard = jb_discard jb, js_lost = jb_lost jb\<rparr>"

end
