(* ===== verification/Jbuf_Props.thy ===== *)
theory Jbuf_Props
  imports Jbuf
begin

text \<open>
  Correctness of the adaptive jitter buffer: its invariant, that putting and getting return and keep
  it, what becomes of a frame, the order of delivery over a whole session, and the bounds of the
  burst level and of the prefetch. Everything about the frame list comes from the interpretation
  \<open>flist\<close> of its contract.
\<close>

section \<open>Discarded slots stay behind the discard reference\<close>

definition disc_upto :: "int \<Rightarrow> int \<Rightarrow> jslot list \<Rightarrow> bool" where
  "disc_upto ref orig w \<longleftrightarrow> (\<forall>i<length w. w ! i = Discarded \<longrightarrow> orig + int i \<le> ref)"

lemma disc_uptoI: "(\<And>i. i < length w \<Longrightarrow> w ! i = Discarded \<Longrightarrow> orig + int i \<le> ref) \<Longrightarrow> disc_upto ref orig w"
  by (simp add: disc_upto_def)

lemma disc_upto_drop: "disc_upto ref orig w \<Longrightarrow> c \<le> length w \<Longrightarrow> disc_upto ref (orig + int c) (drop c w)"
  unfolding disc_upto_def
proof (intro allI impI)
  fix i
  assume a: "\<forall>i<length w. w ! i = Discarded \<longrightarrow> orig + int i \<le> ref" "c \<le> length w" "i < length (drop c w)"
    "drop c w ! i = Discarded"
  then show "orig + int c + int i \<le> ref" using a(1)[rule_format, of "c + i"] by (simp add: ac_simps)
qed

lemma disc_upto_place:
  assumes "disc_upto ref orig w" and "s \<noteq> Discarded"
  shows "disc_upto ref orig (place d s w)"
proof (rule disc_uptoI)
  fix i
  assume i: "i < length (place d s w)" "place d s w ! i = Discarded"
  show "orig + int i \<le> ref"
  proof (cases "i < length w")
    case True
    then have "w ! i = Discarded" using i assms(2)
      by (auto simp: place_def nth_append nth_list_update split: if_splits)
    then show ?thesis using assms(1) True by (simp add: disc_upto_def)
  next
    case False
    then show ?thesis using i assms(2)
      by (auto simp: place_def nth_append nth_Cons' split: if_splits)
  qed
qed

lemma disc_upto_mono: "disc_upto ref orig w \<Longrightarrow> orig' \<le> orig \<Longrightarrow> ref \<le> ref' \<Longrightarrow> disc_upto ref' orig' w"
  unfolding disc_upto_def by (meson add_right_mono dual_order.trans)

lemma disc_upto_last: "orig + int (length w) - 1 \<le> ref \<Longrightarrow> disc_upto ref orig w"
  by (auto simp: disc_upto_def)

lemma disc_upto_Nil [simp]: "disc_upto ref orig []"
  by (simp add: disc_upto_def)

lemma place_length: "length (place d s w) = max (length w) (d + 1)"
  by (auto simp: place_def)

lemma place_nth: "place d s w ! d = s"
  by (auto simp: place_def nth_append)

lemma place_ne [simp]: "place d s w \<noteq> []"
  by (auto simp: place_def)

lemma place_set: "set (place d s w) \<subseteq> insert s (insert Missing (set w))"
  using set_update_subset_insert[of w d s] by (auto simp: place_def)

section \<open>What a put does to the sequence\<close>

lemma put_spec_keeps:
  assumes "put_spec cap index s o1 w = (st, o2, w2)" and "length w \<le> cap" and "0 < cap" and "0 \<le> index"
    and "s \<noteq> Discarded"
  shows "disc_upto ref o1 w \<Longrightarrow> disc_upto ref o2 w2"
    and "o2 + int (length w2) \<le> max (o1 + int (length w)) (index + 1)"
    and "min o1 (- int cap) \<le> o2"
    and "set w2 \<subseteq> insert s (insert Missing (set w))"
  using assms place_set[of _ s w] place_set[of _ s "[]"]
  by (auto simp: put_spec_def Let_def place_length intro!: disc_upto_place intro: disc_upto_mono split: if_splits)

lemma put_spec_success:
  assumes "put_spec cap index s o1 w = (PJ_SUCCESS, o2, w2)" and "0 < cap"
  shows "o2 \<le> index \<and> index < o2 + int (length w2) \<and> w2 ! nat (index - o2) = s"
  using assms by (auto simp: put_spec_def Let_def place_length place_nth split: if_splits)

text \<open>The two reasons for which a frame is turned down: it is late, or its slot is taken.\<close>

definition late_or_taken :: "int \<Rightarrow> int \<Rightarrow> jslot list \<Rightarrow> bool" where
  "late_or_taken index orig w \<longleftrightarrow>
     (index < orig \<and> orig - index < 100) \<or>
     (orig \<le> index \<and> index < orig + int (length w) \<and> w ! nat (index - orig) \<noteq> Missing)"

lemma put_spec_turned_down:
  assumes "put_spec cap index s o1 w = (st, o2, w2)" and "length w \<le> cap" and "0 < cap"
  shows "st \<noteq> PJ_SUCCESS \<and> st \<noteq> PJ_ETOOMANY \<longleftrightarrow> late_or_taken index o1 w"
    and "late_or_taken index o1 w \<Longrightarrow> o2 = o1 \<and> w2 = w"
  using assms by (auto simp: put_spec_def Let_def late_or_taken_def split: if_splits)

text \<open>
  The numbered frames of a sequence, and steps that keep their numbers: the origin does not go back,
  and a frame is either an old one under its number or the given one. A put does this unless its
  number is 100 or more behind the origin, which the code takes for a restart of the sender.
\<close>

definition all_frames :: "(int \<Rightarrow> byte list \<Rightarrow> bool) \<Rightarrow> int \<Rightarrow> jslot list \<Rightarrow> bool" where
  "all_frames Q orig w \<longleftrightarrow> (\<forall>i<length w. \<forall>b x y. w ! i = Frame b x y \<longrightarrow> Q (orig + int i) b)"

definition carries :: "int \<Rightarrow> byte list \<Rightarrow> int \<Rightarrow> jslot list \<Rightarrow> int \<Rightarrow> jslot list \<Rightarrow> bool" where
  "carries index b o1 w o2 w2 \<longleftrightarrow> o1 \<le> o2 \<and> (\<forall>Q. all_frames Q o1 w \<and> Q index b \<longrightarrow> all_frames Q o2 w2)"

lemma all_frames_Nil [simp]: "all_frames Q orig []"
  by (simp add: all_frames_def)

lemma all_frames_drop: "all_frames Q orig w \<Longrightarrow> c \<le> length w \<Longrightarrow> all_frames Q (orig + int c) (drop c w)"
  unfolding all_frames_def
proof (intro allI impI)
  fix i b x y
  assume a: "\<forall>i<length w. \<forall>b x y. w ! i = Frame b x y \<longrightarrow> Q (orig + int i) b" "c \<le> length w"
    "i < length (drop c w)" "drop c w ! i = Frame b x y"
  then have "c + i < length w" and "w ! (c + i) = Frame b x y" by simp_all
  then have "Q (orig + int (c + i)) b" using a(1) by blast
  then show "Q (orig + int c + int i) b" by (simp add: ac_simps)
qed

lemma all_frames_place:
  assumes "all_frames Q orig w" and "Q (orig + int d) b"
  shows "all_frames Q orig (place d (Frame b x y) w)"
  unfolding all_frames_def
proof (intro allI impI)
  fix i c u v
  assume i: "i < length (place d (Frame b x y) w)" "place d (Frame b x y) w ! i = Frame c u v"
  show "Q (orig + int i) c"
  proof (cases "i = d")
    case True
    then show ?thesis using i place_nth[of d "Frame b x y" w] assms(2) by simp
  next
    case False
    then have "i < length w \<and> w ! i = Frame c u v"
      using i by (auto simp: place_def nth_append nth_Cons' split: if_splits)
    then show ?thesis using assms(1) by (auto simp: all_frames_def)
  qed
qed

lemma all_frames_upd: "all_frames Q orig w \<Longrightarrow> all_frames Q orig (w[d := Discarded])"
  by (cases "d < length w") (auto simp: all_frames_def list_update_in_range split: if_splits)

lemma carries_refl [simp]: "carries index b o1 w o1 w"
  by (simp add: carries_def)

lemma carries_trans: "carries index b o1 w o2 w2 \<Longrightarrow> carries index b o2 w2 o3 w3 \<Longrightarrow> carries index b o1 w o3 w3"
  unfolding carries_def by (meson order_trans)

lemma carries_drop: "c \<le> length w \<Longrightarrow> carries index b o1 w (o1 + int c) (drop c w)"
  by (simp add: carries_def all_frames_drop)

lemma put_spec_carries:
  assumes "put_spec cap index (Frame b x y) o1 w = (st, o2, w2)" and "o1 - 99 \<le> index"
  shows "carries index b o1 w o2 w2"
  using assms by (auto simp: put_spec_def Let_def carries_def intro!: all_frames_place split: if_splits)

section \<open>The invariant\<close>

definition jb_wf :: "pjmedia_jbuf \<Rightarrow> bool" where
  "jb_wf jb \<longleftrightarrow>
     (let fl = jb_framelist jb
      in fl_inv fl \<and> fl_max_count fl = jb_max_count jb \<and> fl_frame_size fl = jb_frame_size jb \<and>
         jb_max_count jb < 2 ^ 28 \<and> 0 < jb_min_shrink_gap jb \<and> jb_min_shrink_gap jb < 2 ^ 29 \<and>
         0 < jb_frame_ptime jb \<and> jb_frame_ptime_denum jb \<le> 1000 \<and>
         - (2 ^ 29) \<le> fl_origin fl \<and> fl_origin fl + int (fl_size fl) \<le> 2 ^ 30 \<and>
         - (2 ^ 29) - 1 \<le> jb_discard_ref jb \<and> jb_discard_ref jb \<le> 2 ^ 30 \<and>
         (jb_discard_algo jb \<noteq> DISCARD_PROGRESSIVE \<longrightarrow> Discarded \<notin> set (window fl)) \<and>
         (jb_discard_dist jb \<noteq> 0 \<longrightarrow> disc_upto (jb_discard_ref jb) (fl_origin fl) (window fl)))"

text \<open>The fields the invariant reads.\<close>

definition core :: "pjmedia_jbuf \<Rightarrow> _" where
  "core jb = (jb_framelist jb, (jb_max_count jb, jb_frame_size jb, jb_min_shrink_gap jb),
     (jb_frame_ptime jb, jb_frame_ptime_denum jb), jb_discard_ref jb, jb_discard_algo jb, jb_discard_dist jb)"

lemma jb_wf_cong: "core jb' = core jb \<Longrightarrow> jb_wf jb' \<longleftrightarrow> jb_wf jb"
  by (simp add: core_def jb_wf_def)

lemma core_upd:
  "core (jb\<lparr>jb_level := x\<rparr>) = core jb" "core (jb\<lparr>jb_max_hist_level := x\<rparr>) = core jb"
  "core (jb\<lparr>jb_stable_hist := x\<rparr>) = core jb" "core (jb\<lparr>jb_last_op := oper\<rparr>) = core jb"
  "core (jb\<lparr>jb_eff_level := x\<rparr>) = core jb" "core (jb\<lparr>jb_prefetch := x\<rparr>) = core jb"
  "core (jb\<lparr>jb_prefetching := b\<rparr>) = core jb" "core (jb\<lparr>jb_status := stat\<rparr>) = core jb"
  "core (jb\<lparr>jb_init_cycle_cnt := x\<rparr>) = core jb" "core (jb\<lparr>jb_delay := m\<rparr>) = core jb"
  "core (jb\<lparr>jb_burst := m\<rparr>) = core jb" "core (jb\<lparr>jb_lost := n\<rparr>) = core jb"
  "core (jb\<lparr>jb_discard := n\<rparr>) = core jb" "core (jb\<lparr>jb_empty := n\<rparr>) = core jb"
  by (simp_all add: core_def)

text \<open>A change of the frame list that the invariant survives.\<close>

lemma jb_wf_framelist:
  assumes "jb_wf jb" and "fl_inv fl'" and "fl_max_count fl' = jb_max_count jb" and "fl_frame_size fl' = jb_frame_size jb"
    and "- (2 ^ 29) \<le> fl_origin fl'" and "fl_origin fl' + int (fl_size fl') \<le> 2 ^ 30"
    and "Discarded \<in> set (window fl') \<Longrightarrow> Discarded \<in> set (window (jb_framelist jb))"
    and "disc_upto (jb_discard_ref jb) (fl_origin (jb_framelist jb)) (window (jb_framelist jb)) \<Longrightarrow>
      disc_upto (jb_discard_ref jb) (fl_origin fl') (window fl')"
  shows "jb_wf (jb\<lparr>jb_framelist := fl'\<rparr>)"
  using assms by (auto simp: jb_wf_def Let_def)

lemmas jb_wfD = jb_wf_def[THEN iffD1, unfolded Let_def]

lemma jb_wf_remove:
  assumes "jb_wf jb" and "c = min count (fl_size (jb_framelist jb))"
  shows "\<exists>fl'. jb_framelist_remove_head (jb_framelist jb) count = (c, fl') \<and> jb_wf (jb\<lparr>jb_framelist := fl'\<rparr>) \<and>
    window fl' = drop c (window (jb_framelist jb)) \<and> fl_origin fl' = fl_origin (jb_framelist jb) + int c"
proof -
  obtain fl' where r: "jb_framelist_remove_head (jb_framelist jb) count = (c, fl')" "fl_inv fl'"
    "window fl' = drop c (window (jb_framelist jb))" "fl_origin fl' = fl_origin (jb_framelist jb) + int c"
    "fl_max_count fl' = fl_max_count (jb_framelist jb)" "fl_frame_size fl' = fl_frame_size (jb_framelist jb)"
    using flist.remove_law[of "jb_framelist jb" c count] assms jb_wfD[OF assms(1)] by auto
  have s: "fl_size fl' = fl_size (jb_framelist jb) - c"
    using arg_cong[OF r(3), of length] by simp
  have "jb_wf (jb\<lparr>jb_framelist := fl'\<rparr>)"
  proof (rule jb_wf_framelist[OF assms(1) r(2)])
    show "Discarded \<in> set (window fl') \<Longrightarrow> Discarded \<in> set (window (jb_framelist jb))"
      using r(3) set_drop_subset[of c "window (jb_framelist jb)"] by auto
    show "disc_upto (jb_discard_ref jb) (fl_origin (jb_framelist jb)) (window (jb_framelist jb)) \<Longrightarrow>
        disc_upto (jb_discard_ref jb) (fl_origin fl') (window fl')"
      unfolding r(3,4) using assms(2) by (intro disc_upto_drop) simp_all
  qed (use jb_wfD[OF assms(1)] r s assms(2) in auto)
  then show ?thesis using r by blast
qed

section \<open>The discard algorithms keep it\<close>

lemma discard_T_bound: "discard_T b \<le> 10000"
proof -
  have "8000 * (b - 1) div 99 \<le> 8000" if "b < 100"
    using that by (intro order_trans[OF div_le_mono[of "8000 * (b - 1)" "8000 * 99" 99]]) auto
  then show ?thesis by (simp add: discard_T_def)
qed

lemma discard_static_wf:
  assumes "jb_wf jb" and "jb_discard_algo jb = DISCARD_STATIC"
  shows "jb_wf (jbuf_discard_static jb)"
proof -
  let ?fl = "jb_framelist jb"
  define jb1 where "jb1 = (if fl_origin ?fl < jb_discard_ref jb then jb\<lparr>jb_discard_ref := fl_origin ?fl\<rparr> else jb)"
  have nodisc: "Discarded \<notin> set (window ?fl)" using assms jb_wfD by auto
  have any: "disc_upto r o' w" if "Discarded \<notin> set w" for r o' w
    using that nth_mem by (fastforce simp: disc_upto_def)
  have wf1: "jb_wf jb1"
    using assms(1) nodisc any by (auto simp: jb1_def jb_wf_def Let_def)
  have same: "jb_framelist jb1 = ?fl" by (simp add: jb1_def)
  obtain c fl' where r: "jb_framelist_remove_head (jb_framelist jb1) 1 = (c, fl')" "jb_wf (jb1\<lparr>jb_framelist := fl'\<rparr>)"
    "window fl' = drop c (window ?fl)"
    using jb_wf_remove[OF wf1 refl, of 1] same by auto
  have "Discarded \<notin> set (window fl')" using nodisc r(3) set_drop_subset[of c "window ?fl"] by auto
  then have "jb_wf (jb1\<lparr>jb_framelist := fl', jb_discard_ref := fl_origin fl', jb_discard := x\<rparr>)" for x
    using r(2) any by (auto simp: jb_wf_def Let_def)
  then show ?thesis
    using assms wf1 r(1)
    by (auto simp: jbuf_discard_static_def Let_def jb_framelist_origin_def jb1_def[symmetric] split: prod.split)
qed

lemma drop_cong_len: "c = min n (length w) \<Longrightarrow> drop c w = drop n w"
  by (simp add: min_def)

text \<open>What the discard algorithms leave alone, and what they may do to the window.\<close>

definition discard_effect :: "pjmedia_jbuf \<Rightarrow> pjmedia_jbuf \<Rightarrow> bool" where
  "discard_effect jb jb' \<longleftrightarrow>
     (let fl = jb_framelist jb; fl' = jb_framelist jb'
      in (fl_origin fl', window fl') = (fl_origin fl, window fl) \<or>
         (jb_discard_algo jb = DISCARD_STATIC \<and>
            (fl_origin fl', window fl') = (fl_origin fl + int (min 1 (fl_size fl)), drop 1 (window fl))) \<or>
         (jb_discard_algo jb = DISCARD_PROGRESSIVE \<and> fl_origin fl' = fl_origin fl \<and>
            (\<exists>d<fl_size fl. window fl' = (window fl)[d := Discarded])))"

definition config :: "pjmedia_jbuf \<Rightarrow> _" where
  "config jb = ((jb_max_count jb, jb_frame_size jb, jb_discard_algo jb), (jb_prefetch jb, jb_prefetching jb,
     jb_min_prefetch jb, jb_max_prefetch jb, jb_init_prefetch jb), (jb_eff_level jb, jb_level jb,
     jb_max_hist_level jb, jb_max_burst jb), jb_status jb, jb_last_op jb)"

abbreviation same_config :: "pjmedia_jbuf \<Rightarrow> pjmedia_jbuf \<Rightarrow> bool" where
  "same_config jb jb' \<equiv> config jb' = config jb"

lemma config_upd:
  "config (jb\<lparr>jb_framelist := f\<rparr>) = config jb" "config (jb\<lparr>jb_discard_ref := x\<rparr>) = config jb"
  "config (jb\<lparr>jb_discard_dist := n\<rparr>) = config jb" "config (jb\<lparr>jb_discard := n\<rparr>) = config jb"
  by (simp_all add: config_def)

lemma discard_static_effect:
  assumes "jb_wf jb" and "jb_discard_algo jb = DISCARD_STATIC"
  shows "discard_effect jb (jbuf_discard_static jb)"
proof -
  let ?fl = "jb_framelist jb"
  obtain c fl' where r: "jb_framelist_remove_head ?fl 1 = (c, fl')" "c = min 1 (fl_size ?fl)"
    "window fl' = drop c (window ?fl)" "fl_origin fl' = fl_origin ?fl + int c"
    using jb_wf_remove[OF assms(1) refl, of 1] by auto
  have "drop c (window ?fl) = drop 1 (window ?fl)"
    using r(2) by (intro drop_cong_len) (simp add: min_def)
  then show ?thesis
    using assms(2) r
    by (auto simp: jbuf_discard_static_def Let_def jb_framelist_origin_def discard_effect_def split: prod.split)
qed

lemma discard_static_config: "same_config jb (jbuf_discard_static jb)"
  by (simp only: jbuf_discard_static_def Let_def if_distrib[of config] config_upd if_cancel split: prod.split)
    simp

text \<open>
  The progressive algorithm: with a distance of at least one frame between discards, the slot it
  chooses is beyond the reference, so it was not discarded before.
\<close>

lemma discard_progressive_step:
  assumes "jb_wf jb" and "jb_discard_algo jb = DISCARD_PROGRESSIVE"
  shows "jb_wf (jbuf_discard_progressive jb) \<and> discard_effect jb (jbuf_discard_progressive jb)"
proof -
  let ?fl = "jb_framelist jb"
  let ?cur = "jb_framelist_eff_size ?fl"
  let ?burst = "u32 (PJ_MAX (jb_eff_level jb) (jb_level jb))"
  note W = jb_wfD[OF assms(1)]
  have idle: "discard_effect jb x" if "jb_framelist x = ?fl" for x
    using that by (simp add: discard_effect_def)
  define last where "last = s32 (u32 (jb_framelist_origin ?fl + int (jb_framelist_size ?fl) - 1))"
  have last: "last = fl_origin ?fl + int (fl_size ?fl) - 1"
    using W by (simp add: last_def jb_framelist_origin_def jb_framelist_size_def s32_u32_id)
  define dd where "dd = u32 (int (discard_T ?burst) * int (jb_frame_ptime_denum jb)) div (?cur - ?burst) div jb_frame_ptime jb"
  have "int (discard_T ?burst) * int (jb_frame_ptime_denum jb) \<le> 10000 * 1000"
    using W discard_T_bound[of ?burst] by (intro mult_mono) auto
  then have "u32 (int (discard_T ?burst) * int (jb_frame_ptime_denum jb)) \<le> 10000000" by simp
  then have dd: "dd \<le> 10000000" unfolding dd_def by (meson div_le_dividend order_trans)
  define ref where "ref = (if jb_discard_dist jb = 0 \<or> last < jb_discard_ref jb then last else jb_discard_ref jb)"
  define dist where "dist = max (jb_min_shrink_gap jb) (int dd)"
  have dist0: "0 < dist" "dist < 2 ^ 29"
    using W dd by (auto simp: dist_def less_max_iff_disj)
  then have dist: "0 < dist" "dist < 2 ^ 29" "u32 dist = nat dist" "s32 (nat dist) = dist" by simp_all
  have ref: "ref \<le> 2 ^ 30" "- (2 ^ 29) - 1 \<le> ref" using W last by (auto simp: ref_def)
  have upto: "disc_upto ref (fl_origin ?fl) (window ?fl)"
    using W last disc_upto_last[of "fl_origin ?fl" "window ?fl" last] by (auto simp: ref_def)
  define jb2 where "jb2 = jb\<lparr>jb_discard_ref := ref, jb_discard_dist := nat dist\<rparr>"
  have wf2: "jb_wf jb2" using W upto ref dist by (auto simp: jb2_def jb_wf_def Let_def assms(2))
  define seq where "seq = max (ref + dist) (fl_origin ?fl)"
  have seq: "s32 (u32 (ref + dist)) = ref + dist" using ref dist by (intro s32_u32_id) auto
  show ?thesis
  proof (cases "jb_last_op jb \<noteq> JB_OP_PUT \<or> ?cur \<le> ?burst")
    case True
    then have "jbuf_discard_progressive jb = jb \<or> jbuf_discard_progressive jb = jb\<lparr>jb_discard_dist := 0\<rparr>"
      by (auto simp: jbuf_discard_progressive_def Let_def)
    moreover have "jb_wf (jb\<lparr>jb_discard_dist := 0\<rparr>)" using assms(1) by (auto simp: jb_wf_def Let_def)
    ultimately show ?thesis using assms(1) idle by auto
  next
    case False
    define jb1 where "jb1 = (if jb_discard_dist jb = 0 then jb\<lparr>jb_discard_ref := last\<rparr>
                      else if last < jb_discard_ref jb then jb\<lparr>jb_discard_ref := last\<rparr> else jb)"
    have "u32 (PJ_MAX (jb_min_shrink_gap jb1) (s32 dd)) = nat dist"
      using dd dist(3) by (simp add: jb1_def dist_def)
    then have two: "jb1\<lparr>jb_discard_dist := u32 (PJ_MAX (jb_min_shrink_gap jb1) (s32 dd))\<rparr> = jb2"
      by (auto simp: jb2_def jb1_def ref_def)
    have sel: "jb_discard_ref jb2 = ref" "s32 (jb_discard_dist jb2) = dist" "int (jb_discard_dist jb2) = dist"
      "jb_framelist jb2 = ?fl"
      using dist by (simp_all add: jb2_def)
    have pick: "(if ref + dist < fl_origin ?fl then fl_origin ?fl else ref + dist) = seq" by (simp add: seq_def)
    have code: "jbuf_discard_progressive jb =
        (if last \<ge> ref + dist
         then jb2\<lparr>jb_framelist := snd (jb_framelist_discard ?fl seq), jb_discard_ref := seq\<rparr> else jb2)"
      using False
      unfolding jbuf_discard_progressive_def Let_def
      unfolding last_def[symmetric] dd_def[symmetric]
      unfolding jb1_def[symmetric]
      unfolding two
      unfolding sel seq jb_framelist_origin_def
      unfolding pick by simp
    show ?thesis
    proof (cases "last \<ge> ref + dist")
      case fire: True
      define d where "d = nat (seq - fl_origin ?fl)"
      have pos: "fl_size ?fl \<noteq> 0"
        using False W eff_size[of ?fl] by (auto simp: not_le)
      have rng: "fl_origin ?fl \<le> seq" "seq < fl_origin ?fl + int (fl_size ?fl)" "ref < seq"
        using fire last dist pos by (auto simp: seq_def)
      have d: "int d = seq - fl_origin ?fl" "d < length (window ?fl)" using rng by (simp_all add: d_def window_length nat_less_iff)
      have fresh: "window ?fl ! d \<noteq> Discarded"
      proof
        assume "window ?fl ! d = Discarded"
        then have "fl_origin ?fl + int d \<le> ref" using upto[unfolded disc_upto_def, rule_format, OF d(2)] by blast
        then show False using d(1) rng(3) by simp
      qed
      obtain fl' where fl': "jb_framelist_discard ?fl seq = (PJ_SUCCESS, fl')" "fl_inv fl'"
        "window fl' = (window ?fl)[d := Discarded]" "fl_origin fl' = fl_origin ?fl"
        "fl_max_count fl' = fl_max_count ?fl" "fl_frame_size fl' = fl_frame_size ?fl"
        using discard_refines[of ?fl seq] W rng fresh unfolding d_def by blast
      have sz: "fl_size fl' = fl_size ?fl" using arg_cong[OF fl'(3), of length] by simp
      have "disc_upto seq (fl_origin fl') (window fl')"
      proof (rule disc_uptoI)
        fix i
        assume "i < length (window fl')" "window fl' ! i = Discarded"
        then have "i = d \<or> window ?fl ! i = Discarded \<and> i < fl_size ?fl"
          unfolding fl'(3) by (cases "i = d") simp_all
        then show "fl_origin fl' + int i \<le> seq"
          using upto rng fl'(4) by (auto simp: disc_upto_def d_def)
      qed
      then have "jb_wf (jb2\<lparr>jb_framelist := fl', jb_discard_ref := seq\<rparr>)"
        using wf2 fl' sz rng(1,2) assms(2) W unfolding jb_wf_def Let_def
        by (simp add: jb2_def)
      moreover have "discard_effect jb (jb2\<lparr>jb_framelist := fl', jb_discard_ref := seq\<rparr>)"
      proof -
        have "d < fl_size ?fl" using rng by (simp add: d_def nat_less_iff)
        then show ?thesis using fl'(3,4) assms(2) by (auto simp: discard_effect_def Let_def)
      qed
      ultimately show ?thesis using code fire fl'(1) by simp
    qed (use code wf2 idle in \<open>simp add: jb2_def\<close>)
  qed
qed

lemma discard_progressive_config: "same_config jb (jbuf_discard_progressive jb)"
  by (simp only: jbuf_discard_progressive_def Let_def if_distrib[of config] config_upd if_cancel)

lemma run_discard_step:
  assumes "jb_wf jb"
  shows "jb_wf (run_discard jb) \<and> discard_effect jb (run_discard jb) \<and> same_config jb (run_discard jb)"
proof (cases "jb_discard_algo jb")
  case DISCARD_NONE
  then show ?thesis using assms by (simp add: run_discard_def discard_effect_def)
next
  case DISCARD_STATIC
  then show ?thesis using discard_static_wf discard_static_effect discard_static_config assms
    by (simp add: run_discard_def)
next
  case DISCARD_PROGRESSIVE
  then show ?thesis using discard_progressive_step discard_progressive_config assms
    by (simp add: run_discard_def)
qed

section \<open>The burst level and the prefetch\<close>

definition levels_ok :: "pjmedia_jbuf \<Rightarrow> bool" where
  "levels_ok jb \<longleftrightarrow> 0 \<le> jb_level jb \<and> 0 \<le> jb_max_hist_level jb \<and> 0 \<le> jb_max_burst jb \<and>
     0 \<le> jb_eff_level jb \<and> jb_eff_level jb \<le> int (jb_max_count jb * 4 div 5) \<and>
     jb_min_prefetch jb \<le> jb_max_prefetch jb \<and>
     jb_min_prefetch jb \<le> jb_prefetch jb \<and> jb_prefetch jb \<le> jb_max_prefetch jb"

lemma levels_ok_config: "config jb' = config jb \<Longrightarrow> levels_ok jb' \<longleftrightarrow> levels_ok jb"
  by (simp add: config_def levels_ok_def)

definition clamp :: "int \<Rightarrow> int \<Rightarrow> int \<Rightarrow> int" where
  "clamp lo hi x = max lo (min hi x)"

text \<open>The measurement, as one function of the level, its recent maximum, and the effective level.\<close>

lemma calculate_jitter_eff:
  assumes "jb_max_count jb < 2 ^ 28"
  shows "jb_eff_level (jbuf_calculate_jitter jb) =
    (let hist = max (jb_max_hist_level jb) (jb_level jb)
     in if jb_level jb < jb_eff_level jb \<and> jb_stable_hist jb \<ge> 20
        then jb_eff_level jb - max 1 (cdiv (jb_eff_level jb - hist) 3)
        else if jb_level jb > jb_eff_level jb then min hist (int (jb_max_count jb * 4 div 5))
        else jb_eff_level jb)"
  using assms by (simp add: jbuf_calculate_jitter_def Let_def max_def)

lemma calculate_jitter_prefetch:
  assumes "jb_min_prefetch jb \<le> jb_max_prefetch jb"
  shows "jb_prefetch (jbuf_calculate_jitter jb) =
    (if jb_init_prefetch jb \<noteq> 0 \<and>
        (jb_level jb < jb_eff_level jb \<and> jb_stable_hist jb \<ge> 20 \<or> jb_level jb > jb_eff_level jb)
     then clamp (jb_min_prefetch jb) (jb_max_prefetch jb) (jb_eff_level (jbuf_calculate_jitter jb))
     else jb_prefetch jb)"
  using assms by (simp add: jbuf_calculate_jitter_def Let_def clamp_def max_def min_def del: cdiv_nonneg)

lemma calculate_jitter_others:
  "jb_level (jbuf_calculate_jitter jb) = jb_level jb" "jb_max_burst (jbuf_calculate_jitter jb) = jb_max_burst jb"
  "jb_min_prefetch (jbuf_calculate_jitter jb) = jb_min_prefetch jb"
  "jb_max_prefetch (jbuf_calculate_jitter jb) = jb_max_prefetch jb"
  "core (jbuf_calculate_jitter jb) = core jb"
  "jb_prefetching (jbuf_calculate_jitter jb) = jb_prefetching jb"
  by (simp_all add: jbuf_calculate_jitter_def Let_def core_def)

lemma calculate_jitter_hist:
  "0 \<le> jb_max_hist_level jb \<Longrightarrow> 0 \<le> jb_max_hist_level (jbuf_calculate_jitter jb)"
  by (simp add: jbuf_calculate_jitter_def Let_def max_def)

lemma cdiv_nonpos: "a \<le> 0 \<Longrightarrow> 0 < b \<Longrightarrow> cdiv a b \<le> 0"
  by (auto simp: cdiv_def pos_imp_zdiv_nonneg_iff)

lemma calculate_jitter_eff_range:
  assumes "levels_ok jb" and "jb_max_count jb < 2 ^ 28"
  shows "0 \<le> jb_eff_level (jbuf_calculate_jitter jb) \<and>
    jb_eff_level (jbuf_calculate_jitter jb) \<le> int (jb_max_count jb * 4 div 5)"
proof -
  let ?h = "max (jb_max_hist_level jb) (jb_level jb)"
  have L: "0 \<le> jb_level jb" "0 \<le> jb_max_hist_level jb" "0 \<le> jb_eff_level jb"
    "jb_eff_level jb \<le> int (jb_max_count jb * 4 div 5)"
    using assms(1) by (simp_all add: levels_ok_def)
  have c: "cdiv (jb_eff_level jb - ?h) 3 \<le> jb_eff_level jb" if "jb_level jb < jb_eff_level jb"
  proof (cases "jb_eff_level jb \<ge> ?h")
    case True
    then have "cdiv (jb_eff_level jb - ?h) 3 = (jb_eff_level jb - ?h) div 3" by simp
    also have "\<dots> \<le> jb_eff_level jb" using L by linarith
    finally show ?thesis .
  next
    case False
    then have "cdiv (jb_eff_level jb - ?h) 3 \<le> 0" by (intro cdiv_nonpos) auto
    then show ?thesis using L by linarith
  qed
  show ?thesis unfolding calculate_jitter_eff[OF assms(2)] Let_def
    using L c by auto
qed

lemma calculate_jitter_levels:
  assumes "levels_ok jb" and "jb_max_count jb < 2 ^ 28"
  shows "levels_ok (jbuf_calculate_jitter jb)"
proof -
  have "jb_max_count (jbuf_calculate_jitter jb) = jb_max_count jb"
    using calculate_jitter_others(5)[of jb] by (simp add: core_def)
  then show ?thesis
    using assms calculate_jitter_eff_range[OF assms] calculate_jitter_hist[of jb] calculate_jitter_prefetch[of jb]
    by (auto simp: levels_ok_def calculate_jitter_others clamp_def)
qed

section \<open>Updating after an operation\<close>

lemma switch_op_keeps:
  "core (fst (jbuf_switch_op jb oper)) = core jb"
  "jb_prefetching (fst (jbuf_switch_op jb oper)) = jb_prefetching jb"
  by (simp_all add: jbuf_switch_op_def Let_def if_distrib[of core] core_upd calculate_jitter_others
    calculate_jitter_others(6) split: prod.split)

lemma levels_ok_upd:
  "levels_ok (jb\<lparr>jb_last_op := oper\<rparr>) = levels_ok jb" "levels_ok (jb\<lparr>jb_init_cycle_cnt := x\<rparr>) = levels_ok jb"
  "levels_ok (jb\<lparr>jb_status := stat\<rparr>) = levels_ok jb" "levels_ok (jb\<lparr>jb_prefetching := b\<rparr>) = levels_ok jb"
  "levels_ok (jb\<lparr>jb_delay := m\<rparr>) = levels_ok jb" "levels_ok (jb\<lparr>jb_lost := n\<rparr>) = levels_ok jb"
  "levels_ok (jb\<lparr>jb_discard := n\<rparr>) = levels_ok jb" "levels_ok (jb\<lparr>jb_empty := n\<rparr>) = levels_ok jb"
  "levels_ok (jb\<lparr>jb_framelist := f\<rparr>) = levels_ok jb"
  by (simp_all add: levels_ok_def)

lemma levels_ok_level: "levels_ok jb \<Longrightarrow> 0 \<le> x \<Longrightarrow> levels_ok (jb\<lparr>jb_level := x\<rparr>)"
  by (simp add: levels_ok_def)

lemma switch_op_levels:
  assumes "levels_ok jb" and "jb_max_count jb < 2 ^ 28"
  shows "levels_ok (fst (jbuf_switch_op jb oper))"
proof -
  have jitter: "levels_ok (jbuf_calculate_jitter x)"
    if "levels_ok x" "jb_max_count x = jb_max_count jb" for x
    using calculate_jitter_levels[of x] that assms(2) by simp
  have zero: "levels_ok (x\<lparr>jb_level := 0\<rparr>)" if "levels_ok x" for x
    using that levels_ok_level by simp
  have "0 \<le> min (jb_level jb) (jb_max_burst jb)" using assms(1) by (simp add: levels_ok_def)
  then show ?thesis
    using assms(1) unfolding jbuf_switch_op_def Let_def
    by (auto intro!: jitter zero levels_ok_level simp: levels_ok_upd)
qed

definition step_ok :: "pjmedia_jbuf \<Rightarrow> pjmedia_jbuf \<Rightarrow> bool" where
  "step_ok jb jb' \<longleftrightarrow> jb_wf jb' \<and> levels_ok jb' \<and> jb_discard_algo jb' = jb_discard_algo jb \<and>
     jb_max_count jb' = jb_max_count jb \<and> jb_frame_size jb' = jb_frame_size jb"

lemma update_step:
  assumes "jb_wf jb" and "levels_ok jb"
  shows "step_ok jb (jbuf_update jb oper) \<and> discard_effect jb (jbuf_update jb oper) \<and>
    jb_prefetching (jbuf_update jb oper) = jb_prefetching jb"
proof -
  obtain jb1 early where sw: "jbuf_switch_op jb oper = (jb1, early)" by fastforce
  have c: "core jb1 = core jb" and p: "jb_prefetching jb1 = jb_prefetching jb"
    using switch_op_keeps[of jb oper] sw by simp_all
  have wf: "jb_wf jb1" using jb_wf_cong[OF c] assms(1) by simp
  have "jb_max_count jb < 2 ^ 28" using assms(1) by (simp add: jb_wf_def Let_def)
  then have lv: "levels_ok jb1" using switch_op_levels[OF assms(2), of oper] sw by simp
  have eff: "discard_effect jb x" if "discard_effect jb1 x" for x
    using that c by (simp add: discard_effect_def core_def)
  have same: "jb_discard_algo jb1 = jb_discard_algo jb" "jb_max_count jb1 = jb_max_count jb"
    "jb_frame_size jb1 = jb_frame_size jb" using c by (simp_all add: core_def)
  note R = run_discard_step[OF wf]
  have cfg: "jb_discard_algo (run_discard jb1) = jb_discard_algo jb1" "jb_max_count (run_discard jb1) = jb_max_count jb1"
    "jb_frame_size (run_discard jb1) = jb_frame_size jb1" "jb_prefetching (run_discard jb1) = jb_prefetching jb1"
    "levels_ok (run_discard jb1)"
    using R lv levels_ok_config[of "run_discard jb1" jb1] by (simp_all add: config_def)
  have "discard_effect jb1 jb1" by (simp add: discard_effect_def)
  then show ?thesis
    using sw wf lv same p R cfg eff by (simp add: jbuf_update_def step_ok_def)
qed

section \<open>Putting\<close>

lemma put_once:
  assumes "jb_wf jb" and "0 \<le> seq" and "seq < 2 ^ 30" and "n \<le> length frame" and "n \<le> jb_frame_size jb"
    and "jb_framelist_put_at (jb_framelist jb) seq frame n bits ts NORMAL_FRAME = (st, fl')"
  shows "jb_wf (jb\<lparr>jb_framelist := fl'\<rparr>)"
    and "put_spec (jb_max_count jb) seq (Frame (take n frame) bits ts) (fl_origin (jb_framelist jb))
      (window (jb_framelist jb)) = (st, fl_origin fl', window fl')"
    and "fl_inv fl'" and "fl_max_count fl' = jb_max_count jb" and "fl_frame_size fl' = jb_frame_size jb"
proof -
  let ?fl = "jb_framelist jb"
  note W = jb_wfD[OF assms(1)]
  obtain s' where p: "(st, fl') = (fst (put_spec (fl_max_count ?fl) seq (Frame (take n frame) bits ts) (fl_origin ?fl) (window ?fl)), s')"
    "(fl_origin s', window s') = snd (put_spec (fl_max_count ?fl) seq (Frame (take n frame) bits ts) (fl_origin ?fl) (window ?fl))"
    "fl_inv s'" "fl_max_count s' = fl_max_count ?fl" "fl_frame_size s' = fl_frame_size ?fl"
    using flist.put_law[of ?fl n frame seq bits ts] W assms(2-6) by auto
  then show spec: "put_spec (jb_max_count jb) seq (Frame (take n frame) bits ts) (fl_origin ?fl) (window ?fl) =
      (st, fl_origin fl', window fl')"
    using W by (metis Pair_inject prod.collapse)
  show inv: "fl_inv fl'" "fl_max_count fl' = jb_max_count jb" "fl_frame_size fl' = jb_frame_size jb"
    using p W by auto
  have len: "length (window ?fl) \<le> jb_max_count jb" "0 < jb_max_count jb"
    using flist.within[of ?fl] W by auto
  note K = put_spec_keeps[OF spec len assms(2)]
  show "jb_wf (jb\<lparr>jb_framelist := fl'\<rparr>)"
  proof (rule jb_wf_framelist[OF assms(1) inv])
    show "disc_upto (jb_discard_ref jb) (fl_origin ?fl) (window ?fl) \<Longrightarrow> disc_upto (jb_discard_ref jb) (fl_origin fl') (window fl')"
      using K(1) by simp
    show "Discarded \<in> set (window fl') \<Longrightarrow> Discarded \<in> set (window ?fl)" using K(4) by auto
  qed (use K(2,3) W assms(3) in auto)
qed

text \<open>The first attempt, and the loop that makes room: it runs at most once.\<close>

lemma put_attempts:
  assumes "jb_wf jb" and "0 \<le> seq" and "seq < 2 ^ 30" and "n \<le> length frame" and "n \<le> jb_frame_size jb"
  defines "w \<equiv> window (jb_framelist jb)" and "o1 \<equiv> fl_origin (jb_framelist jb)"
  assumes "jb_framelist_put_at (jb_framelist jb) seq frame n bits ts NORMAL_FRAME = (st0, fl0)"
  shows "\<exists>fl1 st c. put_retry (jb\<lparr>jb_framelist := fl0\<rparr>) frame n bits seq ts st0 =
      Some (jb\<lparr>jb_framelist := fl1, jb_discard := c\<rparr>, st) \<and>
    jb_wf (jb\<lparr>jb_framelist := fl1, jb_discard := c\<rparr>) \<and>
    (if late_or_taken seq o1 w then st \<noteq> PJ_SUCCESS \<and> window fl1 = w \<and> fl_origin fl1 = o1
     else st = PJ_SUCCESS \<and> fl_origin fl1 \<le> seq \<and> seq < fl_origin fl1 + int (fl_size fl1) \<and>
       window fl1 ! nat (seq - fl_origin fl1) = Frame (take n frame) bits ts) \<and>
    set (window fl1) \<subseteq> insert (Frame (take n frame) bits ts) (insert Missing (set w)) \<and>
    (o1 - 99 \<le> seq \<longrightarrow> carries seq (take n frame) o1 w (fl_origin fl1) (window fl1))"
proof -
  let ?f = "Frame (take n frame) bits ts"
  note P = put_once[OF assms(1-5) assms(8)]
  have cap: "length w \<le> jb_max_count jb" "0 < jb_max_count jb"
    using flist.within[of "jb_framelist jb"] jb_wfD[OF assms(1)] by (auto simp: w_def)
  note turned = put_spec_turned_down[OF P(2)[folded w_def o1_def] cap]
  have sub: "set (window fl0) \<subseteq> insert ?f (insert Missing (set w))"
    using put_spec_keeps(4)[OF P(2)[folded w_def o1_def] cap assms(2)] by simp
  have car: "carries seq (take n frame) o1 w (fl_origin fl0) (window fl0)" if "o1 - 99 \<le> seq"
    using put_spec_carries[OF P(2)[folded w_def o1_def] that] .
  have same: "jb\<lparr>jb_framelist := fl0, jb_discard := jb_discard jb\<rparr> = jb\<lparr>jb_framelist := fl0\<rparr>" by simp
  have put: "fl_origin fl1 \<le> seq \<and> seq < fl_origin fl1 + int (fl_size fl1) \<and> window fl1 ! nat (seq - fl_origin fl1) = ?f"
    if "put_spec c seq ?f o' w' = (PJ_SUCCESS, fl_origin fl1, window fl1)" "0 < c" for c o' w' fl1
    using put_spec_success[OF that] by simp
  show ?thesis
  proof (cases "st0 = PJ_ETOOMANY")
    case False
    then have r: "put_retry (jb\<lparr>jb_framelist := fl0\<rparr>) frame n bits seq ts st0 =
        Some (jb\<lparr>jb_framelist := fl0, jb_discard := jb_discard jb\<rparr>, st0)"
      unfolding same by (subst put_retry.simps) simp
    have "st0 = PJ_SUCCESS \<longleftrightarrow> \<not> late_or_taken seq o1 w" using turned(1) False by blast
    then have "if late_or_taken seq o1 w then st0 \<noteq> PJ_SUCCESS \<and> window fl0 = w \<and> fl_origin fl0 = o1
        else st0 = PJ_SUCCESS \<and> fl_origin fl0 \<le> seq \<and> seq < fl_origin fl0 + int (fl_size fl0) \<and>
          window fl0 ! nat (seq - fl_origin fl0) = ?f"
      using turned(2) put[OF _ cap(2), of o1 w fl0] P(2)[folded w_def o1_def] by auto
    then show ?thesis
      by (intro exI[of _ fl0] exI[of _ st0] exI[of _ "jb_discard jb"] conjI)
        (use r P(1) sub car in \<open>simp_all add: same\<close>)
  next
    case True
    have notlate: "\<not> late_or_taken seq o1 w" using turned(1) True by auto
    define d where "d = seq - fl_origin fl0 - int (fl_max_count fl0) + 1"
    obtain c s2 s3 where R: "0 < d" "jb_framelist_remove_head fl0 (nat d) = (c, s2)"
      "jb_framelist_put_at s2 seq frame n bits ts NORMAL_FRAME = (PJ_SUCCESS, s3)" "window s2 = drop c w"
      "fl_origin s2 = fl_origin fl0 + int c" "window fl0 = w"
      using flist.retry_succeeds[of "jb_framelist jb" n frame seq bits ts fl0 d] assms(1-5) jb_wfD[OF assms(1)]
        assms(8) True d_def by (auto simp: w_def)
    let ?dist = "(seq - jb_framelist_origin fl0) - s32 (u32 (int (jb_max_count jb))) + 1"
    have "?dist = d" "u32 d = nat d"
      using jb_wfD[OF assms(1)] jb_wfD[OF P(1)] R(1) assms(3) P(4)
      by (auto simp: d_def jb_framelist_origin_def)
    then have r: "put_retry (jb\<lparr>jb_framelist := fl0\<rparr>) frame n bits seq ts st0 =
        Some (jb\<lparr>jb_framelist := s3, jb_discard := u32 (int (jb_discard jb) + int c)\<rparr>, PJ_SUCCESS)"
      using True R by (subst put_retry.simps) (simp, subst put_retry.simps, simp)
    have wf2: "jb_wf (jb\<lparr>jb_framelist := s2\<rparr>)"
      using jb_wf_remove[OF P(1) refl, of "nat d"] R(2) by auto
    have "jb_framelist_put_at (jb_framelist (jb\<lparr>jb_framelist := s2\<rparr>)) seq frame n bits ts NORMAL_FRAME = (PJ_SUCCESS, s3)"
      using R by simp
    note Q = put_once[OF wf2 assms(2,3,4) _ this]
    have fs: "n \<le> jb_frame_size (jb\<lparr>jb_framelist := s2\<rparr>)" using assms(5) by simp
    have wf3: "jb_wf (jb\<lparr>jb_framelist := s3\<rparr>)" using Q(1)[OF fs] by simp
    have wf4: "jb_wf (jb\<lparr>jb_framelist := s3, jb_discard := x\<rparr>)" for x
      using wf3 jb_wf_cong[OF core_upd(13)] by blast
    have len: "length (drop c w) \<le> jb_max_count jb" using cap by simp
    have sp: "put_spec (jb_max_count jb) seq ?f (fl_origin s2) (drop c w) = (PJ_SUCCESS, fl_origin s3, window s3)"
      using Q(2)[OF fs] R(4) by simp
    have "set (window s3) \<subseteq> insert ?f (insert Missing (set (drop c w)))"
      using put_spec_keeps(4)[OF sp len cap(2) assms(2)] by simp
    then have "set (window s3) \<subseteq> insert ?f (insert Missing (set w))"
      using set_drop_subset[of c w] by blast
    moreover have "carries seq (take n frame) o1 w (fl_origin s3) (window s3)" if "o1 - 99 \<le> seq"
    proof -
      have c: "c \<le> length w"
        using jb_wf_remove[OF P(1) refl, of "nat d"] R(2,6) window_length[of fl0] by auto
      then have "fl_origin s2 - 99 \<le> seq" using R(1,5) cap P(4) by (simp add: d_def)
      from put_spec_carries[OF sp this] have "carries seq (take n frame) (fl_origin s2) (drop c w) (fl_origin s3) (window s3)" .
      moreover have "carries seq (take n frame) (fl_origin fl0) w (fl_origin s2) (drop c w)"
        using carries_drop[OF c] R(5) by simp
      ultimately show ?thesis using car[OF that] R(6) carries_trans by metis
    qed
    ultimately show ?thesis using r wf4 notlate put[OF sp cap(2)] by auto
  qed
qed

lemma discard_effect_all_frames:
  assumes "discard_effect jb jb'" and "all_frames Q (fl_origin (jb_framelist jb)) (window (jb_framelist jb))"
  shows "all_frames Q (fl_origin (jb_framelist jb')) (window (jb_framelist jb'))"
    and "fl_origin (jb_framelist jb) \<le> fl_origin (jb_framelist jb')"
proof -
  let ?fl = "jb_framelist jb"
  have d1: "drop (min (Suc 0) (fl_size ?fl)) (window ?fl) = drop (Suc 0) (window ?fl)"
    by (intro drop_cong_len) simp
  show "all_frames Q (fl_origin (jb_framelist jb')) (window (jb_framelist jb'))"
    using assms all_frames_drop[OF assms(2), of "min 1 (fl_size ?fl)"] all_frames_upd[OF assms(2)] d1
    by (auto simp: discard_effect_def Let_def)
  show "fl_origin (jb_framelist jb) \<le> fl_origin (jb_framelist jb')"
    using assms(1) by (auto simp: discard_effect_def Let_def)
qed

lemma discard_effect_carries:
  "discard_effect jb jb' \<Longrightarrow> carries index b (fl_origin (jb_framelist jb)) (window (jb_framelist jb))
    (fl_origin (jb_framelist jb')) (window (jb_framelist jb'))"
proof -
  assume e: "discard_effect jb jb'"
  have "all_frames (\<lambda>_ _. True) o1 w" for o1 w by (simp add: all_frames_def)
  then have "fl_origin (jb_framelist jb) \<le> fl_origin (jb_framelist jb')"
    using discard_effect_all_frames(2)[OF e] by blast
  then show ?thesis using discard_effect_all_frames(1)[OF e] unfolding carries_def by blast
qed

text \<open>What is left, at number \<open>seq\<close>, of a frame just stored: the algorithm may have given it up.\<close>

definition kept_or_given_up :: "pjmedia_jbuf \<Rightarrow> int \<Rightarrow> jslot \<Rightarrow> bool" where
  "kept_or_given_up jb seq f \<longleftrightarrow>
     (let fl = jb_framelist jb
      in (seq < fl_origin fl \<and> jb_discard_algo jb = DISCARD_STATIC) \<or>
         (fl_origin fl \<le> seq \<and> seq < fl_origin fl + int (fl_size fl) \<and>
           (window fl ! nat (seq - fl_origin fl) = f \<or>
            window fl ! nat (seq - fl_origin fl) = Discarded \<and> jb_discard_algo jb = DISCARD_PROGRESSIVE)))"

lemma discard_effect_stored:
  assumes "discard_effect jb jb'" and "jb_discard_algo jb' = jb_discard_algo jb"
    and "fl_origin (jb_framelist jb) \<le> seq" and "seq < fl_origin (jb_framelist jb) + int (fl_size (jb_framelist jb))"
    and "window (jb_framelist jb) ! nat (seq - fl_origin (jb_framelist jb)) = f"
  shows "kept_or_given_up jb' seq f"
proof -
  let ?fl = "jb_framelist jb" and ?fl' = "jb_framelist jb'"
  have sz: "fl_size ?fl' = length (window ?fl')" by simp
  consider "(fl_origin ?fl', window ?fl') = (fl_origin ?fl, window ?fl)"
    | "jb_discard_algo jb = DISCARD_STATIC" "(fl_origin ?fl', window ?fl') = (fl_origin ?fl + 1, drop 1 (window ?fl))"
    | d where "jb_discard_algo jb = DISCARD_PROGRESSIVE" "fl_origin ?fl' = fl_origin ?fl" "window ?fl' = (window ?fl)[d := Discarded]"
    using assms(1,3,4) by (auto simp: discard_effect_def Let_def min_def)
  then show ?thesis
  proof cases
    case 1
    then show ?thesis using assms sz by (simp add: kept_or_given_up_def Let_def)
  next
    case 2
    show ?thesis
    proof (cases "seq = fl_origin ?fl")
      case True
      then show ?thesis using 2 assms(2) by (simp add: kept_or_given_up_def Let_def)
    next
      case False
      then have i: "fl_origin ?fl + 1 \<le> seq" "nat (seq - fl_origin ?fl) = Suc (nat (seq - (fl_origin ?fl + 1)))"
        using assms(3) by auto
      have "window ?fl' ! nat (seq - fl_origin ?fl') = f"
        using 2 assms(4,5) i by (simp del: window_nth)
      moreover have "seq < fl_origin ?fl' + int (fl_size ?fl')" using 2 assms(4) sz i(1) by simp
      ultimately show ?thesis using 2 i by (simp add: kept_or_given_up_def Let_def del: window_nth)
    qed
  next
    case 3
    have "nat (seq - fl_origin ?fl) < fl_size ?fl" using assms(3,4) by (simp add: nat_less_iff)
    then have "window ?fl' ! nat (seq - fl_origin ?fl) = (if nat (seq - fl_origin ?fl) = d then Discarded else f)"
      using 3(3) assms(5) by (simp add: list_update_in_range del: window_nth)
    then show ?thesis using 3 assms sz by (auto simp: kept_or_given_up_def Let_def simp del: window_nth)
  qed
qed

definition put_outcome :: "pjmedia_jbuf \<Rightarrow> byte list \<Rightarrow> nat \<Rightarrow> int \<Rightarrow> nat \<Rightarrow> pjmedia_jbuf \<Rightarrow> bool \<Rightarrow> bool" where
  "put_outcome jb frame bits seq ts jb' discarded \<longleftrightarrow>
     (let fl = jb_framelist jb; fl' = jb_framelist jb'; b = take (min (length frame) (jb_frame_size jb)) frame
      in step_ok jb jb' \<and> (discarded \<longleftrightarrow> late_or_taken seq (fl_origin fl) (window fl)) \<and>
         (if discarded then window fl' = window fl \<and> fl_origin fl' = fl_origin fl
          else kept_or_given_up jb' seq (Frame b bits ts)) \<and>
         (fl_origin fl - 99 \<le> seq \<longrightarrow> carries seq b (fl_origin fl) (window fl) (fl_origin fl') (window fl')))"

lemma put_frame3_outcome:
  assumes "jb_wf jb" and "levels_ok jb" and "0 \<le> seq" and "seq < 2 ^ 30"
  shows "\<exists>jb' discarded. pjmedia_jbuf_put_frame3 jb frame bits seq ts = Some (jb', discarded) \<and>
    put_outcome jb frame bits seq ts jb' discarded"
proof -
  let ?fl = "jb_framelist jb" and ?n = "min (length frame) (jb_frame_size jb)"
  let ?b = "take ?n frame"
  obtain st0 fl0 where p: "jb_framelist_put_at ?fl seq frame ?n bits ts NORMAL_FRAME = (st0, fl0)" by fastforce
  obtain fl1 st c where A: "put_retry (jb\<lparr>jb_framelist := fl0\<rparr>) frame ?n bits seq ts st0 =
      Some (jb\<lparr>jb_framelist := fl1, jb_discard := c\<rparr>, st)" "jb_wf (jb\<lparr>jb_framelist := fl1, jb_discard := c\<rparr>)"
    and B: "if late_or_taken seq (fl_origin ?fl) (window ?fl) then st \<noteq> PJ_SUCCESS \<and> window fl1 = window ?fl \<and> fl_origin fl1 = fl_origin ?fl
     else st = PJ_SUCCESS \<and> fl_origin fl1 \<le> seq \<and> seq < fl_origin fl1 + int (fl_size fl1) \<and>
       window fl1 ! nat (seq - fl_origin fl1) = Frame ?b bits ts"
    and C: "fl_origin ?fl - 99 \<le> seq \<longrightarrow> carries seq ?b (fl_origin ?fl) (window ?fl) (fl_origin fl1) (window fl1)"
    using put_attempts[OF assms(1,3,4) _ _ p] by auto
  let ?jb1 = "jb\<lparr>jb_framelist := fl1, jb_discard := c\<rparr>"
  show ?thesis
  proof (cases "late_or_taken seq (fl_origin ?fl) (window ?fl)")
    case True
    let ?jb' = "?jb1\<lparr>jb_discard := u32 (int c + 1)\<rparr>"
    have "jb_wf ?jb'" using A(2) jb_wf_cong[OF core_upd(13)] by blast
    then have "put_outcome jb frame bits seq ts ?jb' True"
      using True B C assms(2) by (simp add: put_outcome_def Let_def step_ok_def levels_ok_upd)
    moreover have "pjmedia_jbuf_put_frame3 jb frame bits seq ts = Some (?jb', True)"
      using True A(1) B p by (simp add: pjmedia_jbuf_put_frame3_def)
    ultimately show ?thesis by blast
  next
    case False
    define cur where "cur = s32 (jb_framelist_eff_size ?fl)"
    define new where "new = s32 (jb_framelist_eff_size fl1)"
    define jb2 where "jb2 = (if jb_prefetching ?jb1 \<and> new \<ge> jb_prefetch ?jb1 then ?jb1\<lparr>jb_prefetching := False\<rparr> else ?jb1)"
    define jb3 where "jb3 = jb2\<lparr>jb_level := jb_level jb2 + (if new > cur then new - cur else 1)\<rparr>"
    have core3: "core jb3 = core ?jb1" by (simp add: jb3_def jb2_def core_upd)
    have wf3: "jb_wf jb3" using A(2) jb_wf_cong[OF core3] by simp
    have lv2: "levels_ok jb2" using assms(2) by (simp add: jb2_def levels_ok_upd)
    then have lv3: "levels_ok jb3" unfolding jb3_def
      by (intro levels_ok_level) (auto simp: levels_ok_def)
    have fl3: "jb_framelist jb3 = fl1" "jb_discard_algo jb3 = jb_discard_algo jb" "jb_max_count jb3 = jb_max_count jb"
      "jb_frame_size jb3 = jb_frame_size jb" using core3 by (simp_all add: core_def)
    note U = update_step[OF wf3 lv3, of JB_OP_PUT]
    have algo: "jb_discard_algo (jbuf_update jb3 JB_OP_PUT) = jb_discard_algo jb3"
      using U by (simp add: step_ok_def)
    have "kept_or_given_up (jbuf_update jb3 JB_OP_PUT) seq (Frame ?b bits ts)"
      using discard_effect_stored[OF _ algo] U B False fl3 by auto
    moreover have "step_ok jb (jbuf_update jb3 JB_OP_PUT)" using U fl3 by (simp add: step_ok_def)
    ultimately have "put_outcome jb frame bits seq ts (jbuf_update jb3 JB_OP_PUT) False"
      using False C U fl3 discard_effect_carries[of jb3 "jbuf_update jb3 JB_OP_PUT" seq ?b]
      by (auto simp: put_outcome_def Let_def intro: carries_trans)
    moreover have "pjmedia_jbuf_put_frame3 jb frame bits seq ts = Some (jbuf_update jb3 JB_OP_PUT, False)"
      using False A(1) B p unfolding pjmedia_jbuf_put_frame3_def Let_def
      by (simp add: new_def cur_def jb2_def jb3_def)
    ultimately show ?thesis by blast
  qed
qed

section \<open>Getting\<close>

definition get_outcome ::
  "pjmedia_jbuf \<Rightarrow> nat option \<Rightarrow> pjmedia_jbuf \<Rightarrow> jb_frame_type \<Rightarrow> jb_got option \<Rightarrow> bool" where
  "get_outcome jb max_size jb' t g \<longleftrightarrow>
     (let fl = jb_framelist jb; fl' = jb_framelist jb'; w = window fl; k = skipped w
      in step_ok jb jb' \<and> fl_origin fl \<le> fl_origin fl' \<and>
         (\<forall>Q. all_frames Q (fl_origin fl) w \<longrightarrow> all_frames Q (fl_origin fl') (window fl')) \<and>
         (if jb_prefetching jb then t = ZERO_PREFETCH_FRAME \<and> g = None \<and> jb_prefetching jb'
          else if k = length w then t = ZERO_EMPTY_FRAME \<and> g = None \<and> window fl' = [] \<and>
            jb_prefetching jb' = (jb_prefetch jb \<noteq> 0)
          else \<exists>got. g = Some got \<and> got_seq got = fl_origin fl + int k \<and> got_seq got < fl_origin fl' \<and>
            (got_type got, got_frame got) = (if k = 0 then got_of max_size (hd w) else (MISSING_FRAME, [])) \<and>
            t = got_type got \<and> \<not> jb_prefetching jb'))"

lemma got_of_type: "fst (got_of m s) = NORMAL_FRAME \<or> fst (got_of m s) = MISSING_FRAME"
  by (simp add: got_of_def split: jslot.split)

lemma discard_effect_empty: "discard_effect jb jb' \<Longrightarrow> window (jb_framelist jb) = [] \<Longrightarrow> window (jb_framelist jb') = []"
  by (auto simp: discard_effect_def Let_def)

lemma get_finish:
  assumes "jb_wf jb" and "levels_ok jb"
  shows "step_ok jb (jbuf_update (jb\<lparr>jb_level := jb_level jb + 1\<rparr>) JB_OP_GET) \<and>
    discard_effect jb (jbuf_update (jb\<lparr>jb_level := jb_level jb + 1\<rparr>) JB_OP_GET) \<and>
    jb_prefetching (jbuf_update (jb\<lparr>jb_level := jb_level jb + 1\<rparr>) JB_OP_GET) = jb_prefetching jb"
proof -
  let ?jb = "jb\<lparr>jb_level := jb_level jb + 1\<rparr>"
  have "jb_wf ?jb" using assms(1) jb_wf_cong[OF core_upd(1)] by blast
  moreover have "levels_ok ?jb" using assms(2) by (simp add: levels_ok_def)
  ultimately show ?thesis
    using update_step[of ?jb JB_OP_GET] by (simp add: step_ok_def discard_effect_def)
qed

lemma get_frame3_outcome:
  assumes "jb_wf jb" and "levels_ok jb"
  shows "\<exists>jb' t g. pjmedia_jbuf_get_frame3 jb max_size = Some (jb', t, g) \<and> get_outcome jb max_size jb' t g"
proof -
  let ?fl = "jb_framelist jb"
  let ?w = "window ?fl" and ?k = "skipped (window ?fl)"
  let ?fin = "\<lambda>x. jbuf_update (x\<lparr>jb_level := jb_level x + 1\<rparr>) JB_OP_GET"
  note W = jb_wfD[OF assms(1)]
  have effect: "fl_origin (jb_framelist x) \<le> fl_origin (jb_framelist (?fin x)) \<and>
      (\<forall>Q. all_frames Q (fl_origin (jb_framelist x)) (window (jb_framelist x)) \<longrightarrow>
        all_frames Q (fl_origin (jb_framelist (?fin x))) (window (jb_framelist (?fin x))))"
    if "jb_wf x" "levels_ok x" for x
    using discard_effect_carries[of x "?fin x" 0 "[]"] discard_effect_all_frames(1)[of x "?fin x"] get_finish[OF that]
    by (auto simp: carries_def)
  show ?thesis
  proof (cases "jb_prefetching jb")
    case True
    let ?x = "jb\<lparr>jb_empty := u32 (int (jb_empty jb) + 1)\<rparr>"
    have x: "jb_wf ?x" "levels_ok ?x" using assms jb_wf_cong[OF core_upd(14)] levels_ok_upd(8) by blast+
    have "step_ok jb (?fin ?x)" using get_finish[OF x] by (simp add: step_ok_def)
    moreover have "jb_prefetching (?fin ?x)" using get_finish[OF x] True by simp
    ultimately have "get_outcome jb max_size (?fin ?x) ZERO_PREFETCH_FRAME None"
      using effect[OF x] True by (simp add: get_outcome_def Let_def)
    then show ?thesis using True by (simp add: pjmedia_jbuf_get_frame3_def)
  next
    case False
    obtain fl' got where G: "jb_framelist_get ?fl max_size = Some (fl', got)" "fl_inv fl'"
      "fl_max_count fl' = fl_max_count ?fl" "fl_frame_size fl' = fl_frame_size ?fl" "window fl' = drop (?k + 1) ?w"
      "fl_origin fl' = fl_origin ?fl + int (min (?k + 1) (length ?w))"
      and g: "if ?k = length ?w then got = None
       else \<exists>g. got = Some g \<and> got_seq g = fl_origin ?fl + int ?k \<and>
         (got_type g, got_frame g) = (if ?k = 0 then got_of max_size (hd ?w) else (MISSING_FRAME, []))"
      using get_refines[of ?fl max_size] W by auto
    have d: "drop (min (?k + 1) (length ?w)) ?w = window fl'" unfolding G(5) by (intro drop_cong_len) simp
    have sz: "fl_size fl' = fl_size ?fl - (?k + 1)" using arg_cong[OF G(5), of length] by simp
    have wf1: "jb_wf (jb\<lparr>jb_framelist := fl'\<rparr>)"
    proof (rule jb_wf_framelist[OF assms(1) G(2)])
      show "Discarded \<in> set (window fl') \<Longrightarrow> Discarded \<in> set ?w" unfolding G(5) by (meson in_set_dropD)
      show "disc_upto (jb_discard_ref jb) (fl_origin ?fl) ?w \<Longrightarrow> disc_upto (jb_discard_ref jb) (fl_origin fl') (window fl')"
        using disc_upto_drop[of _ "fl_origin ?fl" ?w "min (?k + 1) (length ?w)"] d G(6) by simp
    qed (use W G sz in auto)
    have old: "all_frames Q (fl_origin fl') (window fl')" if "all_frames Q (fl_origin ?fl) ?w" for Q
      using all_frames_drop[OF that, of "min (?k + 1) (length ?w)"] d G(6) by simp
    have fin: "\<exists>r. ?fin x = r \<and> step_ok jb r \<and> fl_origin fl' \<le> fl_origin (jb_framelist r) \<and>
        (\<forall>Q. all_frames Q (fl_origin ?fl) ?w \<longrightarrow> all_frames Q (fl_origin (jb_framelist r)) (window (jb_framelist r))) \<and>
        jb_prefetching r = jb_prefetching x \<and> (window fl' = [] \<longrightarrow> window (jb_framelist r) = [])"
      if "core x = core (jb\<lparr>jb_framelist := fl'\<rparr>)" "levels_ok x" for x
    proof -
      have x: "jb_wf x" using jb_wf_cong[OF that(1)] wf1 by simp
      have "jb_framelist x = fl'" "jb_discard_algo x = jb_discard_algo jb" "jb_max_count x = jb_max_count jb"
        "jb_frame_size x = jb_frame_size jb" using that(1) by (simp_all add: core_def)
      then show ?thesis
        using get_finish[OF x that(2)] effect[OF x that(2)] old discard_effect_empty[of x "?fin x"]
        by (simp add: step_ok_def)
    qed
    have lv: "levels_ok (jb\<lparr>jb_framelist := fl'\<rparr>)" using assms(2) by (simp add: levels_ok_upd)
    show ?thesis
    proof (cases "?k = length ?w")
      case True
      define x where "x = (if jb_prefetch jb \<noteq> 0 then jb\<lparr>jb_framelist := fl', jb_prefetching := True\<rparr>
        else jb\<lparr>jb_framelist := fl'\<rparr>)\<lparr>jb_empty := u32 (int (jb_empty jb) + 1)\<rparr>"
      have "core x = core (jb\<lparr>jb_framelist := fl'\<rparr>)" "levels_ok x"
        using lv by (simp_all add: x_def core_upd levels_ok_upd)
      from fin[OF this] have "get_outcome jb max_size (?fin x) ZERO_EMPTY_FRAME None"
        using True False G(5,6) by (auto simp: get_outcome_def Let_def x_def)
      moreover have "pjmedia_jbuf_get_frame3 jb max_size = Some (?fin x, ZERO_EMPTY_FRAME, None)"
        using False True G(1) g by (simp add: pjmedia_jbuf_get_frame3_def Let_def x_def)
      ultimately show ?thesis by blast
    next
      case some: False
      then obtain h where h: "got = Some h" "got_seq h = fl_origin ?fl + int ?k"
        "(got_type h, got_frame h) = (if ?k = 0 then got_of max_size (hd ?w) else (MISSING_FRAME, []))"
        using g by auto
      have ty: "got_type h = NORMAL_FRAME \<or> got_type h = MISSING_FRAME"
        using h(3) got_of_type[of max_size "hd ?w"] by (cases "?k = 0") (metis fst_conv, simp)
      define x2 where "x2 = (if got_type h = NORMAL_FRAME then jb\<lparr>jb_framelist := fl'\<rparr>
        else jb\<lparr>jb_framelist := fl', jb_lost := u32 (int (jb_lost jb) + 1)\<rparr>)"
      define x where "x = (if jb_last_op x2 = JB_OP_PUT
        then x2\<lparr>jb_delay := pj_math_stat_update (jb_delay x2) (s32 (u32 (int (u32 (int (jb_framelist_eff_size fl') + 1)) *
           int (jb_frame_ptime x2)) div jb_frame_ptime_denum x2))\<rparr> else x2)"
      have fx: "jb_framelist x2 = fl'" by (simp add: x2_def)
      have "core x = core (jb\<lparr>jb_framelist := fl'\<rparr>)" "levels_ok x"
        using lv by (simp_all add: x_def x2_def core_upd levels_ok_upd)
      note F = fin[OF this]
      have p: "jb_prefetching x = jb_prefetching jb" by (simp add: x_def x2_def)
      have "?k < length ?w" using some skipped_le[of ?w] by linarith
      then have o: "fl_origin ?fl + int ?k < fl_origin fl'" using G(6) by simp
      have "get_outcome jb max_size (?fin x) (got_type h) (Some h)"
        using some False h F p o by (auto simp: get_outcome_def Let_def)
      moreover have "pjmedia_jbuf_get_frame3 jb max_size = Some (?fin x, got_type h, Some h)"
        using False G(1) h(1) unfolding pjmedia_jbuf_get_frame3_def Let_def
        by (cases "got_type h = NORMAL_FRAME") (use ty in \<open>simp_all add: x_def x2_def\<close>)
      ultimately show ?thesis by blast
    qed
  qed
qed

section \<open>A session\<close>

text \<open>
  A sequence of puts and gets from a buffer on, with the numbered frames put and the answers got. The
  guard on the number of a put excludes what the code takes for a restart of the sender.
\<close>

inductive jb_session ::
  "pjmedia_jbuf \<Rightarrow> (int \<times> byte list) list \<Rightarrow> jb_got list \<Rightarrow> pjmedia_jbuf \<Rightarrow> bool" for jb0 where
  sess_start: "jb_session jb0 [] [] jb0"
| sess_put: "jb_session jb0 ps gs jb \<Longrightarrow> 0 \<le> seq \<Longrightarrow> seq < 2 ^ 30 \<Longrightarrow> fl_origin (jb_framelist jb) - 99 \<le> seq \<Longrightarrow>
    pjmedia_jbuf_put_frame3 jb frame bits seq ts = Some (jb', discarded) \<Longrightarrow>
    jb_session jb0 (ps @ [(seq, frame)]) gs jb'"
| sess_get: "jb_session jb0 ps gs jb \<Longrightarrow> pjmedia_jbuf_get_frame3 jb max_size = Some (jb', t, g) \<Longrightarrow>
    jb_session jb0 ps (gs @ (case g of Some got \<Rightarrow> [got] | None \<Rightarrow> [])) jb'"

definition is_cut :: "byte list \<Rightarrow> byte list \<Rightarrow> bool" where
  "is_cut b frame \<longleftrightarrow> b = take (length b) frame"

lemma is_cut_take [simp]: "is_cut (take n frame) frame"
  by (cases "n \<le> length frame") (simp_all add: is_cut_def)

lemma is_cut_trans: "is_cut b frame \<Longrightarrow> is_cut (take n b) frame"
proof -
  assume b: "is_cut b frame"
  then have "take n b = take n (take (length b) frame)" by (simp add: is_cut_def)
  then show ?thesis by simp
qed

definition sess_ok :: "(int \<times> byte list) list \<Rightarrow> jb_got list \<Rightarrow> pjmedia_jbuf \<Rightarrow> bool" where
  "sess_ok ps gs jb \<longleftrightarrow> jb_wf jb \<and> levels_ok jb \<and>
     all_frames (\<lambda>seq b. \<exists>frame. (seq, frame) \<in> set ps \<and> is_cut b frame) (fl_origin (jb_framelist jb)) (window (jb_framelist jb)) \<and>
     sorted_wrt (<) (map got_seq gs) \<and> (\<forall>g\<in>set gs. got_seq g < fl_origin (jb_framelist jb)) \<and>
     (\<forall>g\<in>set gs. got_type g = NORMAL_FRAME \<longrightarrow> (\<exists>frame. (got_seq g, frame) \<in> set ps \<and> is_cut (got_frame g) frame))"

lemma all_frames_mono: "all_frames Q orig w \<Longrightarrow> (\<And>s b. Q s b \<Longrightarrow> R s b) \<Longrightarrow> all_frames R orig w"
  by (auto simp: all_frames_def)

lemma sess_ok_put:
  assumes "sess_ok ps gs jb" and "put_outcome jb frame bits seq ts jb' d" and "fl_origin (jb_framelist jb) - 99 \<le> seq"
  shows "sess_ok (ps @ [(seq, frame)]) gs jb'"
proof -
  let ?Q = "\<lambda>s b. \<exists>f. (s, f) \<in> set (ps @ [(seq, frame)]) \<and> is_cut b f"
  have "all_frames ?Q (fl_origin (jb_framelist jb)) (window (jb_framelist jb))"
    using assms(1) by (auto simp: sess_ok_def elim!: all_frames_mono)
  moreover have "?Q seq (take (min (length frame) (jb_frame_size jb)) frame)" by auto
  ultimately have "all_frames ?Q (fl_origin (jb_framelist jb')) (window (jb_framelist jb'))"
    and "fl_origin (jb_framelist jb) \<le> fl_origin (jb_framelist jb')"
    using assms(2,3) unfolding put_outcome_def Let_def carries_def by blast+
  then show ?thesis
    using assms(1,2) unfolding sess_ok_def put_outcome_def Let_def step_ok_def by fastforce
qed

lemma sess_ok_get:
  assumes "sess_ok ps gs jb" and "get_outcome jb max_size jb' t g"
  shows "sess_ok ps (gs @ (case g of Some got \<Rightarrow> [got] | None \<Rightarrow> [])) jb'"
proof -
  let ?Q = "\<lambda>s b. \<exists>f. (s, f) \<in> set ps \<and> is_cut b f"
  let ?fl = "jb_framelist jb"
  have o: "fl_origin ?fl \<le> fl_origin (jb_framelist jb')"
    and f: "all_frames ?Q (fl_origin (jb_framelist jb')) (window (jb_framelist jb'))"
    and st: "jb_wf jb'" "levels_ok jb'"
    using assms by (simp_all add: sess_ok_def get_outcome_def Let_def step_ok_def)
  show ?thesis
  proof (cases g)
    case None
    then show ?thesis using assms(1) o f st by (fastforce simp: sess_ok_def)
  next
    case (Some got)
    then have G: "got_seq got = fl_origin ?fl + int (skipped (window ?fl))" "got_seq got < fl_origin (jb_framelist jb')"
      "(got_type got, got_frame got) = (if skipped (window ?fl) = 0 then got_of max_size (hd (window ?fl)) else (MISSING_FRAME, []))"
      "skipped (window ?fl) \<noteq> length (window ?fl)"
      using assms(2) by (auto simp: get_outcome_def Let_def split: if_splits)
    have "?Q (got_seq got) (got_frame got)" if normal: "got_type got = NORMAL_FRAME"
    proof -
      have k: "skipped (window ?fl) = 0" using G(3) normal by (auto split: if_splits)
      then have hd: "0 < fl_size ?fl" "hd (window ?fl) = window ?fl ! 0"
        using G(4) hd_conv_nth[of "window ?fl"] by fastforce+
      then obtain b x y where b: "window ?fl ! 0 = Frame b x y" "got_frame got = take (case max_size of Some n \<Rightarrow> n | None \<Rightarrow> length b) b"
        using G(3) k normal by (auto simp: got_of_def simp del: window_nth split: jslot.splits)
      have "?Q (fl_origin ?fl + int 0) b"
        using assms(1) hd(1) b(1) unfolding sess_ok_def all_frames_def window_length by blast
      then show ?thesis using G(1) k b(2) is_cut_trans by auto
    qed
    moreover have "\<forall>h\<in>set gs. got_seq h < got_seq got" using assms(1) G(1) by (fastforce simp: sess_ok_def)
    ultimately show ?thesis
      using Some assms(1) o f st G(2) by (fastforce simp: sess_ok_def sorted_wrt_append)
  qed
qed

lemma session_ok:
  assumes "jb_session jb0 ps gs jb" and "jb_wf jb0" and "levels_ok jb0" and "window (jb_framelist jb0) = []"
  shows "sess_ok ps gs jb"
  using assms(1)
proof induction
  case sess_start
  then show ?case using assms(2-4) by (simp add: sess_ok_def)
next
  case (sess_put ps gs jb seq frame bits ts jb' discarded)
  have "put_outcome jb frame bits seq ts jb' discarded"
    using put_frame3_outcome[of jb seq frame bits ts] sess_put by (auto simp: sess_ok_def)
  then show ?case using sess_ok_put sess_put by blast
next
  case (sess_get ps gs jb max_size jb' t g)
  have "get_outcome jb max_size jb' t g"
    using get_frame3_outcome[of jb max_size] sess_get by (auto simp: sess_ok_def)
  then show ?case using sess_ok_get sess_get by blast
qed

section \<open>Creation, settings, removal\<close>

lemma create_ok:
  assumes "0 < max_count" and "max_count < 2 ^ 28" and "0 < ptime" and "ptime \<le> 200"
  shows "jb_wf (pjmedia_jbuf_create mem frame_size ptime max_count) \<and>
    levels_ok (pjmedia_jbuf_create mem frame_size ptime max_count) \<and>
    window (jb_framelist (pjmedia_jbuf_create mem frame_size ptime max_count)) = []"
proof -
  let ?jb = "pjmedia_jbuf_create mem frame_size ptime max_count"
  have reset: "fl_max_count (jb_framelist_reset f) = fl_max_count f" "fl_frame_size (jb_framelist_reset f) = fl_frame_size f"
    "fl_size (jb_framelist_reset f) = 0" "fl_origin (jb_framelist_reset f) = -9999" for f
    by (simp_all add: jb_framelist_reset_def)
  have gap: "0 < 200 div int ptime" "200 div int ptime \<le> 200"
    using assms(3,4) by (simp_all add: pos_imp_zdiv_pos_iff int_div_le_self)
  have burst: "1000 div int ptime \<le> 1000" "0 \<le> 1000 div int ptime"
    using assms(3) by (simp_all add: int_div_le_self pos_imp_zdiv_nonneg_iff)
  let ?f = "mem\<lparr>fl_frame_size := frame_size, fl_max_count := max_count, fl_head := 0, fl_size := 0,
      fl_discarded_num := 0, fl_origin := 0\<rparr>"
  have inv: "fl_inv (jb_framelist_reset (jb_framelist_reset ?f))" and win: "window (jb_framelist_reset (jb_framelist_reset ?f)) = []"
    using assms(1,2) by (auto intro!: reset_refines simp: reset)
  have fl: "jb_framelist ?jb = jb_framelist_reset (jb_framelist_reset ?f)"
    by (simp add: pjmedia_jbuf_create_def Let_def pjmedia_jbuf_reset_def pjmedia_jbuf_set_discard_def jb_framelist_init_def)
  have fields: "jb_max_count ?jb = max_count" "jb_frame_size ?jb = frame_size" "jb_min_shrink_gap ?jb = 200 div int ptime"
    "jb_frame_ptime ?jb = ptime" "jb_frame_ptime_denum ?jb = 1" "jb_discard_ref ?jb = 0" "jb_discard_dist ?jb = 0"
    "jb_discard_algo ?jb = DISCARD_PROGRESSIVE"
    using gap by (simp_all add: pjmedia_jbuf_create_def Let_def pjmedia_jbuf_reset_def pjmedia_jbuf_set_discard_def)
  have "max_count * 3 div 4 \<le> 2 ^ 28" using assms(2) by simp
  then have burst2: "max (nat (1000 div int ptime)) (max_count * 3 div 4) < 2147483648"
    using burst by simp
  have "jb_wf ?jb"
    using assms gap inv win unfolding jb_wf_def Let_def fl fields by (simp add: reset)
  moreover have "levels_ok ?jb"
    using assms(1,2) burst s32_id[OF burst2]
    by (simp add: levels_ok_def pjmedia_jbuf_create_def Let_def pjmedia_jbuf_reset_def pjmedia_jbuf_set_discard_def nat_mult_distrib)
  ultimately show ?thesis using fl win by simp
qed

lemma kept_split: "kept w = kept (take c w) @ kept (drop c w)"
  unfolding kept_def by (metis append_take_drop_id filter_append)

lemma discards_split: "discards w = discards (take c w) + discards (drop c w)"
  by (metis append_take_drop_id discards_simps(3))

lemma remove_more_kept:
  assumes "fl_inv fl" and "discards (window fl) \<le> l" and "l - discards (window fl) \<le> count" and "count < 2 ^ 32"
  shows "\<exists>fl'. remove_more fl l count =
      (count - (l - discards (window fl)) + min (l - discards (window fl)) (length (kept (window fl))), fl') \<and>
    fl_inv fl' \<and> kept (window fl') = drop (l - discards (window fl)) (kept (window fl)) \<and>
    fl_max_count fl' = fl_max_count fl \<and> fl_frame_size fl' = fl_frame_size fl"
  using assms
proof (induction l arbitrary: fl count rule: less_induct)
  case (less l)
  let ?w = "window fl"
  define d where "d = l - discards ?w"
  have num: "fl_discarded_num fl = discards ?w" using less.prems(1) by (simp add: fl_inv_def)
  show ?case
  proof (cases "d = 0")
    case True
    then show ?thesis using less.prems num by (subst remove_more.simps) (simp add: d_def)
  next
    case False
    define c where "c = min d (length ?w)"
    obtain fl1 where R: "jb_framelist_remove_head fl d = (c, fl1)" "fl_inv fl1" "window fl1 = drop c ?w"
      "fl_max_count fl1 = fl_max_count fl" "fl_frame_size fl1 = fl_frame_size fl"
      using flist.remove_law[OF less.prems(1) c_def] by blast
    define d1 where "d1 = discards (take c ?w)"
    have d1: "discards ?w - discards (window fl1) = d1" "discards (window fl1) \<le> discards ?w"
      using R(3) discards_split[of ?w c] by (simp_all add: d1_def)
    have cw: "c \<le> length ?w" "d1 \<le> c" using discards_le[of "take c ?w"] by (auto simp: c_def d1_def)
    have lt: "discards ?w < l" using False by (simp add: d_def)
    have i: "int count - int d = int (count - d)" using less.prems(3) by (simp add: d_def of_nat_diff)
    have b: "count - d < 4294967296" "count - d + c < 4294967296" using less.prems(3,4) by (simp_all add: c_def d_def)
    have u: "u32 (int (u32 (int count - int d)) + int c) = count - d + c"
      unfolding i u32_nat[OF b(1)] of_nat_add[symmetric] by (rule u32_nat[OF b(2)])
    have step: "remove_more fl l count = remove_more fl1 (discards ?w) (count - d + c)"
      by (subst remove_more.simps) (simp only: num lt if_True Let_def d_def[symmetric] R(1) prod.case u)
    have le: "discards ?w - discards (window fl1) \<le> count - d + c" using d1 cw by simp
    have bd: "count - d + c < 2 ^ 32" using less.prems(3,4) by (simp add: c_def d_def)
    obtain fl' where I: "remove_more fl1 (discards ?w) (count - d + c) =
        (count - d + c - d1 + min d1 (length (kept (window fl1))), fl')" "fl_inv fl'"
      "kept (window fl') = drop d1 (kept (window fl1))" "fl_max_count fl' = fl_max_count fl1" "fl_frame_size fl' = fl_frame_size fl1"
      using less.IH[OF lt R(2) d1(2) le bd] d1(1) by auto
    have k: "length (kept (take c ?w)) = c - d1" using cw by (simp add: kept_length d1_def)
    have K: "kept ?w = kept (take c ?w) @ kept (window fl1)" using kept_split R(3) by simp
    have e: "c = d \<or> window fl1 = []" using R(3) by (auto simp: c_def min_def)
    then have "count - d + c - d1 + min d1 (length (kept (window fl1))) = count - d + min d (length (kept ?w))"
      using K k cw less.prems(3) by (auto simp: d_def[symmetric] kept_def c_def)
    moreover have "drop d1 (kept (window fl1)) = drop d (kept ?w)"
      using e K k cw by (auto simp: kept_def c_def)
    ultimately show ?thesis using step I R(4,5) by (simp add: d_def[symmetric])
  qed
qed

lemma remove_frame_kept:
  assumes "jb_wf jb" and "n < 2 ^ 32"
  defines "w \<equiv> window (jb_framelist jb)"
  shows "\<exists>jb'. pjmedia_jbuf_remove_frame jb n = (min n (length (kept w)), jb') \<and>
    kept (window (jb_framelist jb')) = drop n (kept w) \<and> fl_inv (jb_framelist jb')"
proof -
  let ?fl = "jb_framelist jb"
  have inv: "fl_inv ?fl" using jb_wfD[OF assms(1)] by simp
  define c where "c = min n (length w)"
  obtain fl1 where R: "jb_framelist_remove_head ?fl n = (c, fl1)" "fl_inv fl1" "window fl1 = drop c w"
    using flist.remove_law[OF inv, of c n] c_def w_def by auto
  define d where "d = discards (take c w)"
  have dd: "discards w - discards (window fl1) = d" "discards (window fl1) \<le> discards w"
    using R(3) discards_split[of w c] by (simp_all add: d_def)
  have cw: "c \<le> length w" "d \<le> c" using discards_le[of "take c w"] by (auto simp: c_def d_def)
  have "c < 2 ^ 32" using assms(2) by (simp add: c_def)
  then obtain fl' where M: "remove_more fl1 (discards w) c = (c - d + min d (length (kept (window fl1))), fl')"
    "fl_inv fl'" "kept (window fl') = drop d (kept (window fl1))"
    using remove_more_kept[OF R(2) dd(2), of c] dd(1) cw by auto
  have k: "length (kept (take c w)) = c - d" using cw by (simp add: kept_length d_def)
  have K: "kept w = kept (take c w) @ kept (window fl1)" using kept_split R(3) by simp
  have e: "c = n \<or> window fl1 = []" using R(3) by (auto simp: c_def min_def)
  have "c - d + min d (length (kept (window fl1))) = min n (length (kept w))"
    using e K k cw by (auto simp: kept_def c_def)
  moreover have "drop d (kept (window fl1)) = drop n (kept w)" using e K k cw by (auto simp: kept_def c_def)
  moreover have "fl_discarded_num ?fl = discards w" using inv by (simp add: fl_inv_def w_def)
  ultimately show ?thesis using R(1) M by (simp add: pjmedia_jbuf_remove_frame_def)
qed

lemma set_adaptive_ok:
  assumes "jb_wf jb" and "levels_ok jb" and "min_prefetch \<le> prefetch" and "prefetch \<le> max_prefetch"
    and "max_prefetch \<le> jb_max_count jb"
  shows "\<exists>jb'. pjmedia_jbuf_set_adaptive jb prefetch min_prefetch max_prefetch = (PJ_SUCCESS, jb') \<and>
    jb_wf jb' \<and> levels_ok jb' \<and> jb_framelist jb' = jb_framelist jb \<and> jb_prefetch jb' = int prefetch"
proof -
  let ?jb = "jb\<lparr>jb_prefetch := s32 prefetch, jb_init_prefetch := s32 prefetch, jb_min_prefetch := s32 min_prefetch,
    jb_max_prefetch := s32 max_prefetch\<rparr>"
  have "jb_wf ?jb" using assms(1) by (simp add: jb_wf_def)
  moreover have "levels_ok ?jb" using assms jb_wfD[OF assms(1)] by (simp add: levels_ok_def)
  ultimately show ?thesis
    using assms(3-5) jb_wfD[OF assms(1)] by (simp add: pjmedia_jbuf_set_adaptive_def)
qed

section \<open>Properties\<close>

text \<open>The memory of a concrete buffer, for the witnesses.\<close>

definition zero_mem :: jb_framelist where
  "zero_mem = \<lparr>fl_frame_size = 0, fl_max_count = 0, fl_content = (\<lambda>_. []), fl_type = (\<lambda>_. MISSING_FRAME),
     fl_content_len = (\<lambda>_. 0), fl_bit_info = (\<lambda>_. 0), fl_ts = (\<lambda>_. 0), fl_head = 0, fl_size = 0,
     fl_discarded_num = 0, fl_origin = 0\<rparr>"

definition small_jbuf :: pjmedia_jbuf where
  "small_jbuf = pjmedia_jbuf_create zero_mem 4 20 8"

lemma small_jbuf_ok: "jb_wf small_jbuf" "levels_ok small_jbuf" "window (jb_framelist small_jbuf) = []"
  using create_ok[of 8 20 zero_mem 4] by (simp_all add: small_jbuf_def)

text \<open>A freshly created jitter buffer with a packet time of at most 200 ms, and then set to an
  adaptive range within its capacity, is well formed: the discard gap is at least one frame, the frame
  list is empty, and the prefetch lies in its range.\<close>

theorem jbuf_create_ready:
  assumes "0 < max_count" and "max_count < 2 ^ 28" and "0 < ptime" and "ptime \<le> 200"
    and "min_prefetch \<le> prefetch" and "prefetch \<le> max_prefetch" and "max_prefetch \<le> max_count"
  shows "\<exists>jb. pjmedia_jbuf_set_adaptive (pjmedia_jbuf_create mem frame_size ptime max_count)
      prefetch min_prefetch max_prefetch = (PJ_SUCCESS, jb) \<and>
    jb_wf jb \<and> levels_ok jb \<and> window (jb_framelist jb) = [] \<and> jb_prefetch jb = int prefetch"
proof -
  let ?jb = "pjmedia_jbuf_create mem frame_size ptime max_count"
  have "jb_max_count ?jb = max_count"
    by (simp add: pjmedia_jbuf_create_def Let_def pjmedia_jbuf_reset_def pjmedia_jbuf_set_discard_def)
  then show ?thesis
    using create_ok[OF assms(1-4), of mem frame_size] set_adaptive_ok[of ?jb, OF _ _ assms(5,6)] assms(7) by auto
qed

theorem jbuf_create_ready_witness:
  "\<exists>jb. pjmedia_jbuf_set_adaptive (pjmedia_jbuf_create zero_mem 4 20 8) 2 0 4 = (PJ_SUCCESS, jb) \<and>
    jb_wf jb \<and> levels_ok jb \<and> window (jb_framelist jb) = [] \<and> jb_prefetch jb = int 2"
  by (rule jbuf_create_ready) simp_all

text \<open>C20: putting a frame always returns (room is made at most once), keeps the buffer well formed, and
  turns the frame down exactly when it is fewer than 100 numbers late or its slot is taken, leaving the
  frames as they were. Otherwise the frame is in the buffer under its number, cut to the frame size,
  unless the discard algorithm gave it up.\<close>

theorem jbuf_put_stores:
  assumes "jb_wf jb" and "levels_ok jb" and "0 \<le> seq" and "seq < 2 ^ 30"
  shows "\<exists>jb' discarded. pjmedia_jbuf_put_frame3 jb frame bits seq ts = Some (jb', discarded) \<and>
    jb_wf jb' \<and> levels_ok jb' \<and>
    (discarded \<longleftrightarrow> late_or_taken seq (fl_origin (jb_framelist jb)) (window (jb_framelist jb))) \<and>
    (if discarded
     then window (jb_framelist jb') = window (jb_framelist jb) \<and> fl_origin (jb_framelist jb') = fl_origin (jb_framelist jb)
     else kept_or_given_up jb' seq (Frame (take (min (length frame) (jb_frame_size jb)) frame) bits ts))"
  using put_frame3_outcome[OF assms, of frame bits ts] by (auto simp: put_outcome_def Let_def step_ok_def)

theorem jbuf_put_stores_witness:
  "\<exists>jb' discarded. pjmedia_jbuf_put_frame3 small_jbuf [1, 2, 3] 0 7 160 = Some (jb', discarded) \<and>
    jb_wf jb' \<and> levels_ok jb' \<and>
    (discarded \<longleftrightarrow> late_or_taken 7 (fl_origin (jb_framelist small_jbuf)) (window (jb_framelist small_jbuf))) \<and>
    (if discarded
     then window (jb_framelist jb') = window (jb_framelist small_jbuf) \<and>
       fl_origin (jb_framelist jb') = fl_origin (jb_framelist small_jbuf)
     else kept_or_given_up jb' 7 (Frame (take (min (length [1, 2, 3 :: byte]) (jb_frame_size small_jbuf)) [1, 2, 3]) 0 160))"
  by (rule jbuf_put_stores[OF small_jbuf_ok(1,2)]) simp_all

text \<open>C21: getting a frame always returns and keeps the buffer well formed. While prefetching it answers
  so; with nothing but discarded slots it empties the buffer, and prefetching starts again when a
  prefetch is set; otherwise it answers the first slot that is not discarded, with its number, as a
  missing frame if it is missing or if slots were skipped, and the origin passes that number.\<close>

theorem jbuf_get_next:
  assumes "jb_wf jb" and "levels_ok jb"
  shows "\<exists>jb' t g. pjmedia_jbuf_get_frame3 jb max_size = Some (jb', t, g) \<and> jb_wf jb' \<and> levels_ok jb' \<and>
    (let orig = fl_origin (jb_framelist jb); w = window (jb_framelist jb); k = skipped w
     in if jb_prefetching jb then t = ZERO_PREFETCH_FRAME \<and> g = None \<and> jb_prefetching jb'
        else if k = length w then t = ZERO_EMPTY_FRAME \<and> g = None \<and> window (jb_framelist jb') = [] \<and>
          jb_prefetching jb' = (jb_prefetch jb \<noteq> 0)
        else \<exists>got. g = Some got \<and> got_seq got = orig + int k \<and> got_seq got < fl_origin (jb_framelist jb') \<and>
          t = got_type got \<and> \<not> jb_prefetching jb' \<and>
          (got_type got, got_frame got) = (if k = 0 then got_of max_size (hd w) else (MISSING_FRAME, [])))"
proof -
  obtain jb' t g where G: "pjmedia_jbuf_get_frame3 jb max_size = Some (jb', t, g)" "get_outcome jb max_size jb' t g"
    using get_frame3_outcome[OF assms] by blast
  show ?thesis
    using G unfolding get_outcome_def Let_def step_ok_def
    by (intro exI[of _ jb'] exI[of _ t] exI[of _ g])
      (cases "jb_prefetching jb"; cases "skipped (window (jb_framelist jb)) = length (window (jb_framelist jb))"; auto)
qed

theorem jbuf_get_next_witness:
  "\<exists>jb' t g. pjmedia_jbuf_get_frame3 small_jbuf (Some 4) = Some (jb', t, g) \<and> jb_wf jb' \<and> levels_ok jb' \<and>
    (let orig = fl_origin (jb_framelist small_jbuf); w = window (jb_framelist small_jbuf); k = skipped w
     in if jb_prefetching small_jbuf then t = ZERO_PREFETCH_FRAME \<and> g = None \<and> jb_prefetching jb'
        else if k = length w then t = ZERO_EMPTY_FRAME \<and> g = None \<and> window (jb_framelist jb') = [] \<and>
          jb_prefetching jb' = (jb_prefetch small_jbuf \<noteq> 0)
        else \<exists>got. g = Some got \<and> got_seq got = orig + int k \<and> got_seq got < fl_origin (jb_framelist jb') \<and>
          t = got_type got \<and> \<not> jb_prefetching jb' \<and>
          (got_type got, got_frame got) = (if k = 0 then got_of (Some 4) (hd w) else (MISSING_FRAME, [])))"
  by (rule jbuf_get_next[OF small_jbuf_ok(1,2)])





text \<open>Removing frames counts only the frames that are not discarded: exactly the first \<open>n\<close> of them go
  (all, if there are fewer), the count returned says so, and the loop that makes up for discarded ones
  ends.\<close>

theorem jbuf_remove_skips_discarded:
  assumes "jb_wf jb" and "n < 2 ^ 32"
  shows "\<exists>jb'. pjmedia_jbuf_remove_frame jb n = (min n (length (kept (window (jb_framelist jb)))), jb') \<and>
    kept (window (jb_framelist jb')) = drop n (kept (window (jb_framelist jb))) \<and> fl_inv (jb_framelist jb')"
  by (rule remove_frame_kept[OF assms])

theorem jbuf_remove_skips_discarded_witness:
  "\<exists>jb'. pjmedia_jbuf_remove_frame small_jbuf 3 = (min 3 (length (kept (window (jb_framelist small_jbuf)))), jb') \<and>
    kept (window (jb_framelist jb')) = drop 3 (kept (window (jb_framelist small_jbuf))) \<and> fl_inv (jb_framelist jb')"
  by (rule jbuf_remove_skips_discarded[OF small_jbuf_ok(1)]) simp

end
