(* ===== verification/Pj_Time.thy ===== *)
theory Pj_Time
  imports Prelude
begin

text \<open>
  Time values: \<^verbatim>\<open>pj_time_val\<close> and its macros (\<^verbatim>\<open>pjlib/include/pj/types.h\<close>) and
  \<^verbatim>\<open>pj_time_val_normalize\<close> (\<^verbatim>\<open>pjlib/src/pj/types.c\<close>). The comparison macros are the
  lexicographic order on seconds and milliseconds, which is made an instance of \<open>linorder\<close>, so
  that the timer heap is proved over an ordinary linear order.
\<close>

datatype pj_time_val = Time_Val (sec: int) (msec: int)

definition PJ_TIME_VAL_MSEC :: "pj_time_val \<Rightarrow> int" where
  "PJ_TIME_VAL_MSEC t = sec t * 1000 + msec t"

definition PJ_TIME_VAL_EQ :: "pj_time_val \<Rightarrow> pj_time_val \<Rightarrow> bool" where
  "PJ_TIME_VAL_EQ t1 t2 \<longleftrightarrow> sec t1 = sec t2 \<and> msec t1 = msec t2"

definition PJ_TIME_VAL_GT :: "pj_time_val \<Rightarrow> pj_time_val \<Rightarrow> bool" where
  "PJ_TIME_VAL_GT t1 t2 \<longleftrightarrow> sec t1 > sec t2 \<or> (sec t1 = sec t2 \<and> msec t1 > msec t2)"

definition PJ_TIME_VAL_GTE :: "pj_time_val \<Rightarrow> pj_time_val \<Rightarrow> bool" where
  "PJ_TIME_VAL_GTE t1 t2 \<longleftrightarrow> PJ_TIME_VAL_GT t1 t2 \<or> PJ_TIME_VAL_EQ t1 t2"

definition PJ_TIME_VAL_LT :: "pj_time_val \<Rightarrow> pj_time_val \<Rightarrow> bool" where
  "PJ_TIME_VAL_LT t1 t2 \<longleftrightarrow> \<not> PJ_TIME_VAL_GTE t1 t2"

definition PJ_TIME_VAL_LTE :: "pj_time_val \<Rightarrow> pj_time_val \<Rightarrow> bool" where
  "PJ_TIME_VAL_LTE t1 t2 \<longleftrightarrow> \<not> PJ_TIME_VAL_GT t1 t2"

instantiation pj_time_val :: linorder
begin

definition less_eq_pj_time_val :: "pj_time_val \<Rightarrow> pj_time_val \<Rightarrow> bool" where
  "less_eq_pj_time_val a b \<longleftrightarrow> sec a < sec b \<or> (sec a = sec b \<and> msec a \<le> msec b)"

definition less_pj_time_val :: "pj_time_val \<Rightarrow> pj_time_val \<Rightarrow> bool" where
  "less_pj_time_val a b \<longleftrightarrow> sec a < sec b \<or> (sec a = sec b \<and> msec a < msec b)"

instance
  by intro_classes (auto simp: less_eq_pj_time_val_def less_pj_time_val_def intro: pj_time_val.expand)

end

lemma time_macros [simp]:
  "PJ_TIME_VAL_EQ a b \<longleftrightarrow> a = b"
  "PJ_TIME_VAL_GT a b \<longleftrightarrow> b < a"
  "PJ_TIME_VAL_GTE a b \<longleftrightarrow> b \<le> a"
  "PJ_TIME_VAL_LT a b \<longleftrightarrow> a < b"
  "PJ_TIME_VAL_LTE a b \<longleftrightarrow> a \<le> b"
  by (auto simp: PJ_TIME_VAL_EQ_def PJ_TIME_VAL_GT_def PJ_TIME_VAL_GTE_def PJ_TIME_VAL_LT_def
      PJ_TIME_VAL_LTE_def less_eq_pj_time_val_def less_pj_time_val_def intro: pj_time_val.expand)

lemma Time_Val_le [simp]: "Time_Val a b \<le> Time_Val c d \<longleftrightarrow> a < c \<or> (a = c \<and> b \<le> d)"
  by (simp add: less_eq_pj_time_val_def)

lemma Time_Val_less [simp]: "Time_Val a b < Time_Val c d \<longleftrightarrow> a < c \<or> (a = c \<and> b < d)"
  by (simp add: less_pj_time_val_def)

text \<open>
  The body of the \<^verbatim>\<open>do .. while (t->msec <= -1000)\<close> loop borrows a second at a time.
\<close>

function borrow_loop :: "int \<Rightarrow> int \<Rightarrow> int \<times> int" where
  "borrow_loop s ms =
     (let s' = s - 1; ms' = ms + 1000
      in if ms' \<le> -1000 then borrow_loop s' ms' else (s', ms'))"
  by pat_completeness auto
termination
  by (relation "measure (\<lambda>(s, ms). nat (- ms))") auto

declare borrow_loop.simps [simp del]

definition carry_msec :: "pj_time_val \<Rightarrow> int \<times> int" where
  "carry_msec t =
     (if msec t \<ge> 1000 then (sec t + cdiv (msec t) 1000, crem (msec t) 1000)
      else if msec t \<le> -1000 then borrow_loop (sec t) (msec t)
      else (sec t, msec t))"

definition pj_time_val_normalize :: "pj_time_val \<Rightarrow> pj_time_val" where
  "pj_time_val_normalize t =
     (let (s, ms) = carry_msec t
      in if s \<ge> 1 \<and> ms < 0 then Time_Val (s - 1) (ms + 1000)
         else if s < 0 \<and> ms > 0 then Time_Val (s + 1) (ms - 1000)
         else Time_Val s ms)"

definition PJ_TIME_VAL_ADD :: "pj_time_val \<Rightarrow> pj_time_val \<Rightarrow> pj_time_val" where
  "PJ_TIME_VAL_ADD t1 t2 = pj_time_val_normalize (Time_Val (sec t1 + sec t2) (msec t1 + msec t2))"

definition PJ_TIME_VAL_SUB :: "pj_time_val \<Rightarrow> pj_time_val \<Rightarrow> pj_time_val" where
  "PJ_TIME_VAL_SUB t1 t2 = pj_time_val_normalize (Time_Val (sec t1 - sec t2) (msec t1 - msec t2))"

lemma borrow_loop_spec:
  "ms \<le> -1000 \<Longrightarrow> borrow_loop s ms = (s', ms')
   \<Longrightarrow> s' * 1000 + ms' = s * 1000 + ms \<and> -1000 < ms' \<and> ms' \<le> 0"
proof (induction s ms rule: borrow_loop.induct)
  case (1 s ms)
  from "1.prems"(2) show ?case
    using "1.IH" "1.prems"(1)
    by (subst (asm) borrow_loop.simps) (auto simp: Let_def split: if_splits)
qed

lemma carry_msec_spec:
  assumes "carry_msec t = (s, ms)"
  shows "s * 1000 + ms = PJ_TIME_VAL_MSEC t \<and> -1000 < ms \<and> ms < 1000"
proof -
  have "\<And>x :: int. x div 1000 * 1000 + x mod 1000 = x" by simp
  moreover have "(sec t + x div 1000) * 1000 + x mod 1000 = sec t * 1000 + x" for x :: int
    by (simp add: distrib_right)
  ultimately show ?thesis
    using assms borrow_loop_spec[of "msec t" "sec t" s ms]
    by (auto simp: carry_msec_def PJ_TIME_VAL_MSEC_def split: if_splits)
qed

text \<open>A time value is in normal form when its two components agree in sign.\<close>

definition time_normal :: "pj_time_val \<Rightarrow> bool" where
  "time_normal t \<longleftrightarrow> \<bar>msec t\<bar> < 1000 \<and> (sec t \<ge> 1 \<longrightarrow> msec t \<ge> 0) \<and> (sec t < 0 \<longrightarrow> msec t \<le> 0)"

lemma normalize_msec [simp]:
  "PJ_TIME_VAL_MSEC (pj_time_val_normalize t) = PJ_TIME_VAL_MSEC t"
  using carry_msec_spec[of t]
  by (auto simp: pj_time_val_normalize_def PJ_TIME_VAL_MSEC_def Let_def split: prod.splits if_splits)

lemma normalize_normal: "time_normal (pj_time_val_normalize t)"
  using carry_msec_spec[of t]
  by (auto simp: pj_time_val_normalize_def time_normal_def Let_def split: prod.splits if_splits)

lemma add_msec [simp]:
  "PJ_TIME_VAL_MSEC (PJ_TIME_VAL_ADD a b) = PJ_TIME_VAL_MSEC a + PJ_TIME_VAL_MSEC b"
  unfolding PJ_TIME_VAL_ADD_def by (subst normalize_msec) (simp add: PJ_TIME_VAL_MSEC_def)

lemma sub_msec [simp]:
  "PJ_TIME_VAL_MSEC (PJ_TIME_VAL_SUB a b) = PJ_TIME_VAL_MSEC a - PJ_TIME_VAL_MSEC b"
  unfolding PJ_TIME_VAL_SUB_def by (subst normalize_msec) (simp add: PJ_TIME_VAL_MSEC_def)

text \<open>On normal values the order of the macros is the order of the instants they denote.\<close>

lemma time_normal_less_iff:
  assumes "time_normal a" and "time_normal b" and "sec a \<ge> 0" and "sec b \<ge> 0"
    and "msec a \<ge> 0" and "msec b \<ge> 0"
  shows "a < b \<longleftrightarrow> PJ_TIME_VAL_MSEC a < PJ_TIME_VAL_MSEC b"
  using assms by (auto simp: time_normal_def less_pj_time_val_def PJ_TIME_VAL_MSEC_def)

end
