(* ===== verification/Timer_Heap.thy ===== *)
theory Timer_Heap
  imports Pj_Time
begin

text \<open>
  The timer heap of \<^verbatim>\<open>pjlib/src/pj/timer.c\<close>, in its default configuration
  (\<^verbatim>\<open>PJ_TIMER_USE_COPY\<close> = 1, \<^verbatim>\<open>PJ_TIMER_USE_LINKED_LIST\<close> = 0): a binary heap of copies of the
  scheduled entries, the array \<^verbatim>\<open>timer_ids\<close> that locates a timer in the heap and threads the free
  list through its negative values, and the operations on them. This theory holds the definitions;
  \<^verbatim>\<open>Timer_Heap_Props\<close> proves them correct.

  A C pointer to a \<^verbatim>\<open>pj_timer_entry\<close> is a number, the entry behind it the value of the field
  \<open>entries\<close>; a pointer into \<^verbatim>\<open>timer_dups\<close> is its index. The arrays are functions of their index:
  the invariant of \<^verbatim>\<open>Timer_Heap_Props\<close> bounds every index the code uses by \<^verbatim>\<open>max_size\<close>. Locks are
  the sequential boundary of each operation; a group lock is the number of its references.
\<close>

section \<open>Data\<close>

record pj_timer_entry =
  te_id :: int
  te_user_data :: nat
  te_cb :: "nat option"
  te_timer_id :: int

record pj_timer_entry_dup =
  dup_entry :: pj_timer_entry
  dup_ptr :: nat
  dup_timer_value :: pj_time_val
  dup_grp_lock :: "nat option"

record pj_timer_heap =
  max_size :: nat
  cur_size :: nat
  max_entries_per_poll :: nat
  heap_arr :: "nat \<Rightarrow> nat"
  timer_ids :: "nat \<Rightarrow> int"
  timer_dups :: "nat \<Rightarrow> pj_timer_entry_dup"
  timer_ids_freelist :: int
  entries :: "nat \<Rightarrow> pj_timer_entry"
  grp_refs :: "nat \<Rightarrow> int"

abbreviation dup_timer_id :: "pj_timer_entry_dup \<Rightarrow> int" where
  "dup_timer_id d \<equiv> te_timer_id (dup_entry d)"

definition HEAP_PARENT :: "nat \<Rightarrow> nat" where
  "HEAP_PARENT x = (if x = 0 then 0 else (x - 1) div 2)"

definition HEAP_LEFT :: "nat \<Rightarrow> nat" where
  "HEAP_LEFT x = x + x + 1"

definition heap_time :: "pj_timer_heap \<Rightarrow> nat \<Rightarrow> pj_time_val" where
  "heap_time ht slot = dup_timer_value (timer_dups ht (heap_arr ht slot))"

section \<open>Moving nodes\<close>

definition copy_node :: "pj_timer_heap \<Rightarrow> nat \<Rightarrow> nat \<Rightarrow> pj_timer_heap" where
  "copy_node ht slot moved_node =
     ht\<lparr>heap_arr := (heap_arr ht)(slot := moved_node),
        timer_ids := (timer_ids ht)(nat (dup_timer_id (timer_dups ht moved_node)) := int slot)\<rparr>"

definition pop_freelist :: "pj_timer_heap \<Rightarrow> int \<times> pj_timer_heap" where
  "pop_freelist ht =
     (let new_id = timer_ids_freelist ht
      in (new_id, ht\<lparr>timer_ids_freelist := - timer_ids ht (nat (timer_ids_freelist ht))\<rparr>))"

definition push_freelist :: "pj_timer_heap \<Rightarrow> int \<Rightarrow> pj_timer_heap" where
  "push_freelist ht old_id =
     ht\<lparr>timer_ids := (timer_ids ht)(nat old_id := - timer_ids_freelist ht),
        timer_ids_freelist := old_id\<rparr>"

lemma copy_node_frame [simp]:
  "cur_size (copy_node ht s m) = cur_size ht"
  "max_size (copy_node ht s m) = max_size ht"
  "timer_dups (copy_node ht s m) = timer_dups ht"
  "entries (copy_node ht s m) = entries ht"
  "grp_refs (copy_node ht s m) = grp_refs ht"
  "timer_ids_freelist (copy_node ht s m) = timer_ids_freelist ht"
  "max_entries_per_poll (copy_node ht s m) = max_entries_per_poll ht"
  by (simp_all add: copy_node_def)

function reheap_down :: "pj_timer_heap \<Rightarrow> nat \<Rightarrow> nat \<Rightarrow> nat \<Rightarrow> pj_timer_heap" where
  "reheap_down ht moved_node slot child =
     (if child < cur_size ht then
        let child' = (if child + 1 < cur_size ht \<and>
                         PJ_TIME_VAL_LT (heap_time ht (child + 1)) (heap_time ht child)
                      then child + 1 else child)
        in if PJ_TIME_VAL_LT (heap_time ht child') (dup_timer_value (timer_dups ht moved_node))
           then reheap_down (copy_node ht slot (heap_arr ht child')) moved_node child'
                  (HEAP_LEFT child')
           else copy_node ht slot moved_node
      else copy_node ht slot moved_node)"
  by pat_completeness auto
termination
  by (relation "measure (\<lambda>(ht, m, slot, child). cur_size ht - child)")
    (auto simp: HEAP_LEFT_def split: if_splits)

function reheap_up :: "pj_timer_heap \<Rightarrow> nat \<Rightarrow> nat \<Rightarrow> nat \<Rightarrow> pj_timer_heap" where
  "reheap_up ht moved_node slot parent =
     (if slot > 0 then
        if PJ_TIME_VAL_LT (dup_timer_value (timer_dups ht moved_node)) (heap_time ht parent)
        then reheap_up (copy_node ht slot (heap_arr ht parent)) moved_node parent
               (HEAP_PARENT parent)
        else copy_node ht slot moved_node
      else copy_node ht slot moved_node)"
  by pat_completeness auto
termination
  by (relation "measure (\<lambda>(ht, m, slot, parent). if slot = 0 then 0 else Suc parent)")
    (auto simp: HEAP_PARENT_def)

declare reheap_down.simps [simp del] reheap_up.simps [simp del]

section \<open>Removing and inserting\<close>

definition remove_node :: "pj_timer_heap \<Rightarrow> nat \<Rightarrow> nat \<times> pj_timer_heap" where
  "remove_node ht0 slot =
     (let removed_node = heap_arr ht0 slot;
          ht1 = push_freelist ht0 (dup_timer_id (timer_dups ht0 removed_node));
          ht2 = ht1\<lparr>cur_size := cur_size ht1 - 1\<rparr>;
          e = dup_ptr (timer_dups ht2 removed_node);
          ht3 = ht2\<lparr>entries := (entries ht2)(e := (entries ht2 e)\<lparr>te_timer_id := -1\<rparr>)\<rparr>;
          d = timer_dups ht3 removed_node;
          ht4 = ht3\<lparr>timer_dups := (timer_dups ht3)
                   (removed_node := d\<lparr>dup_entry := (dup_entry d)\<lparr>te_timer_id := -1\<rparr>\<rparr>)\<rparr>
      in if slot < cur_size ht4 then
           let moved_node = heap_arr ht4 (cur_size ht4);
               ht5 = copy_node ht4 slot moved_node;
               parent = HEAP_PARENT slot
           in if PJ_TIME_VAL_GTE (dup_timer_value (timer_dups ht5 moved_node)) (heap_time ht5 parent)
              then (removed_node, reheap_down ht5 moved_node slot (HEAP_LEFT slot))
              else (removed_node, reheap_up ht5 moved_node slot parent)
         else (removed_node, ht4))"

text \<open>
  What \<^verbatim>\<open>pj_pool_calloc\<close> and \<^verbatim>\<open>pj_pool_alloc\<close> answer to the three requests of
  \<^verbatim>\<open>grow_heap\<close>, in their order: the pool is outside the heap, so its answers are an argument.
\<close>

record alloc =
  heap_mem :: bool
  dups_mem :: bool
  ids_mem :: bool

definition grow_heap :: "alloc \<Rightarrow> pj_timer_heap \<Rightarrow> pj_status_t \<times> pj_timer_heap" where
  "grow_heap mem ht =
     (let new_size = max_size ht * 2
      in if \<not> heap_mem mem then (PJ_ENOMEM, ht)
         else if \<not> dups_mem mem then (PJ_ENOMEM, ht)
         else let ht1 = ht\<lparr>heap_arr := (\<lambda>i. if i < cur_size ht then heap_arr ht i else 0)\<rparr>
              in if \<not> ids_mem mem then (PJ_ENOMEM, ht1)
                 else (PJ_SUCCESS,
                       ht1\<lparr>timer_ids := (\<lambda>i. if max_size ht \<le> i \<and> i < new_size
                                              then - (int i + 1) else timer_ids ht1 i),
                           max_size := new_size\<rparr>))"

definition insert_node ::
  "alloc \<Rightarrow> pj_timer_heap \<Rightarrow> nat \<Rightarrow> pj_time_val \<Rightarrow> pj_status_t \<times> pj_timer_heap" where
  "insert_node mem ht0 new_node future_time =
     (let (status, ht) = (if cur_size ht0 + 2 \<ge> max_size ht0 then grow_heap mem ht0
                          else (PJ_SUCCESS, ht0))
      in if status \<noteq> PJ_SUCCESS then (status, ht)
         else let timer_copy = nat (te_timer_id (entries ht new_node));
                  ht1 = ht\<lparr>timer_dups := (timer_dups ht)(timer_copy :=
                           \<lparr>dup_entry = entries ht new_node, dup_ptr = new_node,
                            dup_timer_value = future_time, dup_grp_lock = None\<rparr>)\<rparr>;
                  ht2 = reheap_up ht1 timer_copy (cur_size ht1) (HEAP_PARENT (cur_size ht1))
              in (PJ_SUCCESS, ht2\<lparr>cur_size := cur_size ht2 + 1\<rparr>))"

definition schedule_entry ::
  "alloc \<Rightarrow> pj_timer_heap \<Rightarrow> nat \<Rightarrow> pj_time_val \<Rightarrow> pj_status_t \<times> pj_timer_heap" where
  "schedule_entry mem ht entry future_time =
     (if cur_size ht < max_size ht then
        let (new_id, ht1) = pop_freelist ht;
            ht2 = ht1\<lparr>entries := (entries ht1)(entry := (entries ht1 entry)\<lparr>te_timer_id := new_id\<rparr>)\<rparr>
        in insert_node mem ht2 entry future_time
      else (-1, ht))"

text \<open>
  \<^verbatim>\<open>cancel\<close> is only called with \<^verbatim>\<open>F_DONT_CALL\<close>, so the heap-wide close hook is not run.
\<close>

definition cancel :: "pj_timer_heap \<Rightarrow> nat \<Rightarrow> int \<times> pj_timer_heap" where
  "cancel ht entry =
     (let timer_node_slot = timer_ids ht (nat (te_timer_id (entries ht entry)));
          forget = ht\<lparr>entries := (entries ht)(entry := (entries ht entry)\<lparr>te_timer_id := -1\<rparr>)\<rparr>
      in if timer_node_slot < 0 then (0, forget)
         else if entry \<noteq> dup_ptr (timer_dups ht (heap_arr ht (nat timer_node_slot))) then (0, forget)
         else (1, snd (remove_node ht (nat timer_node_slot))))"

section \<open>The public operations\<close>

text \<open>
  The initial content of \<^verbatim>\<open>timer_dups\<close> is not initialised by the code and never read; the
  timer identifiers are only used below \<^verbatim>\<open>max_size\<close>. \<open>struct_mem\<close> is the answer to the allocation
  of the heap structure itself.
\<close>

definition blank_dup :: pj_timer_entry_dup where
  "blank_dup = \<lparr>dup_entry = \<lparr>te_id = 0, te_user_data = 0, te_cb = None, te_timer_id = 0\<rparr>,
     dup_ptr = 0, dup_timer_value = Time_Val 0 0, dup_grp_lock = None\<rparr>"

definition pj_timer_heap_create ::
  "bool \<Rightarrow> alloc \<Rightarrow> nat \<Rightarrow> (nat \<Rightarrow> pj_timer_entry) \<Rightarrow> (nat \<Rightarrow> int)
   \<Rightarrow> pj_status_t \<times> pj_timer_heap option" where
  "pj_timer_heap_create struct_mem mem count es locks =
     (let sz = count + 2
      in if \<not> struct_mem then (PJ_ENOMEM, None)
         else if \<not> heap_mem mem then (PJ_ENOMEM, None)
         else if \<not> dups_mem mem then (PJ_ENOMEM, None)
         else if \<not> ids_mem mem then (PJ_ENOMEM, None)
         else (PJ_SUCCESS, Some
           \<lparr>max_size = sz, cur_size = 0, max_entries_per_poll = 64,
            heap_arr = (\<lambda>i. 0), timer_ids = (\<lambda>i. - (int i + 1)), timer_dups = (\<lambda>i. blank_dup),
            timer_ids_freelist = 1, entries = es, grp_refs = locks\<rparr>))"

definition pj_timer_heap_set_max_timed_out_per_poll ::
  "pj_timer_heap \<Rightarrow> nat \<Rightarrow> nat \<times> pj_timer_heap" where
  "pj_timer_heap_set_max_timed_out_per_poll ht count =
     (max_entries_per_poll ht, ht\<lparr>max_entries_per_poll := count\<rparr>)"

definition pj_timer_entry_init :: "int \<Rightarrow> nat \<Rightarrow> nat \<Rightarrow> pj_timer_entry" where
  "pj_timer_entry_init eid user_data cb =
     \<lparr>te_id = eid, te_user_data = user_data, te_cb = Some cb, te_timer_id = -1\<rparr>"

definition pj_timer_entry_running :: "pj_timer_entry \<Rightarrow> bool" where
  "pj_timer_entry_running e \<longleftrightarrow> te_timer_id e \<ge> 1"

definition schedule_w_grp_lock ::
  "alloc \<Rightarrow> pj_time_val \<Rightarrow> pj_timer_heap \<Rightarrow> nat \<Rightarrow> pj_time_val \<Rightarrow> int option \<Rightarrow> nat option
   \<Rightarrow> pj_status_t \<times> pj_timer_heap" where
  "schedule_w_grp_lock mem now ht entry delay set_id grp_lock =
     (if te_cb (entries ht entry) = None then (PJ_EINVAL, ht)
      else let expires = PJ_TIME_VAL_ADD now delay
      in if pj_timer_entry_running (entries ht entry) then (PJ_EINVALIDOP, ht)
      else case schedule_entry mem ht entry expires of (status, ht1) \<Rightarrow>
        if status = PJ_SUCCESS then
          let timer_copy = nat (te_timer_id (entries ht1 entry));
              ht2 = (case set_id of None \<Rightarrow> ht1
                     | Some id_val \<Rightarrow> ht1\<lparr>
                         entries := (entries ht1)(entry := (entries ht1 entry)\<lparr>te_id := id_val\<rparr>),
                         timer_dups := (timer_dups ht1)(timer_copy := (timer_dups ht1 timer_copy)
                           \<lparr>dup_entry := (dup_entry (timer_dups ht1 timer_copy))\<lparr>te_id := id_val\<rparr>\<rparr>)\<rparr>);
              ht3 = ht2\<lparr>timer_dups := (timer_dups ht2)(timer_copy :=
                          (timer_dups ht2 timer_copy)\<lparr>dup_grp_lock := grp_lock\<rparr>)\<rparr>;
              ht4 = (case grp_lock of None \<Rightarrow> ht3
                     | Some l \<Rightarrow> ht3\<lparr>grp_refs := (grp_refs ht3)(l := grp_refs ht3 l + 1)\<rparr>)
          in (status, ht4)
        else (status, ht1))"

definition pj_timer_heap_schedule ::
  "alloc \<Rightarrow> pj_time_val \<Rightarrow> pj_timer_heap \<Rightarrow> nat \<Rightarrow> pj_time_val \<Rightarrow> pj_status_t \<times> pj_timer_heap" where
  "pj_timer_heap_schedule mem now ht entry delay =
     schedule_w_grp_lock mem now ht entry delay None None"

definition pj_timer_heap_schedule_w_grp_lock ::
  "alloc \<Rightarrow> pj_time_val \<Rightarrow> pj_timer_heap \<Rightarrow> nat \<Rightarrow> pj_time_val \<Rightarrow> int \<Rightarrow> nat option
   \<Rightarrow> pj_status_t \<times> pj_timer_heap" where
  "pj_timer_heap_schedule_w_grp_lock mem now ht entry delay id_val grp_lock =
     schedule_w_grp_lock mem now ht entry delay (Some id_val) grp_lock"

text \<open>\<^verbatim>\<open>F_DONT_ASSERT\<close> only silences an assertion; \<open>set_id\<close> stands for \<^verbatim>\<open>F_SET_ID\<close> and its value.\<close>

definition cancel_timer ::
  "pj_timer_heap \<Rightarrow> nat \<Rightarrow> int option \<Rightarrow> int \<times> pj_timer_heap" where
  "cancel_timer ht entry set_id =
     (let tid = te_timer_id (entries ht entry)
      in if tid < 1 \<or> nat tid \<ge> max_size ht then (0, ht)
         else let grp_lock = dup_grp_lock (timer_dups ht (nat tid));
                  (count, ht1) = cancel ht entry
              in if count > 0 then
                   let ht2 = (case set_id of None \<Rightarrow> ht1
                              | Some id_val \<Rightarrow> ht1\<lparr>entries := (entries ht1)(entry :=
                                                    (entries ht1 entry)\<lparr>te_id := id_val\<rparr>)\<rparr>);
                       ht3 = (case grp_lock of None \<Rightarrow> ht2
                              | Some l \<Rightarrow> ht2\<lparr>grp_refs := (grp_refs ht2)(l := grp_refs ht2 l - 1)\<rparr>)
                   in (count, ht3)
                 else (count, ht1))"

definition pj_timer_heap_cancel :: "pj_timer_heap \<Rightarrow> nat \<Rightarrow> int \<times> pj_timer_heap" where
  "pj_timer_heap_cancel ht entry = cancel_timer ht entry None"

definition pj_timer_heap_cancel_if_active :: "pj_timer_heap \<Rightarrow> nat \<Rightarrow> int \<Rightarrow> int \<times> pj_timer_heap" where
  "pj_timer_heap_cancel_if_active ht entry id_val = cancel_timer ht entry (Some id_val)"

definition pj_timer_heap_count :: "pj_timer_heap \<Rightarrow> nat" where
  "pj_timer_heap_count ht = cur_size ht"

definition pj_timer_heap_earliest_time :: "pj_timer_heap \<Rightarrow> pj_status_t \<times> pj_time_val option" where
  "pj_timer_heap_earliest_time ht =
     (if cur_size ht = 0 then (PJ_ENOTFOUND, None) else (PJ_SUCCESS, Some (heap_time ht 0)))"

section \<open>Polling\<close>

text \<open>
  The callbacks and the clock are the environment: \<open>cb c e ht\<close> is the heap after the callback
  function \<open>c\<close> of entry \<open>e\<close> has run (it may schedule and cancel timers), \<open>clock k\<close> the \<open>k\<close>-th
  reading of \<^verbatim>\<open>pj_gettickcount\<close>. One iteration of the loop removes the root, runs its callback
  unless the entry was overwritten since it was scheduled, and releases the group lock. The fired
  entries are collected in order.
\<close>

definition poll_one ::
  "(nat \<Rightarrow> nat \<Rightarrow> pj_timer_heap \<Rightarrow> pj_timer_heap) \<Rightarrow> pj_timer_heap \<Rightarrow> nat \<times> pj_timer_heap" where
  "poll_one cb ht0 =
     (let (node, ht1) = remove_node ht0 0;
          entry = dup_ptr (timer_dups ht1 node);
          grp_lock = dup_grp_lock (timer_dups ht1 node);
          ht2 = ht1\<lparr>timer_dups := (timer_dups ht1)(node := (timer_dups ht1 node)\<lparr>dup_grp_lock := None\<rparr>)\<rparr>;
          valid = (te_cb (dup_entry (timer_dups ht2 node)) = te_cb (entries ht2 entry) \<and>
                   te_user_data (dup_entry (timer_dups ht2 node)) = te_user_data (entries ht2 entry));
          ht3 = (case te_cb (entries ht2 entry) of None \<Rightarrow> ht2
                 | Some c \<Rightarrow> if valid then cb c entry ht2 else ht2);
          ht4 = (case grp_lock of None \<Rightarrow> ht3
                 | Some l \<Rightarrow> if valid then ht3\<lparr>grp_refs := (grp_refs ht3)(l := grp_refs ht3 l - 1)\<rparr>
                             else ht3)
      in (entry, ht4))"

partial_function (option) poll_loop ::
  "(nat \<Rightarrow> nat \<Rightarrow> pj_timer_heap \<Rightarrow> pj_timer_heap) \<Rightarrow> (nat \<Rightarrow> pj_time_val) \<Rightarrow> nat \<Rightarrow> pj_time_val
   \<Rightarrow> pj_time_val \<Rightarrow> nat \<Rightarrow> nat list \<Rightarrow> pj_timer_heap
   \<Rightarrow> (nat \<times> nat \<times> pj_time_val \<times> nat list \<times> pj_timer_heap) option" where
  "poll_loop cb clock k now min_time_node count fired ht =
     (if cur_size ht > 0 \<and> PJ_TIME_VAL_LTE min_time_node now \<and> count < max_entries_per_poll ht then
        (case poll_one cb ht of (entry, ht1) \<Rightarrow>
           if cur_size ht1 > 0
           then poll_loop cb clock (k + 1) (clock k) (heap_time ht1 0) (count + 1)
                  (fired @ [entry]) ht1
           else poll_loop cb clock k now min_time_node (count + 1) (fired @ [entry]) ht1)
      else Some (count, k, now, fired, ht))"

definition PJ_MAXINT32 :: int where
  "PJ_MAXINT32 = 0x7FFFFFFF"

text \<open>
  The result is the count, the delay until the next timer (the code's \<^verbatim>\<open>next_delay\<close>, asked for),
  the entries fired and the heap.
\<close>

definition pj_timer_heap_poll ::
  "(nat \<Rightarrow> nat \<Rightarrow> pj_timer_heap \<Rightarrow> pj_timer_heap) \<Rightarrow> (nat \<Rightarrow> pj_time_val) \<Rightarrow> pj_timer_heap
   \<Rightarrow> (nat \<times> pj_time_val \<times> nat list \<times> pj_timer_heap) option" where
  "pj_timer_heap_poll cb clock ht =
     (if cur_size ht = 0 then Some (0, Time_Val PJ_MAXINT32 PJ_MAXINT32, [], ht)
      else case poll_loop cb clock 1 (clock 0) (heap_time ht 0) 0 [] ht of
        None \<Rightarrow> None
      | Some (count, k, now, fired, ht1) \<Rightarrow>
          if cur_size ht1 > 0 then
            let now1 = (if count > 0 then clock k else now);
                d = PJ_TIME_VAL_SUB (heap_time ht1 0) now1;
                next_delay = (if sec d < 0 \<or> msec d < 0 then Time_Val 0 0 else d)
            in Some (count, next_delay, fired, ht1)
          else Some (count, Time_Val PJ_MAXINT32 PJ_MAXINT32, fired, ht1))"

end
