(* ===== verification/Timer_Heap_Props.thy ===== *)
theory Timer_Heap_Props
  imports Timer_Heap
begin

text \<open>
  Correctness of the timer heap: the invariant that ties the heap array, the identifier table, the
  free list and the entries together, its preservation by every operation, and the refinement of
  the heap to the map from entries to expiry times that its clients see.
\<close>

section \<open>Positions in the heap\<close>

lemma parent_less [simp]: "0 < i \<Longrightarrow> HEAP_PARENT i < i"
  by (simp add: HEAP_PARENT_def)

lemma parent_le [simp]: "HEAP_PARENT i \<le> i"
  by (cases i) (auto simp: HEAP_PARENT_def)

lemma parent_eq_iff: "0 < i \<Longrightarrow> HEAP_PARENT i = s \<longleftrightarrow> i = HEAP_LEFT s \<or> i = HEAP_LEFT s + 1"
  unfolding HEAP_PARENT_def HEAP_LEFT_def by presburger

lemma parent_left [simp]: "HEAP_PARENT (HEAP_LEFT s) = s" "HEAP_PARENT (Suc (HEAP_LEFT s)) = s"
  by (auto simp: HEAP_PARENT_def HEAP_LEFT_def)

lemma left_greater [simp]: "s < HEAP_LEFT s"
  by (simp add: HEAP_LEFT_def)

text \<open>
  The order is stated for an array \<open>v\<close> of \<open>n\<close> nodes with times \<open>k\<close>. While a node is sifted, it
  is in hand and its slot is a hole; \<open>v\<close> is the array with the node put in the hole.
\<close>

definition ordered :: "nat \<Rightarrow> (nat \<Rightarrow> pj_time_val) \<Rightarrow> (nat \<Rightarrow> nat) \<Rightarrow> bool" where
  "ordered n k v \<longleftrightarrow> (\<forall>i. 0 < i \<and> i < n \<longrightarrow> k (v (HEAP_PARENT i)) \<le> k (v i))"

definition up_ok :: "nat \<Rightarrow> (nat \<Rightarrow> pj_time_val) \<Rightarrow> nat \<Rightarrow> (nat \<Rightarrow> nat) \<Rightarrow> bool" where
  "up_ok n k s v \<longleftrightarrow>
     (\<forall>i. 0 < i \<and> i < n \<and> i \<noteq> s \<longrightarrow> k (v (HEAP_PARENT i)) \<le> k (v i)) \<and>
     (\<forall>i. 0 < i \<and> i < n \<and> HEAP_PARENT i = s \<and> 0 < s \<longrightarrow> k (v (HEAP_PARENT s)) \<le> k (v i))"

definition down_ok :: "nat \<Rightarrow> (nat \<Rightarrow> pj_time_val) \<Rightarrow> nat \<Rightarrow> (nat \<Rightarrow> nat) \<Rightarrow> bool" where
  "down_ok n k s v \<longleftrightarrow>
     (\<forall>i. 0 < i \<and> i < n \<and> HEAP_PARENT i \<noteq> s \<longrightarrow> k (v (HEAP_PARENT i)) \<le> k (v i)) \<and>
     (\<forall>i. 0 < i \<and> i < n \<and> HEAP_PARENT i = s \<and> 0 < s \<longrightarrow> k (v (HEAP_PARENT s)) \<le> k (v i))"

lemma ordered_root: "ordered n k v \<Longrightarrow> i < n \<Longrightarrow> k (v 0) \<le> k (v i)"
proof (induction i rule: less_induct)
  case (less i)
  show ?case
  proof (cases "i = 0")
    case False
    then have "k (v 0) \<le> k (v (HEAP_PARENT i))"
      using less parent_less[of i] by (meson gr0I le_less_trans less_imp_le)
    also have "\<dots> \<le> k (v i)"
      using False less.prems by (simp add: ordered_def)
    finally show ?thesis .
  qed simp
qed

lemma up_step:
  assumes "up_ok n k s v" and "0 < s" and "s < n" and "k (v s) < k (v (HEAP_PARENT s))"
  shows "up_ok n k (HEAP_PARENT s) (v(s := v (HEAP_PARENT s), HEAP_PARENT s := v s))"
proof -
  have P: "HEAP_PARENT s < s" using assms by simp
  have A: "\<And>i. 0 < i \<Longrightarrow> i < n \<Longrightarrow> i \<noteq> s \<Longrightarrow> k (v (HEAP_PARENT i)) \<le> k (v i)"
    and B: "\<And>i. 0 < i \<Longrightarrow> i < n \<Longrightarrow> HEAP_PARENT i = s \<Longrightarrow> k (v (HEAP_PARENT s)) \<le> k (v i)"
    using assms(1,2) by (auto simp: up_ok_def)
  let ?v = "v(s := v (HEAP_PARENT s), HEAP_PARENT s := v s)"
  show ?thesis unfolding up_ok_def
  proof (intro conjI allI impI)
    fix i assume i: "0 < i \<and> i < n \<and> i \<noteq> HEAP_PARENT s"
    show "k (?v (HEAP_PARENT i)) \<le> k (?v i)"
    proof (cases "i = s")
      case True
      then show ?thesis using assms(4) P by auto
    next
      case False
      show ?thesis
      proof (cases "HEAP_PARENT i = s")
        case True
        then show ?thesis using B[of i] i False P by auto
      next
        case neq: False
        then show ?thesis using A[of i] i False P assms(4)
          by (cases "HEAP_PARENT i = HEAP_PARENT s") auto
      qed
    qed
  next
    fix i assume i: "0 < i \<and> i < n \<and> HEAP_PARENT i = HEAP_PARENT s \<and> 0 < HEAP_PARENT s"
    have P2: "HEAP_PARENT (HEAP_PARENT s) < HEAP_PARENT s" using i by simp
    have C: "k (v (HEAP_PARENT (HEAP_PARENT s))) \<le> k (v (HEAP_PARENT s))"
      using A[of "HEAP_PARENT s"] i P assms(3) by simp
    have D: "i \<noteq> HEAP_PARENT s" using i P by (metis nat_less_le parent_less)
    have "i \<noteq> s \<Longrightarrow> k (v (HEAP_PARENT s)) \<le> k (v i)"
      using A[of i] i by simp
    then show "k (?v (HEAP_PARENT (HEAP_PARENT s))) \<le> k (?v i)"
      using C D P P2 by (cases "i = s") auto
  qed
qed

lemma up_done:
  "up_ok n k s v \<Longrightarrow> s = 0 \<or> k (v (HEAP_PARENT s)) \<le> k (v s) \<Longrightarrow> ordered n k v"
  by (auto simp: up_ok_def ordered_def)

lemma down_step:
  assumes "down_ok n k s v" and "s < c" and "c < n" and "HEAP_PARENT c = s"
    and "\<And>i. 0 < i \<Longrightarrow> i < n \<Longrightarrow> HEAP_PARENT i = s \<Longrightarrow> k (v c) \<le> k (v i)"
    and "k (v c) < k (v s)"
  shows "down_ok n k c (v(s := v c, c := v s))"
proof -
  have A: "\<And>i. 0 < i \<Longrightarrow> i < n \<Longrightarrow> HEAP_PARENT i \<noteq> s \<Longrightarrow> k (v (HEAP_PARENT i)) \<le> k (v i)"
    and B: "\<And>i. 0 < i \<Longrightarrow> i < n \<Longrightarrow> HEAP_PARENT i = s \<Longrightarrow> 0 < s \<Longrightarrow> k (v (HEAP_PARENT s)) \<le> k (v i)"
    using assms(1) by (auto simp: down_ok_def)
  let ?v = "v(s := v c, c := v s)"
  show ?thesis unfolding down_ok_def
  proof (intro conjI allI impI)
    fix i assume i: "0 < i \<and> i < n \<and> HEAP_PARENT i \<noteq> c"
    show "k (?v (HEAP_PARENT i)) \<le> k (?v i)"
    proof (cases "HEAP_PARENT i = s")
      case True
      then show ?thesis using assms(2,6) assms(5)[of i] i
        by (cases "i = c"; cases "i = s") (auto simp: less_imp_le)
    next
      case False
      have ics: "i \<noteq> c" using False assms(4) by auto
      show ?thesis
      proof (cases "i = s")
        case True
        then show ?thesis using B[of c] False ics assms i by (auto simp: less_imp_le)
      next
        case neq: False
        then show ?thesis using A[of i] False ics i by auto
      qed
    qed
  next
    fix i assume i: "0 < i \<and> i < n \<and> HEAP_PARENT i = c \<and> 0 < c"
    have "i \<noteq> s" "i \<noteq> c" using i assms(2) by (metis less_asym parent_less, metis i nat_less_le parent_less)
    then show "k (?v (HEAP_PARENT c)) \<le> k (?v i)"
      using A[of i] i assms(2,4) by auto
  qed
qed

lemma down_done:
  assumes "down_ok n k s v" and "\<And>i. 0 < i \<Longrightarrow> i < n \<Longrightarrow> HEAP_PARENT i = s \<Longrightarrow> k (v s) \<le> k (v i)"
  shows "ordered n k v"
  using assms by (auto simp: down_ok_def ordered_def)

text \<open>Exchanging the content of two slots.\<close>

lemma swap_inj:
  assumes "inj_on v A" and "s \<in> A" and "p \<in> A"
  shows "inj_on (v(s := v p, p := v s)) A"
proof (rule inj_onI)
  fix x y assume "x \<in> A" "y \<in> A" "(v(s := v p, p := v s)) x = (v(s := v p, p := v s)) y"
  with assms show "x = y"
    by (cases "x = p"; cases "y = p"; cases "x = s"; cases "y = s") (simp_all add: inj_on_eq_iff)
qed

lemma swap_image:
  assumes "s \<in> A" and "p \<in> A"
  shows "(v(s := v p, p := v s)) ` A = v ` A"
proof (intro equalityI subsetI)
  fix y assume "y \<in> (v(s := v p, p := v s)) ` A"
  then obtain x where "x \<in> A" "y = (v(s := v p, p := v s)) x" by blast
  then show "y \<in> v ` A" using assms by (cases "x = p"; cases "x = s") simp_all
next
  fix y assume "y \<in> v ` A"
  then obtain x where x: "x \<in> A" "y = v x" by blast
  show "y \<in> (v(s := v p, p := v s)) ` A"
  proof (cases "x = s")
    case True
    then have "y = (v(s := v p, p := v s)) p" using x by simp
    then show ?thesis using assms(2) by (rule image_eqI)
  next
    case False
    show ?thesis
    proof (cases "x = p")
      case True
      with False have "y = (v(s := v p, p := v s)) s" using x by auto
      then show ?thesis using assms(1) by (rule image_eqI)
    next
      case neq: False
      with False have "y = (v(s := v p, p := v s)) x" using x by simp
      then show ?thesis using x(1) by (rule image_eqI)
    qed
  qed
qed

section \<open>Sifting\<close>

abbreviation tval :: "pj_timer_heap \<Rightarrow> nat \<Rightarrow> pj_time_val" where
  "tval ht d \<equiv> dup_timer_value (timer_dups ht d)"

definition filled :: "pj_timer_heap \<Rightarrow> nat \<Rightarrow> nat \<Rightarrow> nat \<Rightarrow> nat" where
  "filled ht s m = (heap_arr ht)(s := m)"

lemma filled_at [simp]:
  "filled ht s m s = m"
  "i \<noteq> s \<Longrightarrow> filled ht s m i = heap_arr ht i"
  by (simp_all add: filled_def)

definition hole :: "nat \<Rightarrow> nat \<Rightarrow> nat \<Rightarrow> pj_timer_heap \<Rightarrow> bool" where
  "hole n s m ht \<longleftrightarrow> s < n \<and> inj_on (filled ht s m) {..<n} \<and>
     (\<forall>i<n. i \<noteq> s \<longrightarrow> timer_ids ht (heap_arr ht i) = int i) \<and>
     (\<forall>i<n. dup_timer_id (timer_dups ht (filled ht s m i)) = int (filled ht s m i))"

definition sifted :: "nat \<Rightarrow> nat set \<Rightarrow> pj_timer_heap \<Rightarrow> pj_timer_heap \<Rightarrow> bool" where
  "sifted n S ht ht' \<longleftrightarrow>
     ht' = ht\<lparr>heap_arr := heap_arr ht', timer_ids := timer_ids ht'\<rparr> \<and>
     heap_arr ht' ` {..<n} = S \<and> inj_on (heap_arr ht') {..<n} \<and>
     (\<forall>i<n. timer_ids ht' (heap_arr ht' i) = int i) \<and>
     (\<forall>x. x \<notin> S \<longrightarrow> timer_ids ht' x = timer_ids ht x) \<and>
     ordered n (tval ht) (heap_arr ht')"

lemma hole_step:
  assumes "hole n s m ht" and "p < n" and "p \<noteq> s"
  defines "ht' \<equiv> copy_node ht s (heap_arr ht p)"
  shows "hole n p m ht'"
    and "filled ht' p m = (filled ht s m)(s := filled ht s m p, p := filled ht s m s)"
proof -
  let ?v = "filled ht s m"
  have sn: "s < n" and inj: "inj_on ?v {..<n}"
    and ids: "\<And>i. i < n \<Longrightarrow> i \<noteq> s \<Longrightarrow> timer_ids ht (heap_arr ht i) = int i"
    and tid: "\<And>i. i < n \<Longrightarrow> dup_timer_id (timer_dups ht (?v i)) = int (?v i)"
    using assms(1) by (auto simp: hole_def)
  show eq: "filled ht' p m = ?v(s := ?v p, p := ?v s)"
    using assms(3) by (simp add: filled_def ht'_def copy_node_def fun_eq_iff)
  have "inj_on (filled ht' p m) {..<n}"
    unfolding eq by (rule swap_inj) (use inj sn assms(2) in simp_all)
  moreover have "dup_timer_id (timer_dups ht' (filled ht' p m i)) = int (filled ht' p m i)" if "i < n" for i
    using tid[OF that] tid[OF sn] tid[OF assms(2)] assms(3)
    unfolding eq by (cases "i = s"; cases "i = p") (simp_all add: ht'_def)
  moreover have "timer_ids ht' (heap_arr ht' i) = int i" if i: "i < n" "i \<noteq> p" for i
  proof (cases "i = s")
    case True
    then show ?thesis using tid[OF assms(2)] assms(3) by (simp add: ht'_def copy_node_def)
  next
    case False
    then have "heap_arr ht p \<noteq> heap_arr ht i"
      using inj_onD[OF inj, of i p] i assms(2,3) by auto
    then show ?thesis
      using ids[OF i(1) False] tid[OF assms(2)] assms(3) False by (simp add: ht'_def copy_node_def)
  qed
  ultimately show "hole n p m ht'" using assms(2) by (simp add: hole_def)
qed

lemma hole_fill:
  assumes "hole n s m ht" and "ordered n (tval ht) (filled ht s m)"
  shows "sifted n (filled ht s m ` {..<n}) ht (copy_node ht s m)"
proof -
  let ?v = "filled ht s m"
  have sn: "s < n" and inj: "inj_on ?v {..<n}"
    and ids: "\<And>i. i < n \<Longrightarrow> i \<noteq> s \<Longrightarrow> timer_ids ht (heap_arr ht i) = int i"
    and tid: "dup_timer_id (timer_dups ht m) = int m"
    using assms(1) by (auto simp: hole_def)
  have arr: "heap_arr (copy_node ht s m) = ?v"
    and tids: "timer_ids (copy_node ht s m) = (timer_ids ht)(m := int s)"
    by (simp_all add: copy_node_def tid filled_def)
  have m: "m \<in> ?v ` {..<n}" using sn by (intro image_eqI[of _ _ s]) simp_all
  have "timer_ids (copy_node ht s m) (?v i) = int i" if "i < n" for i
  proof (cases "i = s")
    case False
    then have "heap_arr ht i \<noteq> m"
      using inj_onD[OF inj, of i s] sn that by auto
    then show ?thesis using ids[OF that] False by (simp add: tids)
  qed (simp add: tids)
  moreover have "timer_ids (copy_node ht s m) x = timer_ids ht x" if "x \<notin> ?v ` {..<n}" for x
    using m that by (auto simp: tids)
  moreover have "copy_node ht s m = ht\<lparr>heap_arr := ?v, timer_ids := timer_ids (copy_node ht s m)\<rparr>"
    by (simp add: copy_node_def filled_def)
  ultimately show ?thesis
    using assms(2) inj unfolding sifted_def arr by simp
qed

lemma sifted_copy:
  assumes "sifted n S (copy_node ht s x) ht'" and "nat (dup_timer_id (timer_dups ht x)) \<in> S"
  shows "sifted n S ht ht'"
  using assms by (auto simp: sifted_def copy_node_def)

lemma reheap_up_sifted:
  "hole n s m ht \<Longrightarrow> p = HEAP_PARENT s \<Longrightarrow> up_ok n (tval ht) s (filled ht s m)
   \<Longrightarrow> sifted n (filled ht s m ` {..<n}) ht (reheap_up ht m s p)"
proof (induction ht m s p rule: reheap_up.induct)
  case (1 ht m s p)
  let ?v = "filled ht s m"
  have sn: "s < n" using "1.prems"(1) by (simp add: hole_def)
  show ?case
  proof (cases "s > 0 \<and> tval ht m < heap_time ht p")
    case True
    then have ps: "p \<noteq> s" "p < n"
      using "1.prems"(2) sn parent_less[of s] by (auto simp del: parent_less)
    let ?ht = "copy_node ht s (heap_arr ht p)"
    note step = hole_step[OF "1.prems"(1) ps(2,1)]
    have lt: "tval ht (?v s) < tval ht (?v (HEAP_PARENT s))"
      using True ps "1.prems"(2) by (simp add: heap_time_def)
    have up: "up_ok n (tval ?ht) p (filled ?ht p m)"
      using up_step[OF "1.prems"(3) _ sn lt] True unfolding step(2) copy_node_frame
      by (simp only: "1.prems"(2)[symmetric])
    have IH: "sifted n (filled ?ht p m ` {..<n}) ?ht (reheap_up ?ht m p (HEAP_PARENT p))"
      using True "1.IH" step(1) up by simp
    have "dup_timer_id (timer_dups ht (?v p)) = int (?v p)"
      using "1.prems"(1) ps by (auto simp: hole_def)
    then have "nat (dup_timer_id (timer_dups ht (heap_arr ht p))) = ?v p"
      using ps by simp
    then have mem: "nat (dup_timer_id (timer_dups ht (heap_arr ht p))) \<in> ?v ` {..<n}"
      using ps by (metis imageI lessThan_iff)
    have "filled ?ht p m ` {..<n} = ?v ` {..<n}"
      unfolding step(2) by (rule swap_image) (use sn ps in simp_all)
    then have "sifted n (?v ` {..<n}) ht (reheap_up ?ht m p (HEAP_PARENT p))"
      using sifted_copy[OF IH] mem by simp
    then show ?thesis using True by (subst reheap_up.simps) simp
  next
    case False
    then have "ordered n (tval ht) ?v"
      using up_done[OF "1.prems"(3)] "1.prems"(2)
      by (cases "HEAP_PARENT s = s") (auto simp: heap_time_def not_less)
    then show ?thesis
      using hole_fill[OF "1.prems"(1)] False by (subst reheap_up.simps) (auto split: if_splits)
  qed
qed

text \<open>The child \<^verbatim>\<open>reheap_down\<close> compares with is the smaller one.\<close>

lemma smaller_child:
  assumes "c = HEAP_LEFT s" and "c < n"
    and "c' = (if c + 1 < n \<and> k (v (c + 1)) < k (v c) then c + 1 else c)"
  shows "s < c'" and "c' < n" and "HEAP_PARENT c' = s"
    and "0 < i \<Longrightarrow> i < n \<Longrightarrow> HEAP_PARENT i = s \<Longrightarrow> (k (v c') :: pj_time_val) \<le> k (v i)"
  using assms parent_eq_iff[of i s] left_greater[of s] by (auto simp: not_less less_SucI)

lemma reheap_down_sifted:
  "hole (cur_size ht) s m ht \<Longrightarrow> c = HEAP_LEFT s \<Longrightarrow> down_ok (cur_size ht) (tval ht) s (filled ht s m)
   \<Longrightarrow> sifted (cur_size ht) (filled ht s m ` {..<cur_size ht}) ht (reheap_down ht m s c)"
proof (induction ht m s c rule: reheap_down.induct)
  case (1 ht m s c)
  let ?v = "filled ht s m"
  let ?n = "cur_size ht"
  let ?c = "if c + 1 < ?n \<and> heap_time ht (c + 1) < heap_time ht c then c + 1 else c"
  have sn: "s < ?n" using "1.prems"(1) by (simp add: hole_def)
  have kid: "s < i" if "0 < i" "HEAP_PARENT i = s" for i
    using that parent_less by blast
  have vt: "tval ht (?v i) = heap_time ht i" if "s < i" for i
    using that by (simp add: heap_time_def)
  have sc: "s < c" using "1.prems"(2) by simp
  note small = smaller_child[where k = "tval ht" and v = ?v, OF "1.prems"(2)]
  show ?case
  proof (cases "c < ?n")
    case False
    have "ordered ?n (tval ht) ?v"
      by (rule down_done[OF "1.prems"(3)]) (use False "1.prems"(2) parent_eq_iff in auto)
    then show ?thesis
      using hole_fill[OF "1.prems"(1)] False by (subst reheap_down.simps) simp
  next
    case cn: True
    have c': "?c = (if c + 1 < ?n \<and> tval ht (?v (c + 1)) < tval ht (?v c) then c + 1 else c)"
      using sc by (simp add: heap_time_def)
    note small = small[OF cn c']
    show ?thesis
    proof (cases "heap_time ht ?c < tval ht m")
      case True
      let ?ht = "copy_node ht s (heap_arr ht ?c)"
      have ne: "?c \<noteq> s" using small(1) by simp
      note step = hole_step[OF "1.prems"(1) small(2) ne]
      have lt: "tval ht (?v ?c) < tval ht (?v s)"
        unfolding vt[OF small(1)] using True by (simp only: filled_at)
      have down: "down_ok ?n (tval ht) ?c (filled ?ht ?c m)"
        unfolding step(2) by (rule down_step[OF "1.prems"(3) small(1-3) small(4) lt])
      have IH: "sifted ?n (filled ?ht ?c m ` {..<?n}) ?ht (reheap_down ?ht m ?c (HEAP_LEFT ?c))"
        using "1.IH"[OF cn refl] True step(1) down by simp
      have "dup_timer_id (timer_dups ht (?v ?c)) = int (?v ?c)"
        using "1.prems"(1) small(2) unfolding hole_def by blast
      then have "nat (dup_timer_id (timer_dups ht (heap_arr ht ?c))) = ?v ?c"
        by (simp only: filled_at(2)[OF ne] nat_int)
      then have mem: "nat (dup_timer_id (timer_dups ht (heap_arr ht ?c))) \<in> ?v ` {..<?n}"
        using small(2) by (metis imageI lessThan_iff)
      have "filled ?ht ?c m ` {..<?n} = ?v ` {..<?n}"
        unfolding step(2) by (rule swap_image) (use sn small(2) in simp_all)
      then have "sifted ?n (?v ` {..<?n}) ht (reheap_down ?ht m ?c (HEAP_LEFT ?c))"
        using sifted_copy[OF IH] mem by simp
      then show ?thesis using cn True by (subst reheap_down.simps) (simp add: Let_def)
    next
      case False
      have "ordered ?n (tval ht) ?v"
      proof (rule down_done[OF "1.prems"(3)])
        fix i assume i: "0 < i" "i < ?n" "HEAP_PARENT i = s"
        have "tval ht (?v s) \<le> tval ht (?v ?c)"
          unfolding vt[OF small(1)] using False by (simp only: filled_at not_less)
        also have "\<dots> \<le> tval ht (?v i)" by (rule small(4)[OF i])
        finally show "tval ht (?v s) \<le> tval ht (?v i)" .
      qed
      then show ?thesis
        using hole_fill[OF "1.prems"(1)] cn False by (subst reheap_down.simps) (simp add: Let_def)
    qed
  qed
qed

section \<open>The invariant\<close>

definition live :: "pj_timer_heap \<Rightarrow> nat set" where
  "live ht = heap_arr ht ` {..<cur_size ht}"

text \<open>The free list threads the unused identifiers and ends at \<^verbatim>\<open>max_size\<close>.\<close>

fun chain :: "(nat \<Rightarrow> int) \<Rightarrow> int \<Rightarrow> nat list \<Rightarrow> nat \<Rightarrow> bool" where
  "chain ids f [] mx \<longleftrightarrow> f = int mx"
| "chain ids f (x # xs) mx \<longleftrightarrow> f = int x \<and> 1 \<le> x \<and> x < mx \<and> chain ids (- ids x) xs mx"

definition frees :: "nat set \<Rightarrow> pj_timer_heap \<Rightarrow> bool" where
  "frees S ht \<longleftrightarrow> (\<exists>fl. chain (timer_ids ht) (timer_ids_freelist ht) fl (max_size ht) \<and> distinct fl \<and>
     set fl = {1..<max_size ht} - S)"

definition array_inv :: "pj_timer_heap \<Rightarrow> bool" where
  "array_inv ht \<longleftrightarrow> inj_on (heap_arr ht) {..<cur_size ht} \<and> live ht \<subseteq> {1..<max_size ht} \<and>
     (\<forall>i<cur_size ht. timer_ids ht (heap_arr ht i) = int i) \<and>
     (\<forall>d\<in>live ht. dup_timer_id (timer_dups ht d) = int d) \<and>
     ordered (cur_size ht) (tval ht) (heap_arr ht)"

definition entry_inv :: "pj_timer_heap \<Rightarrow> bool" where
  "entry_inv ht \<longleftrightarrow>
     (\<forall>d\<in>live ht. te_timer_id (entries ht (dup_ptr (timer_dups ht d))) = int d) \<and>
     (\<forall>e. te_timer_id (entries ht e) \<ge> 1 \<longrightarrow>
        nat (te_timer_id (entries ht e)) \<in> live ht \<and>
        dup_ptr (timer_dups ht (nat (te_timer_id (entries ht e)))) = e)"

definition heap_inv :: "pj_timer_heap \<Rightarrow> bool" where
  "heap_inv ht \<longleftrightarrow> cur_size ht + 2 \<le> max_size ht \<and> array_inv ht \<and> frees (live ht) ht \<and> entry_inv ht"

text \<open>What a client sees: which entries are scheduled, and when they expire.\<close>

definition sched :: "pj_timer_heap \<Rightarrow> nat \<Rightarrow> pj_time_val option" where
  "sched ht e = (if te_timer_id (entries ht e) \<ge> 1
                 then Some (tval ht (nat (te_timer_id (entries ht e)))) else None)"

lemma chain_cong:
  "(\<And>x. x \<in> set fl \<Longrightarrow> ids x = ids' x) \<Longrightarrow> chain ids f fl mx = chain ids' f fl mx"
  by (induction fl arbitrary: f) auto

lemma live_iff: "array_inv ht \<Longrightarrow> d \<in> live ht \<longleftrightarrow> (\<exists>i<cur_size ht. d = heap_arr ht i)"
  by (auto simp: live_def)

lemma card_live: "array_inv ht \<Longrightarrow> card (live ht) = cur_size ht"
  by (simp add: live_def array_inv_def card_image)

lemma sched_live:
  assumes "entry_inv ht" and "d \<in> live ht" and "array_inv ht"
  shows "sched ht (dup_ptr (timer_dups ht d)) = Some (tval ht d)"
  using assms by (force simp: entry_inv_def sched_def array_inv_def)

lemma sched_SomeE:
  assumes "entry_inv ht" and "sched ht e = Some t"
  obtains d where "d \<in> live ht" "te_timer_id (entries ht e) = int d"
    "dup_ptr (timer_dups ht d) = e" "t = tval ht d"
proof -
  let ?d = "nat (te_timer_id (entries ht e))"
  have "te_timer_id (entries ht e) \<ge> 1" using assms(2) by (simp add: sched_def split: if_splits)
  then show thesis using assms by (intro that[of ?d]) (auto simp: entry_inv_def sched_def)
qed

section \<open>Removing a node\<close>

text \<open>The heap after the bookkeeping of \<^verbatim>\<open>remove_node\<close>, before the last node fills the gap.\<close>

definition unlinked :: "pj_timer_heap \<Rightarrow> nat \<Rightarrow> pj_timer_heap" where
  "unlinked ht slot =
     (let d = heap_arr ht slot; e = dup_ptr (timer_dups ht d)
      in ht\<lparr>timer_ids := (timer_ids ht)(nat (dup_timer_id (timer_dups ht d)) := - timer_ids_freelist ht),
            timer_ids_freelist := dup_timer_id (timer_dups ht d),
            cur_size := cur_size ht - 1,
            entries := (entries ht)(e := (entries ht e)\<lparr>te_timer_id := -1\<rparr>),
            timer_dups := (timer_dups ht)(d := (timer_dups ht d)
              \<lparr>dup_entry := (dup_entry (timer_dups ht d))\<lparr>te_timer_id := -1\<rparr>\<rparr>)\<rparr>)"

lemma remove_node_unlinked:
  "remove_node ht slot =
     (heap_arr ht slot,
      let ht4 = unlinked ht slot; n = cur_size ht4; m = heap_arr ht n; ht5 = copy_node ht4 slot m
      in if slot < n then
           if heap_time ht5 (HEAP_PARENT slot) \<le> tval ht5 m
           then reheap_down ht5 m slot (HEAP_LEFT slot) else reheap_up ht5 m slot (HEAP_PARENT slot)
         else ht4)"
  by (simp add: remove_node_def unlinked_def push_freelist_def Let_def)

lemma tval_unlinked [simp]: "tval (unlinked ht slot) d = tval ht d"
  by (auto simp: unlinked_def Let_def)

lemma tval_unlinked_fun [simp]: "tval (unlinked ht slot) = tval ht"
  by (simp add: fun_eq_iff)

lemma hole_copy:
  assumes "hole n s m ht"
  shows "hole n s m (copy_node ht s m)" and "filled (copy_node ht s m) s m = filled ht s m"
proof -
  show eq: "filled (copy_node ht s m) s m = filled ht s m"
    by (simp add: filled_def copy_node_def)
  have "dup_timer_id (timer_dups ht m) = int m" and sn: "s < n"
    using assms by (auto simp: hole_def)
  moreover have "heap_arr ht i \<noteq> m" if "i < n" "i \<noteq> s" for i
    using assms that sn inj_onD[of "filled ht s m" "{..<n}" i s] by (auto simp: hole_def)
  ultimately show "hole n s m (copy_node ht s m)"
    using assms eq by (auto simp: hole_def copy_node_def filled_def)
qed

lemma filled_image_remove:
  fixes n :: nat
  assumes "inj_on h {..<n}" and "slot < n - 1"
  shows "(h(slot := h (n - 1))) ` {..<n - 1} = h ` {..<n} - {h slot}"
proof -
  have "{..<n} = insert (n - 1) {..<n - 1}"
    using assms(2) lessThan_Suc[of "n - 1"] by simp
  moreover have "h ` ({..<n - 1} - {slot}) = h ` {..<n - 1} - {h slot}"
    using assms by (subst inj_on_image_set_diff[of h "{..<n}"]) auto
  moreover have "h (n - 1) \<noteq> h slot" using assms by (auto simp: inj_on_eq_iff)
  moreover have "(h(slot := h (n - 1))) ` {..<n - 1} = insert (h (n - 1)) (h ` ({..<n - 1} - {slot}))"
    using assms(2) by (auto simp: image_iff)
  ultimately show ?thesis by auto
qed

text \<open>The last node in the gap: which way it has to be sifted.\<close>

lemma gap_down:
  assumes "ordered n k h" and "slot < n - 1" and "k (h (HEAP_PARENT slot)) \<le> k (h (n - 1)) \<or> slot = 0"
  shows "down_ok (n - 1) k slot (h(slot := h (n - 1)))"
proof -
  have O: "\<And>i. 0 < i \<Longrightarrow> i < n \<Longrightarrow> k (h (HEAP_PARENT i)) \<le> k (h i)"
    using assms(1) by (simp add: ordered_def)
  show ?thesis unfolding down_ok_def
  proof (intro conjI allI impI)
    fix i assume i: "0 < i \<and> i < n - 1 \<and> HEAP_PARENT i \<noteq> slot"
    then show "k ((h(slot := h (n - 1))) (HEAP_PARENT i)) \<le> k ((h(slot := h (n - 1))) i)"
      using O[of i] assms(3) by auto
  next
    fix i assume i: "0 < i \<and> i < n - 1 \<and> HEAP_PARENT i = slot \<and> 0 < slot"
    have "i \<noteq> slot" "HEAP_PARENT slot \<noteq> slot" using i parent_less nat_less_le by blast+
    moreover have "k (h (HEAP_PARENT slot)) \<le> k (h i)"
    proof (rule order_trans)
      show "k (h (HEAP_PARENT slot)) \<le> k (h slot)" using O[of slot] i assms(2) by simp
      have "i < n" using i by linarith
      then show "k (h slot) \<le> k (h i)" using O[of i] i by simp
    qed
    ultimately show "k ((h(slot := h (n - 1))) (HEAP_PARENT slot)) \<le> k ((h(slot := h (n - 1))) i)"
      by simp
  qed
qed

lemma gap_up:
  assumes "ordered n k h" and "slot < n - 1" and "0 < slot" and "k (h (n - 1)) < k (h (HEAP_PARENT slot))"
  shows "up_ok (n - 1) k slot (h(slot := h (n - 1)))"
proof -
  have O: "\<And>i. 0 < i \<Longrightarrow> i < n \<Longrightarrow> k (h (HEAP_PARENT i)) \<le> k (h i)"
    using assms(1) by (simp add: ordered_def)
  have ps: "k (h (HEAP_PARENT slot)) \<le> k (h slot)" using O[of slot] assms by simp
  show ?thesis unfolding up_ok_def
  proof (intro conjI allI impI)
    fix i assume i: "0 < i \<and> i < n - 1 \<and> i \<noteq> slot"
    have "k (h (n - 1)) \<le> k (h i)" if "HEAP_PARENT i = slot"
    proof -
      have "i < n" using i by linarith
      then have "k (h slot) \<le> k (h i)" using O[of i] that i by simp
      then show ?thesis using assms(4) ps by (meson less_imp_le order_trans)
    qed
    then show "k ((h(slot := h (n - 1))) (HEAP_PARENT i)) \<le> k ((h(slot := h (n - 1))) i)"
      using O[of i] i by auto
  next
    fix i assume i: "0 < i \<and> i < n - 1 \<and> HEAP_PARENT i = slot \<and> 0 < slot"
    have "i \<noteq> slot" "HEAP_PARENT slot \<noteq> slot" using i parent_less nat_less_le by blast+
    then show "k ((h(slot := h (n - 1))) (HEAP_PARENT slot)) \<le> k ((h(slot := h (n - 1))) i)"
      using O[of i] i ps by (auto intro: order_trans)
  qed
qed

lemma unlinked_fields [simp]:
  "heap_arr (unlinked ht slot) = heap_arr ht"
  "cur_size (unlinked ht slot) = cur_size ht - 1"
  "max_size (unlinked ht slot) = max_size ht"
  "grp_refs (unlinked ht slot) = grp_refs ht"
  "max_entries_per_poll (unlinked ht slot) = max_entries_per_poll ht"
  by (simp_all add: unlinked_def Let_def)

lemma unlinked_hole:
  assumes "array_inv ht" and "slot < cur_size ht - 1"
  shows "hole (cur_size ht - 1) slot (heap_arr ht (cur_size ht - 1)) (unlinked ht slot)"
proof -
  let ?n = "cur_size ht" and ?h = "heap_arr ht"
  have inj: "inj_on ?h {..<?n}" and ids: "\<And>i. i < ?n \<Longrightarrow> timer_ids ht (?h i) = int i"
    and tid: "\<And>i. i < ?n \<Longrightarrow> dup_timer_id (timer_dups ht (?h i)) = int (?h i)"
    using assms(1) by (auto simp: array_inv_def live_def)
  have neq: "?h i \<noteq> ?h slot" if "i < ?n" "i \<noteq> slot" for i
    using inj that assms(2) by (auto simp: inj_on_eq_iff)
  have "inj_on (filled (unlinked ht slot) slot (?h (?n - 1))) {..<?n - 1}"
  proof (rule inj_onI)
    fix x y assume xy: "x \<in> {..<?n - 1}" "y \<in> {..<?n - 1}" and
      "filled (unlinked ht slot) slot (?h (?n - 1)) x = filled (unlinked ht slot) slot (?h (?n - 1)) y"
    moreover have "x < ?n" "y < ?n" "?n - 1 < ?n" "x \<noteq> ?n - 1" "y \<noteq> ?n - 1" using xy by auto
    ultimately show "x = y"
      using inj_onD[OF inj, of x y] inj_onD[OF inj, of "?n - 1" y] inj_onD[OF inj, of x "?n - 1"]
      by (cases "x = slot"; cases "y = slot") (simp_all add: filled_def)
  qed
  moreover have "timer_ids (unlinked ht slot) (?h i) = int i" if "i < ?n - 1" "i \<noteq> slot" for i
    using ids[of i] neq[of i] tid[of slot] assms(2) that by (simp add: unlinked_def Let_def)
  moreover have "dup_timer_id (timer_dups (unlinked ht slot) (filled (unlinked ht slot) slot (?h (?n - 1)) i))
      = int (filled (unlinked ht slot) slot (?h (?n - 1)) i)" if "i < ?n - 1" for i
    using tid[of i] tid[of "?n - 1"] neq[of i] neq[of "?n - 1"] assms(2) that
    by (simp add: unlinked_def Let_def filled_def)
  ultimately show ?thesis using assms(2) by (simp add: hole_def)
qed

lemma remove_node_sifted:
  assumes "array_inv ht" and "slot < cur_size ht"
  shows "fst (remove_node ht slot) = heap_arr ht slot"
    and "sifted (cur_size ht - 1) (live ht - {heap_arr ht slot}) (unlinked ht slot)
           (snd (remove_node ht slot))"
proof -
  let ?n = "cur_size ht - 1" and ?h = "heap_arr ht" and ?u = "unlinked ht slot"
  let ?m = "?h ?n"
  have inj: "inj_on ?h {..<cur_size ht}" and ord: "ordered (cur_size ht) (tval ht) ?h"
    using assms(1) by (auto simp: array_inv_def)
  show "fst (remove_node ht slot) = ?h slot" by (simp add: remove_node_unlinked)
  show "sifted ?n (live ht - {?h slot}) ?u (snd (remove_node ht slot))"
  proof (cases "slot < ?n")
    case True
    let ?c = "copy_node ?u slot ?m"
    note hole = unlinked_hole[OF assms(1) True]
    note holec = hole_copy[OF hole]
    have v: "filled ?u slot ?m = ?h(slot := ?h ?n)" by (simp add: filled_def)
    have img: "filled ?u slot ?m ` {..<?n} = live ht - {?h slot}"
      unfolding v live_def by (rule filled_image_remove[OF inj True])
    have mS: "nat (dup_timer_id (timer_dups ?u ?m)) \<in> live ht - {?h slot}"
      unfolding img[symmetric] using hole by (auto simp: hole_def intro!: image_eqI[of _ _ slot])
    have par: "heap_time ?c (HEAP_PARENT slot) = tval ht ((?h(slot := ?h ?n)) (HEAP_PARENT slot))"
      by (simp add: heap_time_def copy_node_def)
    have "sifted ?n (live ht - {?h slot}) ?c (snd (remove_node ht slot))"
    proof (cases "heap_time ?c (HEAP_PARENT slot) \<le> tval ?c ?m")
      case le: True
      have "down_ok ?n (tval ?c) slot (filled ?c slot ?m)"
        using gap_down[OF ord True] le parent_less[of slot] unfolding par holec(2) v
        by (cases "slot = 0") (simp_all add: HEAP_PARENT_def)
      then show ?thesis
        using reheap_down_sifted[of ?c slot ?m] holec img le True
        by (simp add: remove_node_unlinked Let_def)
    next
      case gt: False
      then have "slot \<noteq> 0" unfolding par by (cases "slot = 0") (simp_all add: HEAP_PARENT_def)
      moreover have "HEAP_PARENT slot \<noteq> slot" using calculation parent_less[of slot] by (metis gr0I nat_neq_iff)
      ultimately have "up_ok ?n (tval ?c) slot (filled ?c slot ?m)"
        using gap_up[OF ord True] gt unfolding par holec(2) v by (auto simp: not_le)
      then show ?thesis
        using reheap_up_sifted[OF holec(1) refl] holec(2) img gt True
        by (simp add: remove_node_unlinked Let_def)
    qed
    then show ?thesis by (rule sifted_copy) (use mS in simp)
  next
    case False
    then have s: "slot = ?n" using assms(2) by simp
    have S: "live ht - {?h slot} = ?h ` {..<?n}"
    proof -
      have "{..<cur_size ht} = insert slot {..<?n}"
        using assms(2) s lessThan_Suc[of ?n] by simp
      moreover have "?h slot \<notin> ?h ` {..<?n}" using inj s assms(2) by (auto simp: inj_on_eq_iff)
      ultimately show ?thesis by (auto simp: live_def)
    qed
    have "timer_ids ?u (?h i) = int i" if "i < ?n" for i
      using assms that s inj by (auto simp: array_inv_def live_def unlinked_def Let_def inj_on_eq_iff)
    moreover have "ordered ?n (tval ht) ?h" using ord by (auto simp: ordered_def)
    moreover have "inj_on ?h {..<?n}" using inj by (auto simp: inj_on_def)
    ultimately show ?thesis
      using False by (simp add: sifted_def S remove_node_unlinked Let_def)
  qed
qed

lemma sifted_frame:
  assumes "sifted n S ht ht'"
  shows "max_size ht' = max_size ht" "cur_size ht' = cur_size ht"
    "max_entries_per_poll ht' = max_entries_per_poll ht" "timer_dups ht' = timer_dups ht"
    "timer_ids_freelist ht' = timer_ids_freelist ht" "entries ht' = entries ht"
    "grp_refs ht' = grp_refs ht"
proof -
  have eq: "ht' = ht\<lparr>heap_arr := heap_arr ht', timer_ids := timer_ids ht'\<rparr>"
    using assms unfolding sifted_def by (rule conjunct1)
  show "max_size ht' = max_size ht" using arg_cong[OF eq, of max_size] by simp
  show "cur_size ht' = cur_size ht" using arg_cong[OF eq, of cur_size] by simp
  show "max_entries_per_poll ht' = max_entries_per_poll ht"
    using arg_cong[OF eq, of max_entries_per_poll] by simp
  show "timer_dups ht' = timer_dups ht" using arg_cong[OF eq, of timer_dups] by simp
  show "timer_ids_freelist ht' = timer_ids_freelist ht"
    using arg_cong[OF eq, of timer_ids_freelist] by simp
  show "entries ht' = entries ht" using arg_cong[OF eq, of entries] by simp
  show "grp_refs ht' = grp_refs ht" using arg_cong[OF eq, of grp_refs] by simp
qed

lemma sifted_array_inv:
  assumes "sifted (cur_size ht') S ht ht1" and "heap_arr ht' = heap_arr ht1"
    and "timer_ids ht' = timer_ids ht1" and "timer_dups ht' = timer_dups ht1"
    and "max_size ht' = max_size ht1"
    and "S \<subseteq> {1..<max_size ht}" and "\<forall>d\<in>S. dup_timer_id (timer_dups ht d) = int d"
  shows "array_inv ht'" and "live ht' = S"
proof -
  show L: "live ht' = S" using assms(1,2) by (simp add: live_def sifted_def)
  have "timer_dups ht' = timer_dups ht" "max_size ht' = max_size ht"
    using sifted_frame[OF assms(1)] assms(4,5) by simp_all
  moreover have "inj_on (heap_arr ht') {..<cur_size ht'}"
    "\<forall>i<cur_size ht'. timer_ids ht' (heap_arr ht' i) = int i"
    "ordered (cur_size ht') (tval ht) (heap_arr ht')"
    using assms(1-3) unfolding sifted_def by simp_all
  ultimately show "array_inv ht'"
    using assms(6,7) unfolding array_inv_def L by simp
qed

lemma frees_push:
  assumes "frees S ht" and "d \<in> S" and "1 \<le> d" and "d < max_size ht"
    and "max_size ht' = max_size ht" and "timer_ids_freelist ht' = int d"
    and "timer_ids ht' d = - timer_ids_freelist ht"
    and "\<And>x. x \<notin> S \<Longrightarrow> timer_ids ht' x = timer_ids ht x"
  shows "frees (S - {d}) ht'"
proof -
  obtain fl where fl: "chain (timer_ids ht) (timer_ids_freelist ht) fl (max_size ht)" "distinct fl"
    "set fl = {1..<max_size ht} - S"
    using assms(1) by (auto simp: frees_def)
  have "chain (timer_ids ht') (timer_ids_freelist ht) fl (max_size ht)"
    using fl(1,3) assms(8) by (subst chain_cong[of _ _ "timer_ids ht"]) auto
  then have "chain (timer_ids ht') (timer_ids_freelist ht') (d # fl) (max_size ht')"
    using assms by simp
  moreover have "set (d # fl) = {1..<max_size ht'} - (S - {d})" using fl(3) assms by auto
  moreover have "distinct (d # fl)" using fl assms(2) by auto
  ultimately show ?thesis unfolding frees_def by blast
qed

lemma entry_inv_unlink:
  assumes "entry_inv ht" and "d \<in> live ht" and "live ht' = live ht - {d}"
    and "e = dup_ptr (timer_dups ht d)"
    and "entries ht' = (entries ht)(e := (entries ht e)\<lparr>te_timer_id := -1\<rparr>)"
    and "\<And>x. x \<noteq> d \<Longrightarrow> timer_dups ht' x = timer_dups ht x"
  shows "entry_inv ht'" and "sched ht' = (sched ht)(e := None)"
proof -
  have L: "\<And>x. x \<in> live ht \<Longrightarrow> te_timer_id (entries ht (dup_ptr (timer_dups ht x))) = int x"
    and E: "\<And>x. te_timer_id (entries ht x) \<ge> 1 \<Longrightarrow> nat (te_timer_id (entries ht x)) \<in> live ht \<and>
      dup_ptr (timer_dups ht (nat (te_timer_id (entries ht x)))) = x"
    using assms(1) by (auto simp: entry_inv_def)
  have ne: "nat (te_timer_id (entries ht x)) \<noteq> d"
    if "x \<noteq> e" "te_timer_id (entries ht x) \<ge> 1" for x
    using E[OF that(2)] that(1) assms(4) by auto
  have other: "dup_ptr (timer_dups ht x) \<noteq> e" if "x \<in> live ht" "x \<noteq> d" for x
    using L[OF that(1)] L[OF assms(2)] that(2) assms(4) by auto
  show "entry_inv ht'"
    unfolding entry_inv_def assms(3)
  proof (intro conjI ballI allI impI)
    fix x assume "x \<in> live ht - {d}"
    then show "te_timer_id (entries ht' (dup_ptr (timer_dups ht' x))) = int x"
      using L other assms(5,6) by simp
  next
    fix x assume x: "te_timer_id (entries ht' x) \<ge> 1"
    then have "x \<noteq> e" "te_timer_id (entries ht x) \<ge> 1" using assms(5) by (auto split: if_splits)
    then show "nat (te_timer_id (entries ht' x)) \<in> live ht - {d}"
      and "dup_ptr (timer_dups ht' (nat (te_timer_id (entries ht' x)))) = x"
      using E[of x] ne[of x] assms(5,6) by simp_all
  qed
  show "sched ht' = (sched ht)(e := None)"
  proof
    fix x show "sched ht' x = ((sched ht)(e := None)) x"
      using ne[of x] assms(5,6) by (cases "x = e") (simp_all add: sched_def)
  qed
qed

lemma remove_node_inv:
  assumes "heap_inv ht" and "slot < cur_size ht"
  defines "d \<equiv> heap_arr ht slot"
  defines "ht' \<equiv> snd (remove_node ht slot)"
  shows "heap_inv ht'" and "live ht' = live ht - {d}" and "cur_size ht' = cur_size ht - 1"
    and "max_size ht' = max_size ht" and "max_entries_per_poll ht' = max_entries_per_poll ht"
    and "sched ht' = (sched ht)(dup_ptr (timer_dups ht d) := None)"
    and "grp_refs ht' = grp_refs ht" and "dup_ptr (timer_dups ht' d) = dup_ptr (timer_dups ht d)"
    and "dup_grp_lock (timer_dups ht' d) = dup_grp_lock (timer_dups ht d)"
    and "x \<noteq> d \<Longrightarrow> timer_dups ht' x = timer_dups ht x"
    and "entries ht' = (entries ht)(dup_ptr (timer_dups ht d) :=
           (entries ht (dup_ptr (timer_dups ht d)))\<lparr>te_timer_id := -1\<rparr>)"
proof -
  let ?u = "unlinked ht slot"
  have inv: "array_inv ht" "frees (live ht) ht" "entry_inv ht" "cur_size ht + 2 \<le> max_size ht"
    using assms(1) by (auto simp: heap_inv_def)
  have dl: "d \<in> live ht" using assms(2) by (auto simp: d_def live_def)
  have tid: "dup_timer_id (timer_dups ht d) = int d" and rng: "1 \<le> d" "d < max_size ht"
    and sub: "live ht \<subseteq> {1..<max_size ht}"
    using inv(1) dl by (auto simp: array_inv_def)
  have S: "sifted (cur_size ht - 1) (live ht - {d}) ?u ht'"
    unfolding d_def ht'_def by (rule remove_node_sifted(2)[OF inv(1) assms(2)])
  note F = sifted_frame[OF S]
  show cs: "cur_size ht' = cur_size ht - 1" and mx: "max_size ht' = max_size ht"
    and "max_entries_per_poll ht' = max_entries_per_poll ht" "grp_refs ht' = grp_refs ht"
    using F by simp_all
  show en: "entries ht' = (entries ht)(dup_ptr (timer_dups ht d) :=
      (entries ht (dup_ptr (timer_dups ht d)))\<lparr>te_timer_id := -1\<rparr>)"
    using F(6) by (simp add: unlinked_def Let_def d_def)
  show du: "timer_dups ht' x = timer_dups ht x" if "x \<noteq> d" for x
    using F(4) that by (simp add: unlinked_def Let_def d_def)
  show "dup_ptr (timer_dups ht' d) = dup_ptr (timer_dups ht d)"
    "dup_grp_lock (timer_dups ht' d) = dup_grp_lock (timer_dups ht d)"
    using F(4) by (simp_all add: unlinked_def Let_def d_def)
  have "\<forall>x\<in>live ht - {d}. dup_timer_id (timer_dups ?u x) = int x"
    using inv(1) by (auto simp: array_inv_def unlinked_def Let_def d_def)
  then have A: "array_inv ht'" and L: "live ht' = live ht - {d}"
    using sifted_array_inv[of ht' "live ht - {d}" ?u ht'] S sub cs by auto
  show "live ht' = live ht - {d}" by fact
  note E = entry_inv_unlink[OF inv(3) dl L refl en du]
  show "sched ht' = (sched ht)(dup_ptr (timer_dups ht d) := None)" by (rule E(2))
  have "timer_ids ht' x = timer_ids ?u x" if "x \<notin> live ht - {d}" for x
    using S that by (simp add: sifted_def)
  then have "timer_ids ht' d = - timer_ids_freelist ht"
    and "\<And>x. x \<notin> live ht \<Longrightarrow> timer_ids ht' x = timer_ids ht x"
    using tid dl by (auto simp: unlinked_def Let_def d_def)
  moreover have "timer_ids_freelist ht' = int d"
    using F(5) tid by (simp add: unlinked_def Let_def d_def)
  ultimately have "frees (live ht') ht'"
    unfolding L using frees_push[OF inv(2) dl rng mx] by blast
  then show "heap_inv ht'" using A E(1) cs mx inv(4) by (simp add: heap_inv_def)
qed

section \<open>Inserting a node\<close>

lemma frees_pop:
  assumes "frees S ht" and "\<exists>x. x \<in> {1..<max_size ht} - S"
  obtains x where "timer_ids_freelist ht = int x" and "x \<in> {1..<max_size ht} - S"
    and "frees (insert x S) (ht\<lparr>timer_ids_freelist := - timer_ids ht x\<rparr>)"
proof -
  obtain fl where fl: "chain (timer_ids ht) (timer_ids_freelist ht) fl (max_size ht)" "distinct fl"
    "set fl = {1..<max_size ht} - S"
    using assms(1) by (auto simp: frees_def)
  with assms(2) obtain x xs where "fl = x # xs" by (cases fl) auto
  with fl show thesis
    by (intro that[of x]) (auto simp: frees_def intro!: exI[of _ xs])
qed

lemma chain_extend:
  assumes "chain ids f fl mx" and "mx \<le> mx'" and "0 < mx"
    and "\<And>i. mx \<le> i \<Longrightarrow> i < mx' \<Longrightarrow> ids i = - (int i + 1)"
  shows "chain ids f (fl @ [mx..<mx']) mx'"
  using assms
proof (induction fl arbitrary: f)
  case Nil
  have "chain ids (int k) [k..<mx'] mx'" if "k \<le> mx'" "mx \<le> k" for k
    using that
  proof (induction "mx' - k" arbitrary: k)
    case (Suc m)
    then have "[k..<mx'] = k # [Suc k..<mx']" by (simp add: upt_conv_Cons)
    then show ?case
      using Suc.hyps(1)[of "Suc k"] Suc.hyps(2) Suc.prems Nil.prems(3,4) by auto
  qed simp
  then show ?case using Nil by simp
qed auto

lemma ordered_cong: "(\<And>i. i < n \<Longrightarrow> v i = v' i) \<Longrightarrow> (\<And>i. i < n \<Longrightarrow> k (v i) = k' (v i))
  \<Longrightarrow> ordered n k v = ordered n k' v'"
  unfolding ordered_def by (metis le_less_trans parent_le)

definition grown :: "pj_timer_heap \<Rightarrow> pj_timer_heap" where
  "grown ht = ht\<lparr>heap_arr := (\<lambda>i. if i < cur_size ht then heap_arr ht i else 0),
     timer_ids := (\<lambda>i. if max_size ht \<le> i \<and> i < max_size ht * 2 then - (int i + 1) else timer_ids ht i),
     max_size := max_size ht * 2\<rparr>"

lemma frees_cong:
  assumes "frees S ht" and "timer_ids_freelist ht' = timer_ids_freelist ht" and "max_size ht' = max_size ht"
    and "\<And>x. x \<notin> S \<Longrightarrow> timer_ids ht' x = timer_ids ht x"
  shows "frees S ht'"
proof -
  obtain fl where fl: "chain (timer_ids ht) (timer_ids_freelist ht) fl (max_size ht)" "distinct fl"
    "set fl = {1..<max_size ht} - S"
    using assms(1) by (auto simp: frees_def)
  then have "chain (timer_ids ht') (timer_ids_freelist ht') fl (max_size ht')"
    using assms(2-4) by (subst chain_cong[of _ _ "timer_ids ht"]) auto
  then show ?thesis using fl assms(3) by (auto simp: frees_def)
qed

lemma grow_heap_grown: "grow_heap \<lparr>heap_mem = True, dups_mem = True, ids_mem = True\<rparr> ht = (PJ_SUCCESS, grown ht)"
  by (simp add: grow_heap_def grown_def Let_def cong: if_cong)

lemma grown_fields [simp]:
  "cur_size (grown ht) = cur_size ht" "max_size (grown ht) = max_size ht * 2"
  "timer_dups (grown ht) = timer_dups ht" "entries (grown ht) = entries ht"
  "timer_ids_freelist (grown ht) = timer_ids_freelist ht" "grp_refs (grown ht) = grp_refs ht"
  "max_entries_per_poll (grown ht) = max_entries_per_poll ht"
  by (simp_all add: grown_def)

lemma grown_live [simp]: "live (grown ht) = live ht"
  by (auto simp: live_def grown_def)

lemma grown_array_inv: "array_inv ht \<Longrightarrow> array_inv (grown ht)"
proof -
  assume a: "array_inv ht"
  have h: "heap_arr (grown ht) i = heap_arr ht i" if "i < cur_size ht" for i
    using that by (simp add: grown_def)
  have "heap_arr ht i < max_size ht" if "i < cur_size ht" for i
    using a that by (auto simp: array_inv_def live_def)
  moreover from calculation have "timer_ids (grown ht) (heap_arr ht i) = timer_ids ht (heap_arr ht i)" if "i < cur_size ht" for i
    using that[THEN calculation] by (simp add: grown_def)
  moreover have "ordered (cur_size ht) (tval ht) (heap_arr (grown ht))
      = ordered (cur_size ht) (tval ht) (heap_arr ht)"
    using h by (intro ordered_cong) auto
  moreover have "inj_on (heap_arr (grown ht)) {..<cur_size ht}"
    using a h inj_on_cong[of "{..<cur_size ht}" "heap_arr (grown ht)" "heap_arr ht"]
    by (simp add: array_inv_def)
  moreover have "live ht \<subseteq> {1..<max_size ht * 2}" using a by (fastforce simp: array_inv_def)
  ultimately show ?thesis using a h by (simp add: array_inv_def)
qed

lemma grown_frees:
  assumes "frees S ht" and "S \<subseteq> {1..<max_size ht}" and "0 < max_size ht"
  shows "frees S (grown ht)"
proof -
  obtain fl where fl: "chain (timer_ids ht) (timer_ids_freelist ht) fl (max_size ht)" "distinct fl"
    "set fl = {1..<max_size ht} - S"
    using assms(1) by (auto simp: frees_def)
  have "chain (timer_ids (grown ht)) (timer_ids_freelist ht) fl (max_size ht)"
    using fl(1,3) by (subst chain_cong[of _ _ "timer_ids ht"]) (auto simp: grown_def)
  then have ext: "chain (timer_ids (grown ht)) (timer_ids_freelist ht) (fl @ [max_size ht..<max_size ht * 2])
      (max_size ht * 2)"
    by (rule chain_extend) (use assms(3) in \<open>auto simp: grown_def\<close>)
  moreover have "set (fl @ [max_size ht..<max_size ht * 2]) = {1..<max_size ht * 2} - S"
    using fl(3) assms(2,3) by auto
  moreover have "distinct (fl @ [max_size ht..<max_size ht * 2])" using fl by auto
  ultimately show ?thesis using ext unfolding frees_def by (intro exI[of _ "fl @ [max_size ht..<max_size ht * 2]"]) simp
qed

text \<open>
  The copy of a new entry is put in the first free slot of the array and sifted up: \<open>x\<close> is the
  identifier, already taken from the free list.
\<close>

definition placed :: "pj_timer_heap \<Rightarrow> nat \<Rightarrow> nat \<Rightarrow> pj_time_val \<Rightarrow> pj_timer_heap" where
  "placed ht x e t =
     (let ht1 = ht\<lparr>timer_dups := (timer_dups ht)(x :=
                  \<lparr>dup_entry = entries ht e, dup_ptr = e, dup_timer_value = t, dup_grp_lock = None\<rparr>)\<rparr>;
          ht2 = reheap_up ht1 x (cur_size ht1) (HEAP_PARENT (cur_size ht1))
      in ht2\<lparr>cur_size := cur_size ht2 + 1\<rparr>)"

lemma placed_inv:
  fixes t :: pj_time_val
  assumes "array_inv ht" and "x \<in> {1..<max_size ht} - live ht" and "frees (insert x (live ht)) ht"
    and "te_timer_id (entries ht e) = int x" and "cur_size ht + 3 \<le> max_size ht"
    and others: "\<forall>d\<in>live ht. te_timer_id (entries ht (dup_ptr (timer_dups ht d))) = int d"
      "\<forall>e'. e' \<noteq> e \<longrightarrow> te_timer_id (entries ht e') \<ge> 1 \<longrightarrow>
        nat (te_timer_id (entries ht e')) \<in> live ht \<and> dup_ptr (timer_dups ht (nat (te_timer_id (entries ht e')))) = e'"
  defines "ht' \<equiv> placed ht x e t"
  shows "heap_inv ht'" and "live ht' = insert x (live ht)"
    and "sched ht' = (\<lambda>e'. if e' = e then Some t else sched ht e')"
    and "entries ht' = entries ht" and "grp_refs ht' = grp_refs ht"
    and "max_entries_per_poll ht' = max_entries_per_poll ht"
    and "cur_size ht' = Suc (cur_size ht)" and "max_size ht' = max_size ht"
    and "timer_dups ht' = (timer_dups ht)(x :=
           \<lparr>dup_entry = entries ht e, dup_ptr = e, dup_timer_value = t, dup_grp_lock = None\<rparr>)"
proof -
  let ?n = "cur_size ht" and ?h = "heap_arr ht"
  let ?du = "(timer_dups ht)(x := \<lparr>dup_entry = entries ht e, dup_ptr = e, dup_timer_value = t,
     dup_grp_lock = None\<rparr>)"
  let ?p = "ht\<lparr>timer_dups := ?du\<rparr>"
  let ?r = "reheap_up ?p x ?n (HEAP_PARENT ?n)"
  have inj: "inj_on ?h {..<?n}" and ord: "ordered ?n (tval ht) ?h"
    and ids: "\<And>i. i < ?n \<Longrightarrow> timer_ids ht (?h i) = int i"
    and tid: "\<And>d. d \<in> live ht \<Longrightarrow> dup_timer_id (timer_dups ht d) = int d"
    and sub: "live ht \<subseteq> {1..<max_size ht}"
    using assms(1) by (auto simp: array_inv_def)
  have v: "filled ?p ?n x = ?h(?n := x)" by (simp add: filled_def)
  have img: "filled ?p ?n x ` {..<Suc ?n} = insert x (live ht)"
    unfolding v live_def lessThan_Suc by auto
  have xh: "?h i \<noteq> x" "?h i \<in> live ht" if "i < ?n" for i using that assms(2) by (auto simp: live_def)
  have hole: "hole (Suc ?n) ?n x ?p"
    unfolding hole_def v using inj ids tid xh assms(4)
    by (auto simp: less_Suc_eq lessThan_Suc inj_on_eq_iff intro!: inj_onI)
  have "up_ok (Suc ?n) (tval ?p) ?n (filled ?p ?n x)"
    unfolding up_ok_def v
  proof (intro conjI allI impI)
    fix i assume i: "0 < i \<and> i < Suc ?n \<and> i \<noteq> ?n"
    then have "i < ?n" by simp
    moreover from this have "HEAP_PARENT i < ?n" using parent_le[of i] by linarith
    ultimately show "tval ?p ((?h(?n := x)) (HEAP_PARENT i)) \<le> tval ?p ((?h(?n := x)) i)"
      using ord i xh by (simp add: ordered_def)
  next
    fix i assume i: "0 < i \<and> i < Suc ?n \<and> HEAP_PARENT i = ?n \<and> 0 < ?n"
    then show "tval ?p ((?h(?n := x)) (HEAP_PARENT ?n)) \<le> tval ?p ((?h(?n := x)) i)"
      using parent_less[of i] by auto
  qed
  then have S: "sifted (Suc ?n) (insert x (live ht)) ?p ?r"
    using reheap_up_sifted[OF hole refl] img by simp
  note F = sifted_frame[OF S]
  have h': "ht' = ?r\<lparr>cur_size := Suc ?n\<rparr>" using F by (simp add: ht'_def placed_def Let_def)
  show cs: "cur_size ht' = Suc ?n" and mx: "max_size ht' = max_size ht" and en: "entries ht' = entries ht"
    and "grp_refs ht' = grp_refs ht" "max_entries_per_poll ht' = max_entries_per_poll ht"
    and du: "timer_dups ht' = ?du"
    using F by (simp_all add: h')
  have ins: "\<forall>d\<in>insert x (live ht). dup_timer_id (timer_dups ?p d) = int d"
    using tid assms(2,4) by auto
  have A: "array_inv ht'" and L: "live ht' = insert x (live ht)"
    using sifted_array_inv[of ht' "insert x (live ht)" ?p ?r] S sub cs ins assms(2) by (auto simp: h')
  show "live ht' = insert x (live ht)" by fact
  have "entry_inv ht'"
    unfolding entry_inv_def L du en
  proof (intro conjI ballI allI impI)
    fix d assume "d \<in> insert x (live ht)"
    then show "te_timer_id (entries ht (dup_ptr (?du d))) = int d" using others(1) assms(2,4) by auto
  next
    fix y assume y: "te_timer_id (entries ht y) \<ge> 1"
    then show "nat (te_timer_id (entries ht y)) \<in> insert x (live ht)"
      and "dup_ptr (?du (nat (te_timer_id (entries ht y)))) = y"
      using others(2) assms(2,4) by (cases "y = e"; force)+
  qed
  moreover have "frees (live ht') ht'"
  proof -
    have "timer_ids ht' y = timer_ids ht y" if "y \<notin> insert x (live ht)" for y
      using S that by (simp add: sifted_def h')
    moreover have "timer_ids_freelist ht' = timer_ids_freelist ht" using F(5) by (simp add: h')
    ultimately show ?thesis using frees_cong[OF assms(3)] mx unfolding L by blast
  qed
  ultimately show "heap_inv ht'" using A cs mx assms(5) by (simp add: heap_inv_def)
  show "sched ht' = (\<lambda>e'. if e' = e then Some t else sched ht e')"
  proof
    fix e' show "sched ht' e' = (if e' = e then Some t else sched ht e')"
      using others(2) assms(2,4) by (cases "e' = e") (auto simp: sched_def du en)
  qed
qed

section \<open>Scheduling\<close>

lemma heap_inv_cong:
  assumes "heap_inv ht" and "cur_size ht' = cur_size ht" "max_size ht' = max_size ht"
    "heap_arr ht' = heap_arr ht" "timer_ids ht' = timer_ids ht" "timer_ids_freelist ht' = timer_ids_freelist ht"
    and te: "\<And>e. te_timer_id (entries ht' e) = te_timer_id (entries ht e)"
    and du: "\<And>d. dup_timer_id (timer_dups ht' d) = dup_timer_id (timer_dups ht d)"
      "\<And>d. dup_ptr (timer_dups ht' d) = dup_ptr (timer_dups ht d)"
      "\<And>d. dup_timer_value (timer_dups ht' d) = dup_timer_value (timer_dups ht d)"
  shows "heap_inv ht'" and "live ht' = live ht" and "sched ht' = sched ht"
proof -
  show L: "live ht' = live ht" using assms(2,4) by (simp add: live_def)
  show "sched ht' = sched ht" by (simp add: sched_def te du fun_eq_iff)
  have "array_inv ht'"
    using assms(1) unfolding heap_inv_def array_inv_def L by (simp add: assms(2-5) du)
  moreover have "entry_inv ht'"
    using assms(1) unfolding heap_inv_def entry_inv_def L by (simp add: te du)
  moreover have "frees (live ht') ht'"
  proof -
    have "frees (live ht) ht" using assms(1) by (simp add: heap_inv_def)
    then show ?thesis unfolding L by (rule frees_cong) (simp_all only: assms(3,5,6))
  qed
  ultimately show "heap_inv ht'" using assms(1-3) by (simp add: heap_inv_def)
qed

definition mem_ok :: alloc where
  "mem_ok = \<lparr>heap_mem = True, dups_mem = True, ids_mem = True\<rparr>"

lemma running_sched: "pj_timer_entry_running (entries ht e) \<longleftrightarrow> sched ht e \<noteq> None"
  by (simp add: pj_timer_entry_running_def sched_def)

text \<open>The entry with the identifier it takes from the free list.\<close>

definition taken :: "pj_timer_heap \<Rightarrow> nat \<Rightarrow> nat \<Rightarrow> pj_timer_heap" where
  "taken ht e x = ht\<lparr>timer_ids_freelist := - timer_ids ht x,
     entries := (entries ht)(e := (entries ht e)\<lparr>te_timer_id := int x\<rparr>)\<rparr>"

lemma taken_fields [simp]:
  "cur_size (taken ht e x) = cur_size ht" "max_size (taken ht e x) = max_size ht"
  "timer_dups (taken ht e x) = timer_dups ht" "grp_refs (taken ht e x) = grp_refs ht"
  "max_entries_per_poll (taken ht e x) = max_entries_per_poll ht"
  "entries (taken ht e x) = (entries ht)(e := (entries ht e)\<lparr>te_timer_id := int x\<rparr>)"
  "live (taken ht e x) = live ht" "array_inv (taken ht e x) = array_inv ht"
  by (simp_all add: taken_def live_def array_inv_def)

lemma heap_inv_taken:
  assumes "heap_inv ht"
  obtains x where "x \<in> {1..<max_size ht} - live ht" and "timer_ids_freelist ht = int x"
    and "frees (insert x (live ht)) (taken ht e x)"
    and "cur_size ht < max_size ht"
    and "\<And>mem t. schedule_entry mem ht e t = insert_node mem (taken ht e x) e t"
proof -
  have A: "array_inv ht" "frees (live ht) ht" "cur_size ht + 2 \<le> max_size ht"
    using assms by (auto simp: heap_inv_def)
  have "card (live ht) < card {1..<max_size ht}" using A by (simp add: card_live)
  then have "\<exists>x. x \<in> {1..<max_size ht} - live ht"
    by (metis Diff_eq_empty_iff equals0I leD card_mono finite_atLeastLessThan live_def finite_imageI finite_lessThan)
  then obtain x where x: "timer_ids_freelist ht = int x" "x \<in> {1..<max_size ht} - live ht"
    "frees (insert x (live ht)) (ht\<lparr>timer_ids_freelist := - timer_ids ht x\<rparr>)"
    using frees_pop[OF A(2)] by metis
  show thesis
  proof (rule that[OF x(2,1)])
    show "frees (insert x (live ht)) (taken ht e x)"
      using x(3) by (simp add: frees_def taken_def)
    show "cur_size ht < max_size ht" using A by simp
    then show "schedule_entry mem ht e t = insert_node mem (taken ht e x) e t" for mem t
      using x(1) by (simp add: schedule_entry_def pop_freelist_def taken_def Let_def)
  qed
qed

lemma insert_node_placed:
  assumes "cur_size ht + 2 < max_size ht \<or> mem = mem_ok"
  shows "insert_node mem ht e t =
    (PJ_SUCCESS, placed (if cur_size ht + 2 \<ge> max_size ht then grown ht else ht)
                   (nat (te_timer_id (entries ht e))) e t)"
  using assms by (auto simp: insert_node_def mem_ok_def grow_heap_grown placed_def Let_def)

lemma schedule_entry_ok:
  assumes inv: "heap_inv ht" and idle: "sched ht e = None"
    and mem: "cur_size ht + 2 < max_size ht \<or> mem = mem_ok"
  obtains x ht' where "schedule_entry mem ht e t = (PJ_SUCCESS, ht')" and "heap_inv ht'"
    and "sched ht' = (sched ht)(e \<mapsto> t)" and "cur_size ht' = Suc (cur_size ht)"
    and "grp_refs ht' = grp_refs ht" and "max_entries_per_poll ht' = max_entries_per_poll ht"
    and "entries ht' = (entries ht)(e := (entries ht e)\<lparr>te_timer_id := int x\<rparr>)"
proof -
  obtain x where x: "x \<in> {1..<max_size ht} - live ht"
    "frees (insert x (live ht)) (taken ht e x)"
    "schedule_entry mem ht e t = insert_node mem (taken ht e x) e t"
    by (rule heap_inv_taken[OF inv]) blast
  have A: "array_inv ht" "entry_inv ht" "cur_size ht + 2 \<le> max_size ht"
    using inv by (auto simp: heap_inv_def)
  have off: "te_timer_id (entries ht e) < 1" using idle by (simp add: sched_def split: if_splits)
  let ?b = "if cur_size ht + 2 \<ge> max_size ht then grown (taken ht e x) else taken ht e x"
  have sub: "insert x (live ht) \<subseteq> {1..<max_size ht}" using A(1) x(1) by (auto simp: array_inv_def)
  have b: "array_inv ?b" "x \<in> {1..<max_size ?b} - live ?b" "frees (insert x (live ?b)) ?b"
    "te_timer_id (entries ?b e) = int x" "cur_size ?b + 3 \<le> max_size ?b"
    "timer_dups ?b = timer_dups ht" "live ?b = live ht" "cur_size ?b = cur_size ht"
    "grp_refs ?b = grp_refs ht" "max_entries_per_poll ?b = max_entries_per_poll ht"
    "entries ?b = (entries ht)(e := (entries ht e)\<lparr>te_timer_id := int x\<rparr>)"
    using x(1,2) A grown_array_inv[of "taken ht e x"] grown_frees[OF x(2)] sub by auto
  have o1: "\<forall>d\<in>live ?b. te_timer_id (entries ?b (dup_ptr (timer_dups ?b d))) = int d"
  proof
    fix d assume "d \<in> live ?b"
    then have d: "d \<in> live ht" using b(7) by simp
    then have "te_timer_id (entries ht (dup_ptr (timer_dups ht d))) = int d" "1 \<le> d"
      using A sub by (auto simp: entry_inv_def)
    then show "te_timer_id (entries ?b (dup_ptr (timer_dups ?b d))) = int d"
      unfolding b(6,11) using off by auto
  qed
  have o2: "\<forall>e'. e' \<noteq> e \<longrightarrow> te_timer_id (entries ?b e') \<ge> 1 \<longrightarrow>
      nat (te_timer_id (entries ?b e')) \<in> live ?b \<and> dup_ptr (timer_dups ?b (nat (te_timer_id (entries ?b e')))) = e'"
    unfolding b(6,7,11) using A(2) by (auto simp: entry_inv_def)
  note P = placed_inv[OF b(1,2,3,4,5) o1 o2, where t = t]
  show thesis
  proof (rule that)
    show "schedule_entry mem ht e t = (PJ_SUCCESS, placed ?b x e t)"
      unfolding x(3) using insert_node_placed[of "taken ht e x" mem e t] mem by simp
    show "heap_inv (placed ?b x e t)" by (rule P(1))
    have "sched ?b e' = sched ht e'" if "e' \<noteq> e" for e'
      unfolding sched_def b(6,11) using that by simp
    then show "sched (placed ?b x e t) = (sched ht)(e \<mapsto> t)"
      unfolding P(3) by (auto simp: fun_eq_iff)
    show "cur_size (placed ?b x e t) = Suc (cur_size ht)" using P(7) b(8) by simp
    show "grp_refs (placed ?b x e t) = grp_refs ht" using P(5) b(9) by simp
    show "max_entries_per_poll (placed ?b x e t) = max_entries_per_poll ht" using P(6) b(10) by simp
    show "entries (placed ?b x e t) = (entries ht)(e := (entries ht e)\<lparr>te_timer_id := int x\<rparr>)"
      using P(4) b(11) by simp
  qed
qed

definition set_id :: "(nat \<Rightarrow> pj_timer_entry) \<Rightarrow> nat \<Rightarrow> int option \<Rightarrow> nat \<Rightarrow> int" where
  "set_id es e sid e' = (case sid of None \<Rightarrow> te_id (es e') | Some i \<Rightarrow> if e' = e then i else te_id (es e'))"

lemma set_id_upd [simp]: "te_id v = te_id (es a) \<Longrightarrow> set_id (es(a := v)) e sid = set_id es e sid"
  by (auto simp: set_id_def fun_eq_iff split: option.split)

definition add_ref :: "(nat \<Rightarrow> int) \<Rightarrow> nat option \<Rightarrow> int \<Rightarrow> nat \<Rightarrow> int" where
  "add_ref refs lock k = (case lock of None \<Rightarrow> refs | Some l \<Rightarrow> refs(l := refs l + k))"

lemma schedule_ok:
  assumes "heap_inv ht" and "te_cb (entries ht e) \<noteq> None" and "sched ht e = None"
    and "cur_size ht + 2 < max_size ht \<or> mem = mem_ok"
  obtains ht' where "schedule_w_grp_lock mem now ht e delay sid lock = (PJ_SUCCESS, ht')"
    and "heap_inv ht'" and "sched ht' = (sched ht)(e \<mapsto> PJ_TIME_VAL_ADD now delay)"
    and "cur_size ht' = Suc (cur_size ht)" and "grp_refs ht' = add_ref (grp_refs ht) lock 1"
    and "max_entries_per_poll ht' = max_entries_per_poll ht"
    and "\<And>e'. te_cb (entries ht' e') = te_cb (entries ht e')"
    and "\<And>e'. te_id (entries ht' e') = set_id (entries ht) e sid e'"
proof -
  obtain x h where h: "schedule_entry mem ht e (PJ_TIME_VAL_ADD now delay) = (PJ_SUCCESS, h)"
    "heap_inv h" "sched h = (sched ht)(e \<mapsto> PJ_TIME_VAL_ADD now delay)" "cur_size h = Suc (cur_size ht)"
    "grp_refs h = grp_refs ht" "max_entries_per_poll h = max_entries_per_poll ht"
    "entries h = (entries ht)(e := (entries ht e)\<lparr>te_timer_id := int x\<rparr>)"
    using schedule_entry_ok[OF assms(1,3,4)] by metis
  let ?r = "schedule_w_grp_lock mem now ht e delay sid lock"
  have run: "\<not> pj_timer_entry_running (entries ht e)" using assms(3) running_sched by simp
  have r: "?r = (PJ_SUCCESS, snd ?r)"
    using assms(2) run h(1) by (auto simp: schedule_w_grp_lock_def Let_def)
  have S: "snd ?r = snd (PJ_SUCCESS, snd ?r)" by simp
  have f: "cur_size (snd ?r) = cur_size h" "max_size (snd ?r) = max_size h" "heap_arr (snd ?r) = heap_arr h"
    "timer_ids (snd ?r) = timer_ids h" "timer_ids_freelist (snd ?r) = timer_ids_freelist h"
    "te_timer_id (entries (snd ?r) a) = te_timer_id (entries h a)"
    "dup_timer_id (timer_dups (snd ?r) d) = dup_timer_id (timer_dups h d)"
    "dup_ptr (timer_dups (snd ?r) d) = dup_ptr (timer_dups h d)"
    "dup_timer_value (timer_dups (snd ?r) d) = dup_timer_value (timer_dups h d)"
    "max_entries_per_poll (snd ?r) = max_entries_per_poll h"
    "grp_refs (snd ?r) = add_ref (grp_refs h) lock 1"
    "te_cb (entries (snd ?r) a) = te_cb (entries h a)"
    "te_id (entries (snd ?r) a) = set_id (entries h) e sid a" for a d
    using assms(2) run h(1)
    by (cases sid; cases lock; auto simp: schedule_w_grp_lock_def Let_def add_ref_def set_id_def)+
  note C = heap_inv_cong[OF h(2) f(1-9)]
  show thesis
    by (rule that[OF r C(1)]) (simp_all add: C(3) f h)
qed

section \<open>Cancelling\<close>

lemma live_slot:
  assumes "heap_inv ht" and "sched ht e = Some t"
  obtains i where "i < cur_size ht" and "te_timer_id (entries ht e) = int (heap_arr ht i)"
    and "timer_ids ht (heap_arr ht i) = int i" and "dup_ptr (timer_dups ht (heap_arr ht i)) = e"
    and "heap_arr ht i \<in> {1..<max_size ht}" and "t = heap_time ht i"
proof -
  have A: "array_inv ht" "entry_inv ht" using assms(1) by (auto simp: heap_inv_def)
  obtain d where d: "d \<in> live ht" "te_timer_id (entries ht e) = int d" "dup_ptr (timer_dups ht d) = e"
    "t = tval ht d"
    using sched_SomeE[OF A(2) assms(2)] by metis
  then obtain i where "i < cur_size ht" "d = heap_arr ht i" by (auto simp: live_def)
  with d A(1) show thesis by (intro that[of i]) (auto simp: array_inv_def heap_time_def)
qed

lemma cancel_scheduled:
  assumes "heap_inv ht" and "sched ht e = Some t"
  obtains ht' lock where "cancel_timer ht e sid = (1, ht')" and "heap_inv ht'"
    and "sched ht' = (sched ht)(e := None)" and "cur_size ht' = cur_size ht - 1"
    and "lock = dup_grp_lock (timer_dups ht (nat (te_timer_id (entries ht e))))"
    and "grp_refs ht' = add_ref (grp_refs ht) lock (-1)"
    and "max_entries_per_poll ht' = max_entries_per_poll ht"
    and "\<And>e'. te_cb (entries ht' e') = te_cb (entries ht e')" and "max_size ht' = max_size ht"
    and "\<And>e'. te_id (entries ht' e') = set_id (entries ht) e sid e'"
proof -
  obtain i where i: "i < cur_size ht" "te_timer_id (entries ht e) = int (heap_arr ht i)"
    "timer_ids ht (heap_arr ht i) = int i" "dup_ptr (timer_dups ht (heap_arr ht i)) = e"
    "heap_arr ht i \<in> {1..<max_size ht}"
    using live_slot[OF assms] by metis
  define h where "h = snd (remove_node ht i)"
  note R = remove_node_inv[OF assms(1) i(1), folded h_def]
  let ?lock = "dup_grp_lock (timer_dups ht (nat (te_timer_id (entries ht e))))"
  let ?r = "cancel_timer ht e sid"
  have c: "cancel ht e = (1, h)" using i by (simp add: cancel_def Let_def h_def)
  then have r: "?r = (1, snd ?r)" using i by (auto simp: cancel_timer_def Let_def)
  have f: "cur_size (snd ?r) = cur_size h" "max_size (snd ?r) = max_size h" "heap_arr (snd ?r) = heap_arr h"
    "timer_ids (snd ?r) = timer_ids h" "timer_ids_freelist (snd ?r) = timer_ids_freelist h"
    "te_timer_id (entries (snd ?r) a) = te_timer_id (entries h a)"
    "dup_timer_id (timer_dups (snd ?r) d) = dup_timer_id (timer_dups h d)"
    "dup_ptr (timer_dups (snd ?r) d) = dup_ptr (timer_dups h d)"
    "dup_timer_value (timer_dups (snd ?r) d) = dup_timer_value (timer_dups h d)"
    "max_entries_per_poll (snd ?r) = max_entries_per_poll h"
    "grp_refs (snd ?r) = add_ref (grp_refs h) ?lock (-1)"
    "te_cb (entries (snd ?r) a) = te_cb (entries h a)"
    "te_id (entries (snd ?r) a) = set_id (entries h) e sid a" for a d
    using i c by (cases sid; cases ?lock; auto simp: cancel_timer_def Let_def add_ref_def set_id_def)+
  note C = heap_inv_cong[OF R(1) f(1-9)]
  show thesis
    by (rule that[OF r C(1)]) (simp_all add: C(3) f R i(4))
qed

lemma cancel_idle:
  "sched ht e = None \<Longrightarrow> cancel_timer ht e sid = (0, ht)"
  by (simp add: cancel_timer_def sched_def Let_def split: if_splits)

section \<open>The earliest timer\<close>

lemma sched_empty_iff: "heap_inv ht \<Longrightarrow> cur_size ht = 0 \<longleftrightarrow> sched ht = Map.empty"
proof
  assume "heap_inv ht" "cur_size ht = 0"
  then show "sched ht = Map.empty" by (metis live_slot not_less_zero not_None_eq)
next
  assume h: "heap_inv ht" "sched ht = Map.empty"
  show "cur_size ht = 0"
  proof (rule ccontr)
    assume "cur_size ht \<noteq> 0"
    then have "heap_arr ht 0 \<in> live ht" by (auto simp: live_def)
    then show False using sched_live[of ht "heap_arr ht 0"] h by (auto simp: heap_inv_def)
  qed
qed

lemma root_min:
  assumes "heap_inv ht" and "cur_size ht > 0"
  shows "sched ht (dup_ptr (timer_dups ht (heap_arr ht 0))) = Some (heap_time ht 0)"
    and "sched ht e = Some t \<Longrightarrow> heap_time ht 0 \<le> t"
proof -
  have A: "array_inv ht" "entry_inv ht" using assms(1) by (auto simp: heap_inv_def)
  have "heap_arr ht 0 \<in> live ht" using assms(2) by (auto simp: live_def)
  then show "sched ht (dup_ptr (timer_dups ht (heap_arr ht 0))) = Some (heap_time ht 0)"
    using sched_live[OF A(2) _ A(1)] by (simp add: heap_time_def)
  assume "sched ht e = Some t"
  then obtain i where "i < cur_size ht" "t = heap_time ht i" using live_slot[OF assms(1)] by metis
  then show "heap_time ht 0 \<le> t"
    using ordered_root[of "cur_size ht" "tval ht" "heap_arr ht" i] A(1)
    by (simp add: array_inv_def heap_time_def)
qed

section \<open>Polling\<close>

text \<open>What is asked of the callbacks: they keep the heap well formed and do not change its limit.\<close>

definition cb_ok :: "(nat \<Rightarrow> nat \<Rightarrow> pj_timer_heap \<Rightarrow> pj_timer_heap) \<Rightarrow> bool" where
  "cb_ok cb \<longleftrightarrow> (\<forall>c e ht. heap_inv ht \<longrightarrow>
     heap_inv (cb c e ht) \<and> max_entries_per_poll (cb c e ht) = max_entries_per_poll ht)"

definition cb_quiet :: "(nat \<Rightarrow> nat \<Rightarrow> pj_timer_heap \<Rightarrow> pj_timer_heap) \<Rightarrow> bool" where
  "cb_quiet cb \<longleftrightarrow> cb_ok cb \<and> (\<forall>c e ht. heap_inv ht \<longrightarrow> sched (cb c e ht) = sched ht)"

lemma poll_one_inv:
  assumes "heap_inv ht" and "cur_size ht > 0" and "cb_ok cb" and "poll_one cb ht = (e, ht')"
  shows "heap_inv ht'" and "max_entries_per_poll ht' = max_entries_per_poll ht"
    and "sched ht e = Some (heap_time ht 0)"
    and "cb_quiet cb \<Longrightarrow> sched ht' = (sched ht)(e := None)"
proof -
  define h where "h = snd (remove_node ht 0)"
  define d where "d = heap_arr ht 0"
  have rn: "remove_node ht 0 = (d, h)" by (simp add: h_def d_def remove_node_unlinked)
  note R = remove_node_inv[OF assms(1,2), folded h_def d_def]
  let ?h2 = "h\<lparr>timer_dups := (timer_dups h)(d := (timer_dups h d)\<lparr>dup_grp_lock := None\<rparr>)\<rparr>"
  have h2: "heap_inv ?h2" "sched ?h2 = sched h"
    by (rule heap_inv_cong(1,3)[OF R(1)]; simp)+
  have e: "e = dup_ptr (timer_dups ht d)"
    using assms(4) by (simp add: poll_one_def rn R(8) Let_def)
  then show "sched ht e = Some (heap_time ht 0)"
    using root_min(1)[OF assms(1,2)] by (simp add: d_def)
  have stable: "heap_inv (x\<lparr>grp_refs := g\<rparr>) \<and> sched (x\<lparr>grp_refs := g\<rparr>) = sched x" if "heap_inv x" for x g
    using heap_inv_cong[OF that, of "x\<lparr>grp_refs := g\<rparr>"] by simp
  obtain x where x: "x = ?h2 \<or> (\<exists>c. x = cb c e ?h2)" "ht' = x \<or> (\<exists>g. ht' = x\<lparr>grp_refs := g\<rparr>)"
    using assms(4) unfolding e
    by (simp add: poll_one_def rn R(8) Let_def split: option.splits if_splits) blast+
  have xi: "heap_inv x" "max_entries_per_poll x = max_entries_per_poll ht"
    using x(1) h2 assms(3) R(5) by (auto simp: cb_ok_def)
  then show "heap_inv ht'" "max_entries_per_poll ht' = max_entries_per_poll ht"
    using x(2) stable by auto
  show "sched ht' = (sched ht)(e := None)" if "cb_quiet cb"
  proof -
    have "sched x = sched h" using x(1) h2 that by (auto simp: cb_quiet_def)
    then show ?thesis using x(2) stable[OF xi(1)] R(6) e by auto
  qed
qed

text \<open>
  The loop, from an arbitrary iteration: \<open>fs\<close> are the entries it fires from there on. The loop ends
  because \<open>count\<close> grows to the limit.
\<close>

lemma poll_loop_spec:
  assumes "heap_inv ht" and "cb_ok cb" and "cur_size ht > 0 \<longrightarrow> mt = heap_time ht 0"
    and "count \<le> max_entries_per_poll ht"
  shows "\<exists>k' now' fs ht'. poll_loop cb clock k now mt count fired ht =
      Some (count + length fs, k', now', fired @ fs, ht') \<and> heap_inv ht' \<and>
      count + length fs \<le> max_entries_per_poll ht \<and>
      max_entries_per_poll ht' = max_entries_per_poll ht \<and>
      (count + length fs = max_entries_per_poll ht \<or> (\<forall>e t. sched ht' e = Some t \<longrightarrow> now' < t)) \<and>
      (now' = now \<or> now' \<in> range clock) \<and>
      (cb_quiet cb \<longrightarrow> distinct fs \<and> sorted (map (\<lambda>e. the (sched ht e)) fs) \<and>
         set fs \<subseteq> dom (sched ht) \<and> sched ht' = sched ht |` (- set fs) \<and>
         (\<forall>e\<in>set fs. \<forall>e' t. sched ht' e' = Some t \<longrightarrow> the (sched ht e) \<le> t) \<and>
         (\<forall>e\<in>set fs. \<exists>j. the (sched ht e) \<le> now \<or> the (sched ht e) \<le> clock j))"
  using assms
proof (induction "max_entries_per_poll ht - count" arbitrary: ht k now mt count fired)
  case 0
  have "poll_loop cb clock k now mt count fired ht = Some (count, k, now, fired, ht)"
    using 0 by (subst poll_loop.simps) simp
  then show ?case using 0 by (intro exI[of _ k] exI[of _ now] exI[of _ "[]"] exI[of _ ht]) auto
next
  case (Suc m)
  show ?case
  proof (cases "cur_size ht > 0 \<and> mt \<le> now")
    case False
    have "poll_loop cb clock k now mt count fired ht = Some (count, k, now, fired, ht)"
      using False by (subst poll_loop.simps) auto
    moreover have "now < t" if "sched ht e = Some t" for e t
    proof -
      have "cur_size ht > 0" using that sched_empty_iff[OF Suc.prems(1)] by auto
      then show ?thesis using that root_min(2)[OF Suc.prems(1)] False Suc.prems(3) by fastforce
    qed
    ultimately show ?thesis
      using Suc.prems by (intro exI[of _ k] exI[of _ now] exI[of _ "[]"] exI[of _ ht]) auto
  next
    case True
    obtain e h where eh: "poll_one cb ht = (e, h)" by fastforce
    have P: "heap_inv h" "max_entries_per_poll h = max_entries_per_poll ht"
      "sched ht e = Some mt" "cb_quiet cb \<longrightarrow> sched h = (sched ht)(e := None)"
      using poll_one_inv[OF Suc.prems(1) _ Suc.prems(2) eh] True Suc.prems(3) by auto
    define k1 where "k1 = (if cur_size h > 0 then k + 1 else k)"
    define now1 where "now1 = (if cur_size h > 0 then clock k else now)"
    define mt1 where "mt1 = (if cur_size h > 0 then heap_time h 0 else mt)"
    have lt: "count < max_entries_per_poll ht" using Suc.hyps(2) by simp
    have step: "poll_loop cb clock k now mt count fired ht =
        poll_loop cb clock k1 now1 mt1 (count + 1) (fired @ [e]) h"
      using True eh lt by (subst poll_loop.simps) (simp add: k1_def now1_def mt1_def)
    have "\<exists>k' now' fs ht'. poll_loop cb clock k1 now1 mt1 (count + 1) (fired @ [e]) h =
      Some (count + 1 + length fs, k', now', (fired @ [e]) @ fs, ht') \<and> heap_inv ht' \<and>
      count + 1 + length fs \<le> max_entries_per_poll h \<and>
      max_entries_per_poll ht' = max_entries_per_poll h \<and>
      (count + 1 + length fs = max_entries_per_poll h \<or> (\<forall>e t. sched ht' e = Some t \<longrightarrow> now' < t)) \<and>
      (now' = now1 \<or> now' \<in> range clock) \<and>
      (cb_quiet cb \<longrightarrow> distinct fs \<and> sorted (map (\<lambda>e. the (sched h e)) fs) \<and>
         set fs \<subseteq> dom (sched h) \<and> sched ht' = sched h |` (- set fs) \<and>
         (\<forall>e\<in>set fs. \<forall>e' t. sched ht' e' = Some t \<longrightarrow> the (sched h e) \<le> t) \<and>
         (\<forall>e\<in>set fs. \<exists>j. the (sched h e) \<le> now1 \<or> the (sched h e) \<le> clock j))"
      by (rule Suc.hyps(1)) (use P lt Suc.hyps(2) Suc.prems(2) in \<open>auto simp: mt1_def\<close>)
    then obtain k' now' fs ht' where IH:
      "poll_loop cb clock k1 now1 mt1 (count + 1) (fired @ [e]) h =
         Some (count + 1 + length fs, k', now', (fired @ [e]) @ fs, ht')" "heap_inv ht'"
      "count + 1 + length fs \<le> max_entries_per_poll h"
      "max_entries_per_poll ht' = max_entries_per_poll h"
      "count + 1 + length fs = max_entries_per_poll h \<or> (\<forall>e t. sched ht' e = Some t \<longrightarrow> now' < t)"
      "now' = now1 \<or> now' \<in> range clock"
      and Q: "cb_quiet cb \<Longrightarrow> distinct fs \<and> sorted (map (\<lambda>e. the (sched h e)) fs) \<and>
         set fs \<subseteq> dom (sched h) \<and> sched ht' = sched h |` (- set fs) \<and>
         (\<forall>e\<in>set fs. \<forall>e' t. sched ht' e' = Some t \<longrightarrow> the (sched h e) \<le> t) \<and>
         (\<forall>e\<in>set fs. \<exists>j. the (sched h e) \<le> now1 \<or> the (sched h e) \<le> clock j)"
      by blast
    have now1: "now1 = now \<or> now1 \<in> range clock" by (simp add: now1_def)
    have quiet: "distinct (e # fs) \<and> sorted (map (\<lambda>e. the (sched ht e)) (e # fs)) \<and>
         set (e # fs) \<subseteq> dom (sched ht) \<and> sched ht' = sched ht |` (- set (e # fs)) \<and>
         (\<forall>e\<in>set (e # fs). \<forall>e' t. sched ht' e' = Some t \<longrightarrow> the (sched ht e) \<le> t) \<and>
         (\<forall>e\<in>set (e # fs). \<exists>j. the (sched ht e) \<le> now \<or> the (sched ht e) \<le> clock j)"
      if q: "cb_quiet cb"
    proof -
      have s: "sched h = (sched ht)(e := None)" using P(4) q by simp
      have ne: "x \<noteq> e" "sched h x = sched ht x" "mt \<le> the (sched ht x)" if "x \<in> set fs" for x
        using Q[OF q] s that root_min(2)[OF Suc.prems(1)] True Suc.prems(3) by (auto split: if_splits)
      have m: "map (\<lambda>e. the (sched h e)) fs = map (\<lambda>e. the (sched ht e)) fs" using ne(2) by simp
      have r: "sched ht' = sched ht |` (- set (e # fs))"
        using Q[OF q] s by (auto simp: restrict_map_def fun_eq_iff)
      have low: "mt \<le> t" if "sched ht' x = Some t" for x t
        using that root_min(2)[OF Suc.prems(1)] True Suc.prems(3) unfolding r
        by (auto simp: restrict_map_def split: if_splits)
      have a: "distinct (e # fs)" using Q[OF q] ne(1) by auto
      have "sorted (map (\<lambda>e. the (sched ht e)) fs)" using Q[OF q] m by simp
      then have b: "sorted (map (\<lambda>e. the (sched ht e)) (e # fs))" using ne(3) P(3) by simp
      have c: "set (e # fs) \<subseteq> dom (sched ht)" using Q[OF q] P(3) by (auto simp: s)
      have d: "\<forall>e\<in>set (e # fs). \<forall>e' t. sched ht' e' = Some t \<longrightarrow> the (sched ht e) \<le> t"
      proof (intro ballI allI impI)
        fix x e' t assume x: "x \<in> set (e # fs)" "sched ht' e' = Some t"
        show "the (sched ht x) \<le> t"
        proof (cases "x = e")
          case True
          then show ?thesis using low[OF x(2)] P(3) by simp
        next
          case False
          then have "x \<in> set fs" using x(1) by simp
          then show ?thesis using Q[OF q] x(2) ne(2)[of x] by metis
        qed
      qed
      have "\<exists>j. the (sched ht x) \<le> now \<or> the (sched ht x) \<le> clock j" if "x \<in> set (e # fs)" for x
      proof (cases "x = e")
        case True
        then show ?thesis using P(3) \<open>cur_size ht > 0 \<and> mt \<le> now\<close> by simp
      next
        case False
        then have x: "x \<in> set fs" using that by simp
        then obtain j where "the (sched ht x) \<le> now1 \<or> the (sched ht x) \<le> clock j"
          using Q[OF q] ne(2)[OF x] by metis
        then show ?thesis using now1 by auto
      qed
      with a b c r d show ?thesis by blast
    qed
    have now': "now' = now \<or> now' \<in> range clock" using IH(6) now1 by (elim disjE) simp_all
    show ?thesis
      unfolding step
      by (rule exI[of _ k'], rule exI[of _ now'], rule exI[of _ "e # fs"], rule exI[of _ ht'])
        (use IH(1-5) P(2) now' quiet in simp)
  qed
qed

lemma poll_result:
  assumes "heap_inv ht" and "cb_ok cb"
  shows "\<exists>delay fired ht'. pj_timer_heap_poll cb clock ht = Some (length fired, delay, fired, ht') \<and>
    length fired \<le> max_entries_per_poll ht \<and> heap_inv ht'"
proof (cases "cur_size ht = 0")
  case True
  then show ?thesis using assms(1) by (simp add: pj_timer_heap_poll_def)
next
  case False
  from poll_loop_spec[OF assms, of "heap_time ht 0" 0 clock 1 "clock 0" "[]"]
  obtain k' now' fs ht' where "poll_loop cb clock 1 (clock 0) (heap_time ht 0) 0 [] ht =
      Some (length fs, k', now', fs, ht')" "heap_inv ht'" "length fs \<le> max_entries_per_poll ht"
    by auto
  then show ?thesis using False by (auto simp: pj_timer_heap_poll_def Let_def)
qed

section \<open>Creation, and a failed growth\<close>

lemma create_inv:
  assumes "\<And>e. te_timer_id (es e) < 1"
    and "pj_timer_heap_create struct_mem mem count es locks = (st, Some ht)"
  shows "heap_inv ht" and "sched ht = Map.empty" and "cur_size ht = 0" and "st = PJ_SUCCESS"
proof -
  have ht: "ht = \<lparr>max_size = count + 2, cur_size = 0, max_entries_per_poll = 64,
            heap_arr = (\<lambda>i. 0), timer_ids = (\<lambda>i. - (int i + 1)), timer_dups = (\<lambda>i. blank_dup),
            timer_ids_freelist = 1, entries = es, grp_refs = locks\<rparr>" and "st = PJ_SUCCESS"
    using assms(2) by (auto simp: pj_timer_heap_create_def Let_def split: if_splits)
  then show "st = PJ_SUCCESS" "cur_size ht = 0" by auto
  show "sched ht = Map.empty" using assms(1) by (auto simp: sched_def ht not_le fun_eq_iff)
  have "chain (timer_ids ht) 1 ([] @ [1..<count + 2]) (count + 2)"
    by (rule chain_extend[where mx = 1]) (auto simp: ht)
  then have "frees {} ht" unfolding frees_def by (intro exI[of _ "[1..<count + 2]"]) (auto simp: ht)
  moreover have "live ht = {}" by (simp add: live_def ht)
  moreover have "entry_inv ht" using assms(1) by (auto simp: entry_inv_def live_def ht not_le[symmetric])
  moreover have "array_inv ht" by (simp add: array_inv_def live_def ordered_def ht)
  ultimately show "heap_inv ht" by (simp add: heap_inv_def ht)
qed

lemma grow_heap_fails:
  assumes "mem \<noteq> mem_ok"
  shows "\<exists>h. grow_heap mem ht = (PJ_ENOMEM, h) \<and> entries h = entries ht \<and> cur_size h = cur_size ht \<and>
    (\<forall>i<cur_size ht. heap_arr h i = heap_arr ht i) \<and> timer_ids_freelist h = timer_ids_freelist ht \<and>
    timer_ids h = timer_ids ht \<and> max_size h = max_size ht"
  using assms by (cases mem) (auto simp: grow_heap_def mem_ok_def Let_def)

section \<open>Properties\<close>

text \<open>C6: scheduling an idle entry that has a callback succeeds when memory can be had (or is not
  needed), keeps the heap well formed, makes exactly that entry expire at \<open>now + delay\<close>, and takes a
  reference of its group lock.\<close>

theorem timer_schedule_refines:
  assumes "heap_inv ht" and "te_cb (entries ht e) \<noteq> None" and "sched ht e = None"
    and "cur_size ht + 2 < max_size ht \<or> mem = mem_ok"
  shows "\<exists>ht'. schedule_w_grp_lock mem now ht e delay sid lock = (PJ_SUCCESS, ht') \<and> heap_inv ht' \<and>
    sched ht' = (sched ht)(e \<mapsto> PJ_TIME_VAL_ADD now delay) \<and>
    pj_timer_heap_count ht' = pj_timer_heap_count ht + 1 \<and>
    grp_refs ht' = add_ref (grp_refs ht) lock 1"
  using schedule_ok[OF assms, of now delay sid lock] by (metis Suc_eq_plus1 pj_timer_heap_count_def)

text \<open>C17: cancelling answers how many timers were removed: 1 for a scheduled entry, which is then no
  longer scheduled, 0 for any other, and then nothing changes. Every other entry keeps its expiry
  time, and the heap stays well formed.\<close>

theorem timer_cancel_refines:
  assumes "heap_inv ht"
  shows "\<exists>ht'. cancel_timer ht e sid = (if sched ht e = None then 0 else 1, ht') \<and> heap_inv ht' \<and>
    sched ht' = (sched ht)(e := None) \<and>
    pj_timer_heap_count ht' = pj_timer_heap_count ht - (if sched ht e = None then 0 else 1) \<and>
    (sched ht e = None \<longrightarrow> ht' = ht)"
proof (cases "sched ht e")
  case None
  then show ?thesis using assms cancel_idle[OF None] by (auto simp: fun_eq_iff)
next
  case (Some t)
  obtain ht' where "cancel_timer ht e sid = (1, ht')" "heap_inv ht'" "sched ht' = (sched ht)(e := None)"
    "cur_size ht' = cur_size ht - 1"
    by (rule cancel_scheduled[OF assms Some, of sid]) (rule that)
  then show ?thesis using Some by (simp add: pj_timer_heap_count_def)
qed

text \<open>\<^verbatim>\<open>pj_timer_heap_earliest_time\<close> answers the smallest expiry time of the scheduled entries, and
  \<^verbatim>\<open>PJ_ENOTFOUND\<close> exactly when no entry is scheduled.\<close>

theorem timer_earliest_is_least:
  assumes "heap_inv ht"
  shows "pj_timer_heap_earliest_time ht =
      (if sched ht = Map.empty then (PJ_ENOTFOUND, None) else (PJ_SUCCESS, Some (heap_time ht 0))) \<and>
    (sched ht \<noteq> Map.empty \<longrightarrow>
      heap_time ht 0 \<in> ran (sched ht) \<and> (\<forall>t\<in>ran (sched ht). heap_time ht 0 \<le> t))"
proof
  show "pj_timer_heap_earliest_time ht =
    (if sched ht = Map.empty then (PJ_ENOTFOUND, None) else (PJ_SUCCESS, Some (heap_time ht 0)))"
    using sched_empty_iff[OF assms] by (simp add: pj_timer_heap_earliest_time_def)
  show "sched ht \<noteq> Map.empty \<longrightarrow>
      heap_time ht 0 \<in> ran (sched ht) \<and> (\<forall>t\<in>ran (sched ht). heap_time ht 0 \<le> t)"
    using sched_empty_iff[OF assms] root_min[OF assms] by (auto simp: ran_def)
qed

text \<open>C35: when the array has to grow and the pool has no memory, scheduling an idle entry answers
  \<^verbatim>\<open>PJ_ENOMEM\<close> and inserts nothing, but the entry keeps the identifier it took from the free list:
  it is reported as running although it is not in the heap, a second attempt answers
  \<^verbatim>\<open>PJ_EINVALIDOP\<close>, and the identifier is gone from the free list.\<close>

theorem timer_schedule_enomem_leaks:
  assumes "heap_inv ht" and "te_cb (entries ht e) \<noteq> None" and "sched ht e = None"
    and "cur_size ht + 2 \<ge> max_size ht" and "mem \<noteq> mem_ok"
  shows "\<exists>ht'. pj_timer_heap_schedule mem now ht e delay = (PJ_ENOMEM, ht') \<and> live ht' = live ht \<and>
    pj_timer_entry_running (entries ht' e) \<and> nat (te_timer_id (entries ht' e)) \<notin> live ht' \<and>
    \<not> heap_inv ht' \<and> timer_ids_freelist ht' \<noteq> timer_ids_freelist ht \<and>
    pj_timer_heap_schedule mem' now' ht' e delay' = (PJ_EINVALIDOP, ht')"
proof -
  obtain x where x: "x \<in> {1..<max_size ht} - live ht" "timer_ids_freelist ht = int x"
    "frees (insert x (live ht)) (taken ht e x)"
    "\<And>mem t. schedule_entry mem ht e t = insert_node mem (taken ht e x) e t"
    using heap_inv_taken[OF assms(1), of e] by metis
  let ?t = "taken ht e x"
  obtain h where h: "grow_heap mem ?t = (PJ_ENOMEM, h)" "entries h = entries ?t" "cur_size h = cur_size ?t"
    "\<And>i. i < cur_size ?t \<Longrightarrow> heap_arr h i = heap_arr ?t i" "timer_ids_freelist h = timer_ids_freelist ?t"
    using grow_heap_fails[OF assms(5), of ?t] by blast
  have arr: "heap_arr ?t = heap_arr ht" by (simp add: taken_def)
  have L: "live h = live ht" using h(3,4) arr by (auto simp: live_def)
  have run: "\<not> pj_timer_entry_running (entries ht e)" using assms(3) running_sched by simp
  have "insert_node mem ?t e (PJ_TIME_VAL_ADD now delay) = (PJ_ENOMEM, h)"
    using assms(4) h(1) by (simp add: insert_node_def)
  then have S: "pj_timer_heap_schedule mem now ht e delay = (PJ_ENOMEM, h)"
    using assms(2) run x(4) by (auto simp: pj_timer_heap_schedule_def schedule_w_grp_lock_def Let_def)
  have id: "te_timer_id (entries h e) = int x" and cb: "te_cb (entries h e) \<noteq> None"
    using h(2) assms(2) by simp_all
  then have r: "pj_timer_entry_running (entries h e)" using x(1) by (simp add: pj_timer_entry_running_def)
  have "x \<notin> live h" using x(1) L by simp
  then have "\<not> heap_inv h"
    using id x(1) unfolding heap_inv_def entry_inv_def by (metis nat_int pj_timer_entry_running_def r)
  moreover have "timer_ids_freelist h \<noteq> timer_ids_freelist ht"
  proof
    assume "timer_ids_freelist h = timer_ids_freelist ht"
    then have f: "timer_ids_freelist ?t = int x" using h(5) x(2) by simp
    obtain fl where fl: "chain (timer_ids ?t) (timer_ids_freelist ?t) fl (max_size ht)"
      "set fl = {1..<max_size ht} - insert x (live ht)"
      using x(3) by (auto simp: frees_def)
    show False using f fl x(1) by (cases fl) auto
  qed
  moreover have "pj_timer_heap_schedule mem' now' h e delay' = (PJ_EINVALIDOP, h)"
    using cb r by (auto simp: pj_timer_heap_schedule_def schedule_w_grp_lock_def Let_def)
  ultimately show ?thesis using S L r \<open>x \<notin> live h\<close> id by auto
qed

text \<open>C18: a poll returns whatever the callbacks schedule: it fires at most
  \<^verbatim>\<open>max_entries_per_poll\<close> entries, counts them, and leaves a well-formed heap.\<close>

theorem timer_poll_returns:
  assumes "heap_inv ht" and "cb_ok cb"
  shows "\<exists>delay fired ht'. pj_timer_heap_poll cb clock ht = Some (length fired, delay, fired, ht') \<and>
    length fired \<le> max_entries_per_poll ht \<and> heap_inv ht'"
  by (rule poll_result[OF assms])


section \<open>Timers as a service\<close>

text \<open>
  What the clients of the timers rely on, whatever keeps the entries: an operation answers by whether
  the entry is scheduled, and changes that entry only. \<open>expiry\<close> is the client's view of the service,
  \<open>ident\<close> the \<^verbatim>\<open>id\<close> field of an entry, which the clients use to mark an entry as active.
\<close>

locale timer_service =
  fixes inv :: "'s \<Rightarrow> bool" and ready :: "'s \<Rightarrow> 'e \<Rightarrow> bool"
    and expiry :: "'s \<Rightarrow> 'e \<Rightarrow> pj_time_val option" and ident :: "'s \<Rightarrow> 'e \<Rightarrow> int"
    and schedule :: "pj_time_val \<Rightarrow> 's \<Rightarrow> 'e \<Rightarrow> pj_time_val \<Rightarrow> int \<Rightarrow> pj_status_t \<times> 's"
    and cancel :: "'s \<Rightarrow> 'e \<Rightarrow> int \<Rightarrow> int \<times> 's"
  assumes schedule_idle:
    "inv s \<Longrightarrow> ready s e \<Longrightarrow> expiry s e = None \<Longrightarrow>
     \<exists>s'. schedule now s e d i = (PJ_SUCCESS, s') \<and> inv s' \<and> ready s' = ready s \<and>
       expiry s' = (expiry s)(e \<mapsto> PJ_TIME_VAL_ADD now d) \<and> ident s' = (ident s)(e := i)"
    and schedule_busy:
    "inv s \<Longrightarrow> ready s e \<Longrightarrow> expiry s e \<noteq> None \<Longrightarrow> schedule now s e d i = (PJ_EINVALIDOP, s)"
    and cancel_idle: "inv s \<Longrightarrow> expiry s e = None \<Longrightarrow> cancel s e i = (0, s)"
    and cancel_busy:
    "inv s \<Longrightarrow> expiry s e \<noteq> None \<Longrightarrow>
     \<exists>s'. cancel s e i = (1, s') \<and> inv s' \<and> ready s' = ready s \<and>
       expiry s' = (expiry s)(e := None) \<and> ident s' = (ident s)(e := i)"
begin

text \<open>Restarting a timer: cancel it if it runs, then schedule it. This succeeds in every state.\<close>

lemma restart:
  assumes "inv s" and "ready s e"
  shows "\<exists>s'. schedule now (snd (cancel s e i)) e d j = (PJ_SUCCESS, s') \<and> inv s' \<and> ready s' = ready s \<and>
    expiry s' = (expiry s)(e \<mapsto> PJ_TIME_VAL_ADD now d) \<and> ident s' = (ident s)(e := j)"
proof (cases "expiry s e")
  case None
  then show ?thesis using schedule_idle[OF assms None] cancel_idle[OF assms(1) None] by simp
next
  case (Some t)
  then obtain s1 where s1: "cancel s e i = (1, s1)" "inv s1" "ready s1 = ready s"
    "expiry s1 = (expiry s)(e := None)" "ident s1 = (ident s)(e := i)"
    using cancel_busy[OF assms(1), of e i] by auto
  then show ?thesis using schedule_idle[of s1 e now d j] assms(2) by simp
qed

lemma cancel_stops:
  assumes "inv s"
  shows "inv (snd (cancel s e i)) \<and> expiry (snd (cancel s e i)) = (expiry s)(e := None) \<and>
    ready (snd (cancel s e i)) = ready s \<and>
    ident (snd (cancel s e i)) = (if expiry s e = None then ident s else (ident s)(e := i))"
proof (cases "expiry s e")
  case None
  then show ?thesis using cancel_idle[OF assms None] assms by (auto simp: fun_eq_iff)
next
  case (Some t)
  then show ?thesis using cancel_busy[OF assms, of e i] by auto
qed

text \<open>Starting and stopping two different timers can be done in either order.\<close>

lemma cancel_other:
  assumes "inv s" and "e \<noteq> e'"
  shows "expiry (snd (cancel (snd (cancel s e i)) e' j)) = expiry (snd (cancel (snd (cancel s e' j)) e i))"
  using cancel_stops[OF assms(1), of e i] cancel_stops[OF assms(1), of e' j] assms(2)
    cancel_stops[of "snd (cancel s e i)" e' j] cancel_stops[of "snd (cancel s e' j)" e i]
  by (auto simp: fun_upd_twist)

end

text \<open>The heap is such a service, for entries that have a callback, as long as memory lasts.\<close>

definition heap_schedule ::
  "nat option \<Rightarrow> pj_time_val \<Rightarrow> pj_timer_heap \<Rightarrow> nat \<Rightarrow> pj_time_val \<Rightarrow> int \<Rightarrow> pj_status_t \<times> pj_timer_heap" where
  "heap_schedule lock now ht e d i = pj_timer_heap_schedule_w_grp_lock mem_ok now ht e d i lock"

definition has_cb :: "pj_timer_heap \<Rightarrow> nat \<Rightarrow> bool" where
  "has_cb ht e \<longleftrightarrow> te_cb (entries ht e) \<noteq> None"

definition entry_id :: "pj_timer_heap \<Rightarrow> nat \<Rightarrow> int" where
  "entry_id ht e = te_id (entries ht e)"

lemma set_id_Some: "set_id es e (Some i) = (\<lambda>e'. te_id (es e'))(e := i)"
  by (auto simp: set_id_def fun_eq_iff)

interpretation heap_timers: timer_service heap_inv has_cb sched entry_id "heap_schedule lock"
  pj_timer_heap_cancel_if_active for lock
proof
  fix s e now d i
  assume a: "heap_inv s" "has_cb s e"
  note defs = heap_schedule_def pj_timer_heap_schedule_w_grp_lock_def has_cb_def entry_id_def
  show "\<exists>s'. heap_schedule lock now s e d i = (PJ_SUCCESS, s') \<and> heap_inv s' \<and> has_cb s' = has_cb s \<and>
       sched s' = (sched s)(e \<mapsto> PJ_TIME_VAL_ADD now d) \<and> entry_id s' = (entry_id s)(e := i)"
    if idle: "sched s e = None"
  proof -
    obtain s' where "heap_schedule lock now s e d i = (PJ_SUCCESS, s')" "heap_inv s'"
      "sched s' = (sched s)(e \<mapsto> PJ_TIME_VAL_ADD now d)"
      "\<And>x. te_cb (entries s' x) = te_cb (entries s x)"
      "\<And>x. te_id (entries s' x) = set_id (entries s) e (Some i) x"
    proof (rule schedule_ok[of s e mem_ok now d "Some i" lock])
      show "heap_inv s" "te_cb (entries s e) \<noteq> None" "sched s e = None"
        using a idle by (simp_all add: has_cb_def)
    qed (auto simp: heap_schedule_def pj_timer_heap_schedule_w_grp_lock_def)
    then show ?thesis by (auto simp: defs fun_eq_iff set_id_def)
  qed
  show "heap_schedule lock now s e d i = (PJ_EINVALIDOP, s)" if "sched s e \<noteq> None"
    using a that running_sched by (auto simp: defs schedule_w_grp_lock_def Let_def)
next
  fix s e i
  assume a: "heap_inv s"
  show "pj_timer_heap_cancel_if_active s e i = (0, s)" if "sched s e = None"
    using cancel_idle[OF that] by (simp add: pj_timer_heap_cancel_if_active_def)
  show "\<exists>s'. pj_timer_heap_cancel_if_active s e i = (1, s') \<and> heap_inv s' \<and> has_cb s' = has_cb s \<and>
       sched s' = (sched s)(e := None) \<and> entry_id s' = (entry_id s)(e := i)"
    if b: "sched s e \<noteq> None"
  proof -
    from b obtain t where "sched s e = Some t" by blast
    from cancel_scheduled[OF a this, of "Some i"]
    obtain s' where "pj_timer_heap_cancel_if_active s e i = (1, s')" "heap_inv s'"
      "sched s' = (sched s)(e := None)" "\<And>x. te_cb (entries s' x) = te_cb (entries s x)"
      "\<And>x. te_id (entries s' x) = set_id (entries s) e (Some i) x"
      unfolding pj_timer_heap_cancel_if_active_def by metis
    then show ?thesis by (auto simp: has_cb_def entry_id_def fun_eq_iff set_id_def)
  qed
qed

text \<open>A timer is restarted by cancelling it, whether it runs or not, and scheduling it: that
  succeeds from every well-formed heap, and then exactly this entry has a new expiry time.\<close>

theorem timer_restart:
  assumes "heap_inv ht" and "te_cb (entries ht e) \<noteq> None"
  shows "\<exists>ht'. pj_timer_heap_schedule_w_grp_lock mem_ok now
      (snd (pj_timer_heap_cancel_if_active ht e i)) e d j None = (PJ_SUCCESS, ht') \<and> heap_inv ht' \<and>
    sched ht' = (sched ht)(e \<mapsto> PJ_TIME_VAL_ADD now d)"
  using heap_timers.restart[where s = ht and e = e and now = now and i = i and d = d and j = j and lock = None] assms by (auto simp: has_cb_def heap_schedule_def)

section \<open>Witnesses\<close>

text \<open>A heap with room for two timers, and the same heap with entry 7 expiring at 1.5 s.\<close>

definition small_heap :: pj_timer_heap where
  "small_heap = the (snd (pj_timer_heap_create True mem_ok 2 (\<lambda>_. pj_timer_entry_init 0 0 1) (\<lambda>_. 0)))"

definition busy_heap :: pj_timer_heap where
  "busy_heap = snd (pj_timer_heap_schedule mem_ok (Time_Val 1 0) small_heap 7 (Time_Val 0 500))"

lemma small_heap_inv: "heap_inv small_heap" "sched small_heap = Map.empty"
  "te_cb (entries small_heap e) = Some 1"
proof -
  have c: "pj_timer_heap_create True mem_ok 2 (\<lambda>_. pj_timer_entry_init 0 0 1) (\<lambda>_. 0) = (PJ_SUCCESS, Some small_heap)"
    by (simp add: small_heap_def pj_timer_heap_create_def mem_ok_def)
  show "heap_inv small_heap" "sched small_heap = Map.empty"
    by (rule create_inv[OF _ c]; simp add: pj_timer_entry_init_def)+
  show "te_cb (entries small_heap e) = Some 1"
    by (simp add: small_heap_def pj_timer_heap_create_def mem_ok_def pj_timer_entry_init_def)
qed

lemma busy_heap_inv: "heap_inv busy_heap" "sched busy_heap = [7 \<mapsto> Time_Val 1 500]"
  "te_cb (entries busy_heap e) = Some 1"
proof -
  obtain ht' where "schedule_w_grp_lock mem_ok (Time_Val 1 0) small_heap 7 (Time_Val 0 500) None None = (PJ_SUCCESS, ht')"
    "heap_inv ht'" "sched ht' = (sched small_heap)(7 \<mapsto> PJ_TIME_VAL_ADD (Time_Val 1 0) (Time_Val 0 500))"
    "\<And>e'. te_cb (entries ht' e') = te_cb (entries small_heap e')"
    by (rule schedule_ok[of small_heap 7 mem_ok "Time_Val 1 0" "Time_Val 0 500" None None])
      (simp_all add: small_heap_inv)
  moreover from this have "busy_heap = ht'" by (simp add: busy_heap_def pj_timer_heap_schedule_def)
  moreover have "PJ_TIME_VAL_ADD (Time_Val 1 0) (Time_Val 0 500) = Time_Val 1 500" by code_simp
  ultimately show "heap_inv busy_heap" "sched busy_heap = [7 \<mapsto> Time_Val 1 500]"
    "te_cb (entries busy_heap e) = Some 1"
    by (simp_all add: small_heap_inv)
qed

lemma quiet_id: "cb_quiet (\<lambda>_ _ h. h)" "cb_ok (\<lambda>_ _ h. h)"
  by (auto simp: cb_quiet_def cb_ok_def)

lemma timer_schedule_refines_witness:
  "\<exists>ht'. schedule_w_grp_lock mem_ok (Time_Val 2 0) busy_heap 3 (Time_Val 0 100) (Some 5) (Some 9) =
     (PJ_SUCCESS, ht') \<and> sched ht' = [7 \<mapsto> Time_Val 1 500, 3 \<mapsto> Time_Val 2 100]"
proof -
  have "PJ_TIME_VAL_ADD (Time_Val 2 0) (Time_Val 0 100) = Time_Val 2 100" by code_simp
  then show ?thesis
    using timer_schedule_refines[of busy_heap 3 mem_ok "Time_Val 2 0" "Time_Val 0 100" "Some 5" "Some 9"]
    by (auto simp: busy_heap_inv)
qed

lemma timer_cancel_refines_witness:
  "\<exists>ht'. cancel_timer busy_heap 7 None = (1, ht') \<and> sched ht' = Map.empty"
  using timer_cancel_refines[OF busy_heap_inv(1), of 7 None] by (auto simp: busy_heap_inv)

lemma timer_earliest_is_least_witness:
  "pj_timer_heap_earliest_time busy_heap = (PJ_SUCCESS, Some (Time_Val 1 500))"
  using timer_earliest_is_least[OF busy_heap_inv(1)] by (simp add: busy_heap_inv)

lemma timer_schedule_enomem_leaks_witness:
  "\<exists>ht'. pj_timer_heap_schedule \<lparr>heap_mem = False, dups_mem = True, ids_mem = True\<rparr> (Time_Val 2 0)
     (snd (pj_timer_heap_schedule mem_ok (Time_Val 1 0) busy_heap 4 (Time_Val 0 1))) 3 (Time_Val 0 1)
     = (PJ_ENOMEM, ht') \<and> pj_timer_entry_running (entries ht' 3)"
proof -
  obtain h where h: "schedule_w_grp_lock mem_ok (Time_Val 1 0) busy_heap 4 (Time_Val 0 1) None None = (PJ_SUCCESS, h)"
    "heap_inv h" "sched h = (sched busy_heap)(4 \<mapsto> PJ_TIME_VAL_ADD (Time_Val 1 0) (Time_Val 0 1))"
    "\<And>e'. te_cb (entries h e') = te_cb (entries busy_heap e')"
    by (rule schedule_ok[of busy_heap 4 mem_ok "Time_Val 1 0" "Time_Val 0 1" None None])
      (simp_all add: busy_heap_inv)
  have hd: "h = snd (pj_timer_heap_schedule mem_ok (Time_Val 1 0) busy_heap 4 (Time_Val 0 1))"
    using h(1) by (simp add: pj_timer_heap_schedule_def)
  moreover have "cur_size (snd (pj_timer_heap_schedule mem_ok (Time_Val 1 0) busy_heap 4 (Time_Val 0 1))) + 2
      \<ge> max_size (snd (pj_timer_heap_schedule mem_ok (Time_Val 1 0) busy_heap 4 (Time_Val 0 1)))"
    by code_simp
  ultimately have grow: "cur_size h + 2 \<ge> max_size h" by simp
  have cb: "te_cb (entries h 3) \<noteq> None" and idle: "sched h 3 = None"
    by (simp_all add: h busy_heap_inv)
  have "\<lparr>heap_mem = False, dups_mem = True, ids_mem = True\<rparr> \<noteq> mem_ok" by (simp add: mem_ok_def)
  from timer_schedule_enomem_leaks[OF h(2) cb idle grow this]
  show ?thesis unfolding hd[symmetric] by blast
qed

lemma timer_poll_returns_witness:
  "\<exists>delay fired ht'. pj_timer_heap_poll (\<lambda>_ _ h. h) (\<lambda>_. Time_Val 2 0) busy_heap =
     Some (length fired, delay, fired, ht') \<and> heap_inv ht'"
  using timer_poll_returns[OF busy_heap_inv(1) quiet_id(2)] by blast


lemma timer_restart_witness:
  "\<exists>ht'. pj_timer_heap_schedule_w_grp_lock mem_ok (Time_Val 3 0)
      (snd (pj_timer_heap_cancel_if_active busy_heap 7 0)) 7 (Time_Val 0 250) 1 None = (PJ_SUCCESS, ht') \<and>
    sched ht' = [7 \<mapsto> Time_Val 3 250]"
proof -
  have "PJ_TIME_VAL_ADD (Time_Val 3 0) (Time_Val 0 250) = Time_Val 3 250" by code_simp
  then show ?thesis
    using timer_restart[OF busy_heap_inv(1), of 7 "Time_Val 3 0" 0 "Time_Val 0 250" 1]
    by (auto simp: busy_heap_inv)
qed

end
