(* ===== verification/Stun_Tsx.thy ===== *)
theory Stun_Tsx
  imports Timer_Heap_Props
begin

text \<open>
  The STUN client transaction of \<^verbatim>\<open>pjnath/src/pjnath/stun_transaction.c\<close>, on the timer heap of
  \<^verbatim>\<open>Timer_Heap\<close>: its two timers are entries of the heap, and the properties use the contract
  \<open>timer_service\<close> through the interpretation \<open>heap_timers\<close>. The application callbacks are outputs:
  the answer of \<^verbatim>\<open>on_send_msg\<close> is an argument, calls of \<^verbatim>\<open>on_complete\<close> and \<^verbatim>\<open>on_destroy\<close>, which the
  code makes last in each operation, are values of \<open>stun_out\<close>. A response is the type and the error
  code attribute that the transaction looks at.
\<close>

unbundle bit_operations_syntax

section \<open>Data\<close>

abbreviation (input) "TIMER_INACTIVE \<equiv> (0 :: int)"
abbreviation (input) "TIMER_ACTIVE \<equiv> (1 :: int)"
abbreviation (input) "PJ_STUN_RTO_VALUE \<equiv> (100 :: nat)"
abbreviation (input) "PJ_STUN_TIMEOUT_VALUE \<equiv> (1600 :: nat)"
abbreviation (input) "PJ_STUN_MAX_TRANSMIT_COUNT \<equiv> (7 :: nat)"

record pj_stun_client_tsx =
  cb_on_complete :: bool
  cb_on_destroy :: bool
  tsx_user_data :: nat
  tsx_grp_lock :: "nat option"
  complete :: bool
  require_retransmit :: bool
  rto_msec :: nat
  retransmit_timer :: nat
  transmit_count :: nat
  retransmit_time :: pj_time_val
  destroy_timer :: nat
  is_destroying :: bool
  last_pkt :: "byte list"

record pj_stun_msg =
  stun_type :: nat
  stun_err_code :: "int option"

datatype stun_out = Stun_Send "byte list" | Stun_Complete pj_status_t "pj_stun_msg option" | Stun_Destroy

definition PJ_STUN_IS_SUCCESS_RESPONSE :: "nat \<Rightarrow> bool" where
  "PJ_STUN_IS_SUCCESS_RESPONSE msg_type \<longleftrightarrow> (of_nat msg_type :: 32 word) AND 0x0110 = 0x0100"

definition PJ_STUN_IS_ERROR_RESPONSE :: "nat \<Rightarrow> bool" where
  "PJ_STUN_IS_ERROR_RESPONSE msg_type \<longleftrightarrow> (of_nat msg_type :: 32 word) AND 0x0110 = 0x0110"

definition PJ_STATUS_FROM_STUN_CODE :: "int \<Rightarrow> pj_status_t" where
  "PJ_STATUS_FROM_STUN_CODE code = 370000 + code"

section \<open>Operations\<close>

definition timer_id :: "pj_timer_heap \<Rightarrow> nat \<Rightarrow> int" where
  "timer_id ht p = te_id (entries ht p)"

definition set_timer_id :: "pj_timer_heap \<Rightarrow> nat \<Rightarrow> int \<Rightarrow> pj_timer_heap" where
  "set_timer_id ht p i = ht\<lparr>entries := (entries ht)(p := (entries ht p)\<lparr>te_id := i\<rparr>)\<rparr>"

text \<open>
  The entries of the two timers, \<open>rt\<close> and \<open>dt\<close>, are part of the zeroed structure; creation gives them
  their callbacks, the functions number 1 and 2 here, and \<open>self\<close> as user data.
\<close>

definition pj_stun_client_tsx_create ::
  "nat \<Rightarrow> nat option \<Rightarrow> bool \<Rightarrow> bool \<Rightarrow> nat \<Rightarrow> nat \<Rightarrow> nat \<Rightarrow> pj_timer_heap \<Rightarrow> pj_stun_client_tsx \<times> pj_timer_heap" where
  "pj_stun_client_tsx_create rto grp_lock on_complete on_destroy self rt dt ht =
     (let timer = (\<lambda>c. \<lparr>te_id = 0, te_user_data = self, te_cb = Some c, te_timer_id = 0\<rparr>)
      in (\<lparr>cb_on_complete = on_complete, cb_on_destroy = on_destroy, tsx_user_data = 0, tsx_grp_lock = grp_lock,
           complete = False, require_retransmit = False, rto_msec = rto, retransmit_timer = rt, transmit_count = 0,
           retransmit_time = Time_Val 0 0, destroy_timer = dt, is_destroying = False, last_pkt = []\<rparr>,
          ht\<lparr>entries := (entries ht)(rt := timer 1, dt := timer 2)\<rparr>))"

definition stop_retransmit :: "pj_stun_client_tsx \<Rightarrow> pj_timer_heap \<Rightarrow> pj_timer_heap" where
  "stop_retransmit tsx ht = snd (pj_timer_heap_cancel_if_active ht (retransmit_timer tsx) TIMER_INACTIVE)"

definition pj_stun_client_tsx_schedule_destroy ::
  "alloc \<Rightarrow> pj_time_val \<Rightarrow> pj_stun_client_tsx \<Rightarrow> pj_timer_heap \<Rightarrow> pj_time_val
   \<Rightarrow> pj_status_t \<times> pj_stun_client_tsx \<times> pj_timer_heap" where
  "pj_stun_client_tsx_schedule_destroy mem now tsx ht delay =
     (if \<not> cb_on_destroy tsx then (PJ_EINVAL, tsx, ht)
      else if is_destroying tsx then (PJ_SUCCESS, tsx, ht)
      else let tsx1 = tsx\<lparr>is_destroying := True\<rparr>;
               ht1 = snd (pj_timer_heap_cancel_if_active ht (destroy_timer tsx1) TIMER_INACTIVE);
               ht2 = stop_retransmit tsx1 ht1;
               (status, ht3) = pj_timer_heap_schedule_w_grp_lock mem now ht2 (destroy_timer tsx1) delay
                                 TIMER_ACTIVE (tsx_grp_lock tsx1)
           in if status \<noteq> PJ_SUCCESS then (status, tsx1, ht3)
              else (PJ_SUCCESS, tsx1\<lparr>cb_on_complete := False\<rparr>, ht3))"

definition pj_stun_client_tsx_stop :: "pj_stun_client_tsx \<Rightarrow> pj_timer_heap \<Rightarrow> pj_status_t \<times> pj_timer_heap" where
  "pj_stun_client_tsx_stop tsx ht =
     (let ht1 = stop_retransmit tsx ht
      in (PJ_SUCCESS, snd (pj_timer_heap_cancel_if_active ht1 (destroy_timer tsx) TIMER_INACTIVE)))"

definition pj_stun_client_tsx_is_complete :: "pj_stun_client_tsx \<Rightarrow> bool" where
  "pj_stun_client_tsx_is_complete tsx = complete tsx"

definition pj_stun_client_tsx_set_data :: "pj_stun_client_tsx \<Rightarrow> nat \<Rightarrow> pj_status_t \<times> pj_stun_client_tsx" where
  "pj_stun_client_tsx_set_data tsx data = (PJ_SUCCESS, tsx\<lparr>tsx_user_data := data\<rparr>)"

definition pj_stun_client_tsx_get_data :: "pj_stun_client_tsx \<Rightarrow> nat" where
  "pj_stun_client_tsx_get_data tsx = tsx_user_data tsx"

definition msec_time :: "nat \<Rightarrow> pj_time_val" where
  "msec_time n = Time_Val (int (n div 1000)) (int (n mod 1000))"

definition next_retransmit_time :: "pj_stun_client_tsx \<Rightarrow> pj_time_val" where
  "next_retransmit_time tsx =
     (if transmit_count tsx = 0 then Time_Val 0 (int (rto_msec tsx))
      else if transmit_count tsx < PJ_STUN_MAX_TRANSMIT_COUNT - 1
      then msec_time (u32 (2 * int (u32 (PJ_TIME_VAL_MSEC (retransmit_time tsx)))))
      else msec_time PJ_STUN_TIMEOUT_VALUE)"

text \<open>Scheduling the retransmission timer; when that fails its identifier is reset.\<close>

definition start_retransmit ::
  "alloc \<Rightarrow> pj_time_val \<Rightarrow> pj_stun_client_tsx \<Rightarrow> pj_timer_heap \<Rightarrow> pj_status_t \<times> pj_timer_heap" where
  "start_retransmit mem now tsx ht =
     (let (status, ht1) = pj_timer_heap_schedule_w_grp_lock mem now ht (retransmit_timer tsx)
                            (retransmit_time tsx) TIMER_ACTIVE (tsx_grp_lock tsx)
      in if status \<noteq> PJ_SUCCESS then (status, set_timer_id ht1 (retransmit_timer tsx) TIMER_INACTIVE)
         else (status, ht1))"

text \<open>The result is the status, the outputs, the transaction and the heap; \<open>answer\<close> is that of \<^verbatim>\<open>on_send_msg\<close>.\<close>

type_synonym stun_result = "pj_status_t \<times> stun_out list \<times> pj_stun_client_tsx \<times> pj_timer_heap"

definition tsx_transmit_msg ::
  "alloc \<Rightarrow> pj_time_val \<Rightarrow> pj_status_t \<Rightarrow> pj_stun_client_tsx \<Rightarrow> pj_timer_heap \<Rightarrow> bool \<Rightarrow> stun_result" where
  "tsx_transmit_msg mem now answer tsx ht mod_count =
     (if \<not> (timer_id ht (retransmit_timer tsx) = TIMER_INACTIVE \<or> \<not> require_retransmit tsx \<or> \<not> mod_count)
      then (PJ_EBUSY, [], tsx, ht)
      else let tsx1 = (if require_retransmit tsx \<and> mod_count
                       then tsx\<lparr>retransmit_time := next_retransmit_time tsx\<rparr> else tsx);
               (status, ht1) = (if require_retransmit tsx \<and> mod_count then start_retransmit mem now tsx1 ht
                                else (PJ_SUCCESS, ht))
      in if status \<noteq> PJ_SUCCESS then (status, [], tsx1, ht1)
      else let tsx2 = (if mod_count then tsx1\<lparr>transmit_count := transmit_count tsx1 + 1\<rparr> else tsx1);
               status' = (if answer = PJ_EPENDING \<or> answer = PJ_EBUSY then PJ_SUCCESS else answer);
               ht2 = (if status' = PJNATH_ESTUNDESTROYED then ht1
                      else if status' \<noteq> PJ_SUCCESS then
                        if mod_count \<or> status' = PJ_EINVALIDOP then stop_retransmit tsx2 ht1 else ht1
                      else ht1)
      in (status', [Stun_Send (last_pkt tsx2)], tsx2, ht2))"

definition pj_stun_client_tsx_send_msg ::
  "alloc \<Rightarrow> pj_time_val \<Rightarrow> pj_status_t \<Rightarrow> pj_stun_client_tsx \<Rightarrow> pj_timer_heap \<Rightarrow> bool \<Rightarrow> byte list \<Rightarrow> stun_result" where
  "pj_stun_client_tsx_send_msg mem now answer tsx ht retransmit pkt =
     (if pkt = [] then (PJ_EINVAL, [], tsx, ht)
      else if timer_id ht (retransmit_timer tsx) \<noteq> 0 then (PJ_EBUSY, [], tsx, ht)
      else if is_destroying tsx then (PJ_SUCCESS, [], tsx, ht)
      else let tsx1 = tsx\<lparr>last_pkt := pkt, require_retransmit := retransmit\<rparr>;
               tsx2 = (if \<not> retransmit
                       then tsx1\<lparr>transmit_count := PJ_STUN_MAX_TRANSMIT_COUNT,
                                 retransmit_time := msec_time (u32 (int (rto_msec tsx1) * 16))\<rparr>
                       else tsx1);
               (status, ht1) = (if \<not> retransmit then start_retransmit mem now tsx2 ht else (PJ_SUCCESS, ht))
      in if status \<noteq> PJ_SUCCESS then (status, [], tsx2, ht1)
      else let (status', outs, tsx3, ht2) = tsx_transmit_msg mem now answer tsx2 ht1 True
      in if status' \<noteq> PJ_SUCCESS then (status', outs, tsx3, stop_retransmit tsx3 ht2)
      else (PJ_SUCCESS, outs, tsx3, ht2))"

text \<open>Reporting completion, at most once.\<close>

definition complete_with ::
  "pj_stun_client_tsx \<Rightarrow> pj_status_t \<Rightarrow> pj_stun_msg option \<Rightarrow> stun_out list \<times> pj_stun_client_tsx" where
  "complete_with tsx status msg =
     (if \<not> complete tsx
      then (if cb_on_complete tsx then [Stun_Complete status msg] else [], tsx\<lparr>complete := True\<rparr>)
      else ([], tsx))"

definition retransmit_timer_callback ::
  "alloc \<Rightarrow> pj_time_val \<Rightarrow> pj_status_t \<Rightarrow> pj_stun_client_tsx \<Rightarrow> pj_timer_heap
   \<Rightarrow> stun_out list \<times> pj_stun_client_tsx \<times> pj_timer_heap" where
  "retransmit_timer_callback mem now answer tsx ht =
     (if is_destroying tsx then ([], tsx, ht)
      else if transmit_count tsx \<ge> PJ_STUN_MAX_TRANSMIT_COUNT then
        let ht1 = set_timer_id ht (retransmit_timer tsx) 0;
            (outs, tsx1) = complete_with tsx PJNATH_ESTUNTIMEDOUT None
        in (outs, tsx1, ht1)
      else let ht1 = set_timer_id ht (retransmit_timer tsx) 0;
               (status, outs, tsx1, ht2) = tsx_transmit_msg mem now answer tsx ht1 True
      in if status \<noteq> PJ_SUCCESS then
           let ht3 = set_timer_id ht2 (retransmit_timer tsx1) 0;
               (outs', tsx2) = complete_with tsx1 status None
           in (outs @ outs', tsx2, ht3)
         else (outs, tsx1, ht2))"

definition pj_stun_client_tsx_retransmit ::
  "alloc \<Rightarrow> pj_time_val \<Rightarrow> pj_status_t \<Rightarrow> pj_stun_client_tsx \<Rightarrow> pj_timer_heap \<Rightarrow> bool \<Rightarrow> stun_result" where
  "pj_stun_client_tsx_retransmit mem now answer tsx ht mod_count =
     (if timer_id ht (destroy_timer tsx) \<noteq> 0 \<or> is_destroying tsx then (PJ_SUCCESS, [], tsx, ht)
      else let ht1 = (if mod_count then stop_retransmit tsx ht else ht)
           in tsx_transmit_msg mem now answer tsx ht1 mod_count)"

definition destroy_timer_callback :: "pj_stun_client_tsx \<Rightarrow> pj_timer_heap \<Rightarrow> stun_out list \<times> pj_timer_heap" where
  "destroy_timer_callback tsx ht = ([Stun_Destroy], set_timer_id ht (destroy_timer tsx) 0)"

definition pj_stun_client_tsx_on_rx_msg ::
  "pj_stun_client_tsx \<Rightarrow> pj_timer_heap \<Rightarrow> pj_stun_msg \<Rightarrow> stun_result" where
  "pj_stun_client_tsx_on_rx_msg tsx ht msg =
     (if \<not> PJ_STUN_IS_SUCCESS_RESPONSE (stun_type msg) \<and> \<not> PJ_STUN_IS_ERROR_RESPONSE (stun_type msg)
      then (PJNATH_EINSTUNMSGTYPE, [], tsx, ht)
      else let ht1 = stop_retransmit tsx ht
      in case stun_err_code msg of
           Some code \<Rightarrow>
             if code \<le> 200 then (PJ_SUCCESS, [], tsx, ht1)
             else let (outs, tsx1) = complete_with tsx (PJ_STATUS_FROM_STUN_CODE code) (Some msg)
                  in (PJ_SUCCESS, outs, tsx1, ht1)
         | None \<Rightarrow> let (outs, tsx1) = complete_with tsx PJ_SUCCESS (Some msg)
                   in (PJ_SUCCESS, outs, tsx1, ht1))"

text \<open>The poll takes the entry out of the heap and calls the callback of its timer.\<close>

definition heap_expire :: "pj_timer_heap \<Rightarrow> nat \<Rightarrow> pj_timer_heap" where
  "heap_expire ht e = snd (cancel_timer ht e None)"

section \<open>Sequences of operations\<close>

text \<open>An operation with what the environment answers: memory, the time, the result of sending.\<close>

datatype stun_op =
    Op_Send bool "byte list"
  | Op_Retransmit bool
  | Op_Rx pj_stun_msg
  | Op_Schedule_Destroy pj_time_val
  | Op_Stop
  | Op_Retransmit_Fires
  | Op_Destroy_Fires

type_synonym stun_env = "alloc \<times> pj_time_val \<times> pj_status_t"

fun stun_step ::
  "stun_env \<times> stun_op \<Rightarrow> pj_stun_client_tsx \<Rightarrow> pj_timer_heap \<Rightarrow> stun_out list \<times> pj_stun_client_tsx \<times> pj_timer_heap" where
  "stun_step ((mem, now, ans), Op_Send retr pkt) tsx ht = snd (pj_stun_client_tsx_send_msg mem now ans tsx ht retr pkt)"
| "stun_step ((mem, now, ans), Op_Retransmit mc) tsx ht = snd (pj_stun_client_tsx_retransmit mem now ans tsx ht mc)"
| "stun_step (_, Op_Rx msg) tsx ht = snd (pj_stun_client_tsx_on_rx_msg tsx ht msg)"
| "stun_step ((mem, now, ans), Op_Schedule_Destroy delay) tsx ht =
     ([], snd (pj_stun_client_tsx_schedule_destroy mem now tsx ht delay))"
| "stun_step (_, Op_Stop) tsx ht = ([], tsx, snd (pj_stun_client_tsx_stop tsx ht))"
| "stun_step ((mem, now, ans), Op_Retransmit_Fires) tsx ht =
     retransmit_timer_callback mem now ans tsx (heap_expire ht (retransmit_timer tsx))"
| "stun_step (_, Op_Destroy_Fires) tsx ht =
     (case destroy_timer_callback tsx (heap_expire ht (destroy_timer tsx)) of (outs, ht') \<Rightarrow> (outs, tsx, ht'))"

fun stun_exec ::
  "(stun_env \<times> stun_op) list \<Rightarrow> pj_stun_client_tsx \<Rightarrow> pj_timer_heap \<Rightarrow> stun_out list \<times> pj_stun_client_tsx \<times> pj_timer_heap" where
  "stun_exec [] tsx ht = ([], tsx, ht)"
| "stun_exec (x # xs) tsx ht =
     (case stun_step x tsx ht of (outs, tsx1, ht1) \<Rightarrow>
        case stun_exec xs tsx1 ht1 of (outs', tsx2, ht2) \<Rightarrow> (outs @ outs', tsx2, ht2))"

text \<open>What an operation does to the completion flag, the callback and the settings.\<close>

definition completes :: "stun_out list \<Rightarrow> nat" where
  "completes outs = length (filter (\<lambda>x. \<exists>s m. x = Stun_Complete s m) outs)"

lemma completes_simps [simp]:
  "completes [] = 0" "completes (xs @ ys) = completes xs + completes ys"
  "completes (Stun_Send p # xs) = completes xs" "completes (Stun_Complete s m # xs) = Suc (completes xs)"
  "completes (Stun_Destroy # xs) = completes xs"
  by (simp_all add: completes_def)

definition progress :: "pj_stun_client_tsx \<Rightarrow> stun_out list \<Rightarrow> pj_stun_client_tsx \<Rightarrow> bool" where
  "progress tsx outs tsx' \<longleftrightarrow> completes outs + of_bool (complete tsx) \<le> of_bool (complete tsx') \<and>
     (\<not> cb_on_complete tsx \<longrightarrow> \<not> cb_on_complete tsx' \<and> completes outs = 0) \<and>
     (is_destroying tsx \<longrightarrow> is_destroying tsx' \<and> (\<forall>p. Stun_Send p \<notin> set outs)) \<and>
     retransmit_timer tsx' = retransmit_timer tsx \<and> destroy_timer tsx' = destroy_timer tsx"

lemma progress_refl: "progress tsx [] tsx"
  by (simp add: progress_def)

lemma progress_trans: "progress t1 o1 t2 \<Longrightarrow> progress t2 o2 t3 \<Longrightarrow> progress t1 (o1 @ o2) t3"
  by (auto simp: progress_def)

lemma complete_with_progress:
  "complete_with tsx status msg = (outs, tsx') \<Longrightarrow> progress tsx outs tsx' \<and> transmit_count tsx' = transmit_count tsx"
  by (auto simp: complete_with_def progress_def split: if_splits)

lemma transmit_progress:
  "tsx_transmit_msg mem now ans tsx ht mc = (st, outs, tsx', ht') \<Longrightarrow>
   completes outs = 0 \<and> complete tsx' = complete tsx \<and> cb_on_complete tsx' = cb_on_complete tsx \<and>
   is_destroying tsx' = is_destroying tsx \<and>
   retransmit_timer tsx' = retransmit_timer tsx \<and> destroy_timer tsx' = destroy_timer tsx"
  by (auto simp: tsx_transmit_msg_def Let_def split: if_splits prod.splits)

lemma step_progress: "stun_step x tsx ht = (outs, tsx', ht') \<Longrightarrow> progress tsx outs tsx'"
proof (cases x)
  case (Pair env oper)
  obtain mem now ans where env: "env = (mem, now, ans)" by (cases env)
  assume s: "stun_step x tsx ht = (outs, tsx', ht')"
  show ?thesis
  proof (cases oper)
    case (Op_Send retr pkt)
    then show ?thesis using s unfolding Pair env
      by (auto simp: pj_stun_client_tsx_send_msg_def Let_def progress_def split: if_splits prod.splits dest!: transmit_progress)
  next
    case (Op_Retransmit mc)
    let ?h = "if mc then stop_retransmit tsx ht else ht"
    show ?thesis
    proof (cases "timer_id ht (destroy_timer tsx) \<noteq> 0 \<or> is_destroying tsx")
      case True
      then show ?thesis using s Op_Retransmit Pair env by (auto simp: pj_stun_client_tsx_retransmit_def progress_def)
    next
      case False
      obtain st where t: "tsx_transmit_msg mem now ans tsx ?h mc = (st, outs, tsx', ht')"
        using s False Op_Retransmit Pair env by (cases "tsx_transmit_msg mem now ans tsx ?h mc")
          (auto simp: pj_stun_client_tsx_retransmit_def Let_def)
      show ?thesis using transmit_progress[OF t] False by (simp add: progress_def)
    qed
  next
    case (Op_Rx msg)
    have "(outs = [] \<and> tsx' = tsx) \<or> (\<exists>st m. complete_with tsx st m = (outs, tsx'))"
      using s unfolding Pair env Op_Rx
      by (auto simp: pj_stun_client_tsx_on_rx_msg_def Let_def split: if_splits prod.splits option.splits)
    then show ?thesis using complete_with_progress progress_refl by blast
  next
    case (Op_Schedule_Destroy delay)
    then show ?thesis using s unfolding Pair env
      by (auto simp: pj_stun_client_tsx_schedule_destroy_def Let_def progress_def split: if_splits prod.splits)
  next
    case Op_Stop
    then show ?thesis using s unfolding Pair env by (auto simp: progress_def)
  next
    case Op_Retransmit_Fires
    let ?ht = "heap_expire ht (retransmit_timer tsx)"
    show ?thesis
    proof (cases "is_destroying tsx \<or> transmit_count tsx \<ge> PJ_STUN_MAX_TRANSMIT_COUNT")
      case True
      then have "(outs = [] \<and> tsx' = tsx) \<or> (\<exists>st m. complete_with tsx st m = (outs, tsx'))"
        using s unfolding Pair env Op_Retransmit_Fires
        by (auto simp: retransmit_timer_callback_def Let_def split: if_splits prod.splits)
      then show ?thesis using complete_with_progress progress_refl by blast
    next
      case False
      obtain st o1 t1 h1 where t: "tsx_transmit_msg mem now ans tsx (set_timer_id ?ht (retransmit_timer tsx) 0) True = (st, o1, t1, h1)"
        by (metis prod_cases4)
      then have p: "progress tsx o1 t1" using transmit_progress[OF t] False by (simp add: progress_def)
      have "(outs = o1 \<and> tsx' = t1) \<or> (\<exists>o2 m. complete_with t1 st m = (o2, tsx') \<and> outs = o1 @ o2)"
        using s t False unfolding Pair env Op_Retransmit_Fires
        by (auto simp: retransmit_timer_callback_def Let_def split: if_splits prod.splits)
      then show ?thesis using p complete_with_progress progress_trans by blast
    qed
  next
    case Op_Destroy_Fires
    then show ?thesis using s unfolding Pair env by (auto simp: destroy_timer_callback_def progress_def)
  qed
qed

lemma exec_progress: "stun_exec xs tsx ht = (outs, tsx', ht') \<Longrightarrow> progress tsx outs tsx'"
proof (induction xs arbitrary: tsx ht outs)
  case (Cons x xs)
  obtain o1 t1 h1 o2 where 1: "stun_step x tsx ht = (o1, t1, h1)" "stun_exec xs t1 h1 = (o2, tsx', ht')" "outs = o1 @ o2"
    using Cons.prems by (auto split: prod.splits)
  show ?case using progress_trans[OF step_progress[OF 1(1)] Cons.IH[OF 1(2)]] 1(3) by simp
qed (simp add: progress_refl)

section \<open>The timers on the heap\<close>

text \<open>The two entries of the transaction are set up in a well-formed heap.\<close>

definition stun_ready :: "pj_stun_client_tsx \<Rightarrow> pj_timer_heap \<Rightarrow> bool" where
  "stun_ready tsx ht \<longleftrightarrow> heap_inv ht \<and> has_cb ht (retransmit_timer tsx) \<and> has_cb ht (destroy_timer tsx) \<and>
     retransmit_timer tsx \<noteq> destroy_timer tsx"

lemma heap_expire_stops:
  assumes "heap_inv ht"
  shows "heap_inv (heap_expire ht e) \<and> sched (heap_expire ht e) = (sched ht)(e := None) \<and>
    has_cb (heap_expire ht e) = has_cb ht \<and> entry_id (heap_expire ht e) = entry_id ht"
proof (cases "sched ht e")
  case None
  then show ?thesis using cancel_idle[OF None, of None] assms by (auto simp: heap_expire_def fun_eq_iff)
next
  case (Some t)
  obtain ht' where "cancel_timer ht e None = (1, ht')" "heap_inv ht'" "sched ht' = (sched ht)(e := None)"
    "\<And>e'. te_cb (entries ht' e') = te_cb (entries ht e')" "\<And>e'. te_id (entries ht' e') = set_id (entries ht) e None e'"
    using cancel_scheduled[OF assms Some] by metis
  then show ?thesis by (auto simp: heap_expire_def has_cb_def entry_id_def set_id_def fun_eq_iff)
qed

lemma set_timer_id_keeps:
  "heap_inv (set_timer_id ht e i) = heap_inv ht" "sched (set_timer_id ht e i) = sched ht"
  "has_cb (set_timer_id ht e i) = has_cb ht" "timer_id (set_timer_id ht e i) = (timer_id ht)(e := i)"
proof -
  let ?h = "set_timer_id ht e i"
  have tid: "te_timer_id (entries ?h x) = te_timer_id (entries ht x)" for x by (simp add: set_timer_id_def)
  have flds: "cur_size ?h = cur_size ht" "max_size ?h = max_size ht" "heap_arr ?h = heap_arr ht"
    "timer_ids ?h = timer_ids ht" "timer_dups ?h = timer_dups ht" "timer_ids_freelist ?h = timer_ids_freelist ht"
    by (simp_all add: set_timer_id_def)
  have L: "live ?h = live ht" and T: "tval ?h = tval ht" by (simp_all add: live_def flds fun_eq_iff)
  show "heap_inv ?h = heap_inv ht"
    unfolding heap_inv_def array_inv_def frees_def entry_inv_def L T flds tid ..
  show "sched ?h = sched ht" by (simp add: fun_eq_iff sched_def tid flds)
  show "has_cb ?h = has_cb ht" by (simp add: fun_eq_iff has_cb_def set_timer_id_def)
  show "timer_id ?h = (timer_id ht)(e := i)" by (simp add: fun_eq_iff timer_id_def set_timer_id_def)
qed

lemma start_retransmit_ok:
  assumes "stun_ready tsx ht" and "sched ht (retransmit_timer tsx) = None"
  shows "\<exists>ht'. start_retransmit mem_ok now tsx ht = (PJ_SUCCESS, ht') \<and> stun_ready tsx ht' \<and>
    sched ht' = (sched ht)(retransmit_timer tsx \<mapsto> PJ_TIME_VAL_ADD now (retransmit_time tsx)) \<and>
    timer_id ht' = (timer_id ht)(retransmit_timer tsx := TIMER_ACTIVE)"
proof -
  have id: "entry_id = timer_id" by (simp add: fun_eq_iff entry_id_def timer_id_def)
  obtain ht' where "heap_schedule (tsx_grp_lock tsx) now ht (retransmit_timer tsx) (retransmit_time tsx) TIMER_ACTIVE = (PJ_SUCCESS, ht')"
    "heap_inv ht'" "has_cb ht' = has_cb ht" "sched ht' = (sched ht)(retransmit_timer tsx \<mapsto> PJ_TIME_VAL_ADD now (retransmit_time tsx))"
    "entry_id ht' = (entry_id ht)(retransmit_timer tsx := TIMER_ACTIVE)"
    using heap_timers.schedule_idle[of ht "retransmit_timer tsx"] assms by (metis stun_ready_def)
  then show ?thesis using assms(1) by (simp add: start_retransmit_def stun_ready_def heap_schedule_def id)
qed

lemma stop_retransmit_ok:
  assumes "stun_ready tsx ht"
  shows "stun_ready tsx (stop_retransmit tsx ht) \<and> sched (stop_retransmit tsx ht) = (sched ht)(retransmit_timer tsx := None) \<and>
    timer_id (stop_retransmit tsx ht) =
      (if sched ht (retransmit_timer tsx) = None then timer_id ht else (timer_id ht)(retransmit_timer tsx := TIMER_INACTIVE))"
proof -
  have id: "entry_id = timer_id" by (simp add: fun_eq_iff entry_id_def timer_id_def)
  show ?thesis
    using heap_timers.cancel_stops[of ht "retransmit_timer tsx" TIMER_INACTIVE] assms
    by (simp add: stop_retransmit_def stun_ready_def id)
qed

text \<open>A transmission whose message can be sent.\<close>

lemma transmit_ok:
  assumes "stun_ready tsx ht" and "sched ht (retransmit_timer tsx) = None"
    and "timer_id ht (retransmit_timer tsx) = TIMER_INACTIVE" and "require_retransmit tsx"
  defines "d \<equiv> next_retransmit_time tsx"
  shows "\<exists>ht'. tsx_transmit_msg mem_ok now PJ_SUCCESS tsx ht True =
      (PJ_SUCCESS, [Stun_Send (last_pkt tsx)], tsx\<lparr>retransmit_time := d, transmit_count := transmit_count tsx + 1\<rparr>, ht') \<and>
    stun_ready tsx ht' \<and> sched ht' = (sched ht)(retransmit_timer tsx \<mapsto> PJ_TIME_VAL_ADD now d) \<and>
    timer_id ht' = (timer_id ht)(retransmit_timer tsx := TIMER_ACTIVE)"
proof -
  let ?t = "tsx\<lparr>retransmit_time := d\<rparr>"
  have "stun_ready ?t ht" "sched ht (retransmit_timer ?t) = None" using assms by (simp_all add: stun_ready_def)
  from start_retransmit_ok[OF this, of now]
  obtain ht' where "start_retransmit mem_ok now ?t ht = (PJ_SUCCESS, ht')" "stun_ready ?t ht'"
    "sched ht' = (sched ht)(retransmit_timer tsx \<mapsto> PJ_TIME_VAL_ADD now d)"
    "timer_id ht' = (timer_id ht)(retransmit_timer tsx := TIMER_ACTIVE)" by auto
  then show ?thesis using assms(3,4) unfolding d_def by (simp add: tsx_transmit_msg_def stun_ready_def)
qed

lemma fire_again:
  assumes "stun_ready tsx ht" and "sched ht (retransmit_timer tsx) = Some t" and "require_retransmit tsx"
    and "\<not> is_destroying tsx" and "transmit_count tsx < PJ_STUN_MAX_TRANSMIT_COUNT"
  defines "d \<equiv> next_retransmit_time tsx"
  shows "\<exists>ht'. retransmit_timer_callback mem_ok t PJ_SUCCESS tsx (heap_expire ht (retransmit_timer tsx)) =
      ([Stun_Send (last_pkt tsx)], tsx\<lparr>retransmit_time := d, transmit_count := transmit_count tsx + 1\<rparr>, ht') \<and>
    stun_ready tsx ht' \<and> sched ht' = (sched ht)(retransmit_timer tsx \<mapsto> PJ_TIME_VAL_ADD t d)"
proof -
  let ?h = "set_timer_id (heap_expire ht (retransmit_timer tsx)) (retransmit_timer tsx) 0"
  have h: "stun_ready tsx ?h" "sched ?h = (sched ht)(retransmit_timer tsx := None)"
    "timer_id ?h (retransmit_timer tsx) = TIMER_INACTIVE"
    using heap_expire_stops[of ht "retransmit_timer tsx"] assms(1) by (simp_all add: stun_ready_def set_timer_id_keeps)
  obtain ht' where t: "tsx_transmit_msg mem_ok t PJ_SUCCESS tsx ?h True =
      (PJ_SUCCESS, [Stun_Send (last_pkt tsx)], tsx\<lparr>retransmit_time := d, transmit_count := transmit_count tsx + 1\<rparr>, ht')"
    "stun_ready tsx ht'" "sched ht' = (sched ?h)(retransmit_timer tsx \<mapsto> PJ_TIME_VAL_ADD t d)"
    using transmit_ok[OF h(1) _ h(3) assms(3), of t] h(2) unfolding d_def by auto
  then show ?thesis using assms(4,5) h(2) by (simp add: retransmit_timer_callback_def)
qed

section \<open>The schedule of retransmissions\<close>

text \<open>
  The retransmission timer fires exactly when it expires, and sending succeeds: at most \<open>n\<close> firings,
  each with its time in milliseconds and its outputs.
\<close>

fun stun_timeline ::
  "nat \<Rightarrow> pj_stun_client_tsx \<Rightarrow> pj_timer_heap \<Rightarrow> (int \<times> stun_out list) list \<times> pj_stun_client_tsx \<times> pj_timer_heap" where
  "stun_timeline 0 tsx ht = ([], tsx, ht)"
| "stun_timeline (Suc n) tsx ht =
     (case sched ht (retransmit_timer tsx) of
        None \<Rightarrow> ([], tsx, ht)
      | Some t \<Rightarrow>
          (case retransmit_timer_callback mem_ok t PJ_SUCCESS tsx (heap_expire ht (retransmit_timer tsx)) of
             (outs, tsx1, ht1) \<Rightarrow>
               (case stun_timeline n tsx1 ht1 of (evs, tsx2, ht2) \<Rightarrow> ((PJ_TIME_VAL_MSEC t, outs) # evs, tsx2, ht2))))"

definition waiting :: "pj_stun_client_tsx \<Rightarrow> pj_timer_heap \<Rightarrow> nat \<Rightarrow> int \<Rightarrow> bool" where
  "waiting tsx ht c m \<longleftrightarrow> stun_ready tsx ht \<and> (\<exists>t. sched ht (retransmit_timer tsx) = Some t \<and> PJ_TIME_VAL_MSEC t = m) \<and>
     require_retransmit tsx \<and> \<not> is_destroying tsx \<and> \<not> complete tsx \<and> cb_on_complete tsx \<and> transmit_count tsx = c \<and>
     0 < c \<and> rto_msec tsx < 2 ^ 20 \<and> (c < 7 \<longrightarrow> PJ_TIME_VAL_MSEC (retransmit_time tsx) = int (rto_msec tsx) * 2 ^ (c - 1))"

lemma msec_time_msec: "PJ_TIME_VAL_MSEC (msec_time n) = int n"
  by (simp add: PJ_TIME_VAL_MSEC_def msec_time_def zdiv_int zmod_int)

lemma next_delay:
  assumes "waiting tsx ht c m" and "c < 7"
  shows "PJ_TIME_VAL_MSEC (next_retransmit_time tsx) = (if c < 6 then int (rto_msec tsx) * 2 ^ c else 1600)"
proof (cases "c < 6")
  case True
  have c: "transmit_count tsx = c" "0 < c" "PJ_TIME_VAL_MSEC (retransmit_time tsx) = int (rto_msec tsx) * 2 ^ (c - 1)"
    "rto_msec tsx < 2 ^ 20" using assms by (simp_all add: waiting_def)
  have "(2::int) ^ (c - 1) \<le> 2 ^ 4" using True by (intro power_increasing) auto
  then have "int (rto_msec tsx) * 2 ^ (c - 1) \<le> 2 ^ 20 * 2 ^ 4" using c(4) by (intro mult_mono) auto
  then have "u32 (2 * int (u32 (int (rto_msec tsx) * 2 ^ (c - 1)))) = nat (2 * (int (rto_msec tsx) * 2 ^ (c - 1)))"
    by simp
  moreover have "2 * (int (rto_msec tsx) * 2 ^ (c - 1)) = int (rto_msec tsx) * 2 ^ c"
    using c(2) by (cases c) simp_all
  ultimately show ?thesis using True c by (simp add: next_retransmit_time_def msec_time_msec)
next
  case False
  then show ?thesis using assms by (simp add: next_retransmit_time_def msec_time_msec waiting_def)
qed

lemma waiting_fires:
  assumes "waiting tsx ht c m" and "c < 7"
  shows "\<exists>tsx' ht'. stun_timeline (Suc n) tsx ht =
      (case stun_timeline n tsx' ht' of (evs, x) \<Rightarrow> ((m, [Stun_Send (last_pkt tsx)]) # evs, x)) \<and>
    waiting tsx' ht' (c + 1) (m + (if c < 6 then int (rto_msec tsx) * 2 ^ c else 1600)) \<and>
    last_pkt tsx' = last_pkt tsx \<and> rto_msec tsx' = rto_msec tsx"
proof -
  note w = assms(1)[unfolded waiting_def]
  obtain t where t: "sched ht (retransmit_timer tsx) = Some t" "PJ_TIME_VAL_MSEC t = m" using w by blast
  let ?tsx = "tsx\<lparr>retransmit_time := next_retransmit_time tsx, transmit_count := transmit_count tsx + 1\<rparr>"
  obtain ht' where f: "retransmit_timer_callback mem_ok t PJ_SUCCESS tsx (heap_expire ht (retransmit_timer tsx)) =
      ([Stun_Send (last_pkt tsx)], ?tsx, ht')" "stun_ready tsx ht'"
    "sched ht' = (sched ht)(retransmit_timer tsx \<mapsto> PJ_TIME_VAL_ADD t (next_retransmit_time tsx))"
    using fire_again[of tsx ht t] w t assms(2) by auto
  have "waiting ?tsx ht' (c + 1) (m + (if c < 6 then int (rto_msec tsx) * 2 ^ c else 1600))"
    using w f next_delay[OF assms] t(2)
    by (auto simp: waiting_def stun_ready_def)
  moreover have "stun_timeline (Suc n) tsx ht =
      (case stun_timeline n ?tsx ht' of (evs, x) \<Rightarrow> ((m, [Stun_Send (last_pkt tsx)]) # evs, x))"
    using t f(1) by (auto split: prod.splits)
  ultimately show ?thesis by (intro exI[of _ ?tsx] exI[of _ ht']) simp
qed

lemma waiting_times_out:
  assumes "waiting tsx ht 7 m"
  shows "\<exists>tsx' ht'. stun_timeline (Suc (Suc n)) tsx ht = ([(m, [Stun_Complete PJNATH_ESTUNTIMEDOUT None])], tsx', ht') \<and>
    complete tsx' \<and> sched ht' (retransmit_timer tsx') = None"
proof -
  note w = assms[unfolded waiting_def]
  obtain t where t: "sched ht (retransmit_timer tsx) = Some t" "PJ_TIME_VAL_MSEC t = m" using w by blast
  let ?ht = "set_timer_id (heap_expire ht (retransmit_timer tsx)) (retransmit_timer tsx) 0"
  have s: "sched ?ht (retransmit_timer tsx) = None"
    using heap_expire_stops[of ht "retransmit_timer tsx"] w by (simp add: set_timer_id_keeps stun_ready_def)
  have "retransmit_timer_callback mem_ok t PJ_SUCCESS tsx (heap_expire ht (retransmit_timer tsx)) =
      ([Stun_Complete PJNATH_ESTUNTIMEDOUT None], tsx\<lparr>complete := True\<rparr>, ?ht)"
    using w by (simp add: retransmit_timer_callback_def complete_with_def)
  then show ?thesis using t s by simp
qed

lemma waiting_run:
  "waiting tsx ht c m \<Longrightarrow> c \<le> 6 \<Longrightarrow> \<exists>tsx2 ht2. stun_timeline (Suc (Suc (Suc (6 - c)))) tsx ht =
      (map (\<lambda>j. (m + int (rto_msec tsx) * (2 ^ j - 2 ^ c), [Stun_Send (last_pkt tsx)])) [c..<7] @
       [(m + int (rto_msec tsx) * (2 ^ 6 - 2 ^ c) + 1600, [Stun_Complete PJNATH_ESTUNTIMEDOUT None])], tsx2, ht2) \<and>
    complete tsx2 \<and> sched ht2 (retransmit_timer tsx2) = None"
proof (induction "6 - c" arbitrary: tsx ht c m)
  case 0
  have c: "c = 6" using 0 by simp
  obtain a h where s: "stun_timeline (Suc (Suc (Suc 0))) tsx ht = (case stun_timeline (Suc (Suc 0)) a h of
      (evs, x) \<Rightarrow> ((m, [Stun_Send (last_pkt tsx)]) # evs, x))" "waiting a h 7 (m + 1600)"
    using waiting_fires[OF 0(2), of "Suc (Suc 0)"] c by auto
  obtain b k where "stun_timeline (Suc (Suc 0)) a h = ([(m + 1600, [Stun_Complete PJNATH_ESTUNTIMEDOUT None])], b, k)"
    "complete b \<and> sched k (retransmit_timer b) = None"
    using waiting_times_out[OF s(2), of 0] by blast
  then show ?case using s(1) c by simp
next
  case (Suc d)
  have c: "c < 6" "d = 6 - (c + 1)" "6 - c = Suc (6 - (c + 1))" "[c..<7] = c # [c + 1..<7]"
    using Suc.hyps(2) by (simp_all add: upt_conv_Cons)
  let ?n = "Suc (Suc (Suc (6 - (c + 1))))"
  obtain a h where s: "stun_timeline (Suc ?n) tsx ht = (case stun_timeline ?n a h of
      (evs, x) \<Rightarrow> ((m, [Stun_Send (last_pkt tsx)]) # evs, x))" "waiting a h (c + 1) (m + int (rto_msec tsx) * 2 ^ c)"
    "last_pkt a = last_pkt tsx" "rto_msec a = rto_msec tsx"
    using waiting_fires[OF Suc.prems(1), of ?n] c(1) by auto
  have "c + 1 \<le> 6" using c(1) by simp
  from Suc.hyps(1)[OF c(2) s(2) this] s(1,3,4) show ?case
    unfolding c(3,4) by (auto simp: algebra_simps)
qed

section \<open>Creation\<close>

text \<open>Setting up an entry that is not scheduled.\<close>

lemma new_entry_keeps:
  assumes "heap_inv ht" and "sched ht p = None" and "te_timer_id e < 1"
  defines "h \<equiv> ht\<lparr>entries := (entries ht)(p := e)\<rparr>"
  shows "heap_inv h" and "sched h = sched ht" and "has_cb h = (has_cb ht)(p := te_cb e \<noteq> None)"
    and "timer_id h = (timer_id ht)(p := te_id e)"
proof -
  have old: "te_timer_id (entries ht p) < 1" using assms(2) by (simp add: sched_def split: if_splits)
  have flds: "cur_size h = cur_size ht" "max_size h = max_size ht" "heap_arr h = heap_arr ht"
    "timer_ids h = timer_ids ht" "timer_dups h = timer_dups ht" "timer_ids_freelist h = timer_ids_freelist ht"
    by (simp_all add: h_def)
  have L: "live h = live ht" by (simp add: live_def flds)
  have tid: "te_timer_id (entries h x) = (if x = p then te_timer_id e else te_timer_id (entries ht x))" for x
    by (simp add: h_def)
  have pos: "1 \<le> int d" if "d \<in> live ht" for d
    using assms(1) that by (fastforce simp: heap_inv_def array_inv_def)
  have "entry_inv h"
    using assms(1,3) old pos unfolding heap_inv_def entry_inv_def L tid flds by fastforce
  then show "heap_inv h"
    using assms(1) unfolding heap_inv_def array_inv_def frees_def L flds by simp
  show "sched h = sched ht" using assms(2,3) old by (auto simp: fun_eq_iff sched_def tid flds)
  show "has_cb h = (has_cb ht)(p := te_cb e \<noteq> None)" by (auto simp: fun_eq_iff has_cb_def h_def)
  show "timer_id h = (timer_id ht)(p := te_id e)" by (auto simp: fun_eq_iff timer_id_def h_def)
qed

lemma create_ready:
  assumes "heap_inv ht" and "sched ht rt = None" and "sched ht dt = None" and "rt \<noteq> dt"
    and "pj_stun_client_tsx_create rto lock on_complete on_destroy self rt dt ht = (tsx, ht')"
  shows "stun_ready tsx ht' \<and> sched ht' = sched ht \<and> timer_id ht' rt = 0 \<and> timer_id ht' dt = 0"
proof -
  let ?e = "\<lambda>c. \<lparr>te_id = 0, te_user_data = self, te_cb = Some c, te_timer_id = 0\<rparr>"
  let ?h = "ht\<lparr>entries := (entries ht)(rt := ?e 1)\<rparr>"
  have e: "ht' = ?h\<lparr>entries := (entries ?h)(dt := ?e 2)\<rparr>" "retransmit_timer tsx = rt" "destroy_timer tsx = dt"
    using assms(5) by (auto simp: pj_stun_client_tsx_create_def)
  note A = new_entry_keeps[OF assms(1,2), of "?e 1"]
  have s: "sched ?h dt = None" using A(2) assms(3) by simp
  have h: "heap_inv ?h" using A(1) by simp
  note B = new_entry_keeps[OF h s, of "?e 2", folded e(1)]
  show ?thesis using A B assms(4) e by (simp add: stun_ready_def)
qed

section \<open>Properties\<close>

definition demo_tsx :: "pj_stun_client_tsx \<times> pj_timer_heap" where
  "demo_tsx = pj_stun_client_tsx_create 100 (Some 9) True True 50 7 8 small_heap"

lemma demo_fields:
  "retransmit_timer (fst demo_tsx) = 7" "destroy_timer (fst demo_tsx) = 8" "transmit_count (fst demo_tsx) = 0"
  "\<not> complete (fst demo_tsx)" "\<not> is_destroying (fst demo_tsx)" "cb_on_complete (fst demo_tsx)"
  "cb_on_destroy (fst demo_tsx)" "rto_msec (fst demo_tsx) = 100"
  by (simp_all add: demo_tsx_def pj_stun_client_tsx_create_def Let_def)

lemma demo_ready:
  "stun_ready (fst demo_tsx) (snd demo_tsx)" "sched (snd demo_tsx) = Map.empty" "timer_id (snd demo_tsx) 7 = 0"
  using create_ready[OF small_heap_inv(1), of 7 8 100 "Some 9" True True 50 "fst demo_tsx" "snd demo_tsx"] small_heap_inv(2)
  by (simp_all add: demo_tsx_def)

text \<open>C9: a request is sent at once and then, while no response comes, again after 1, 3, 7, 15, 31 and 63
  times the round-trip estimate, seven times in all; 1600 ms after the last one the transaction
  reports \<^verbatim>\<open>PJNATH_ESTUNTIMEDOUT\<close>, and no timer is left. The times are those of the timer heap.\<close>

theorem stun_retransmission_schedule:
  assumes "stun_ready tsx ht" and "sched ht (retransmit_timer tsx) = None"
    and "timer_id ht (retransmit_timer tsx) = TIMER_INACTIVE" and "transmit_count tsx = 0"
    and "\<not> complete tsx" and "\<not> is_destroying tsx" and "cb_on_complete tsx"
    and "rto_msec tsx < 2 ^ 20" and "pkt \<noteq> []"
  shows "\<exists>tsx1 ht1 tsx2 ht2.
    pj_stun_client_tsx_send_msg mem_ok now PJ_SUCCESS tsx ht True pkt = (PJ_SUCCESS, [Stun_Send pkt], tsx1, ht1) \<and>
    stun_timeline 8 tsx1 ht1 =
      (map (\<lambda>k. (PJ_TIME_VAL_MSEC now + int (rto_msec tsx) * k, [Stun_Send pkt])) [1, 3, 7, 15, 31, 63] @
       [(PJ_TIME_VAL_MSEC now + int (rto_msec tsx) * 63 + 1600, [Stun_Complete PJNATH_ESTUNTIMEDOUT None])], tsx2, ht2) \<and>
    complete tsx2 \<and> sched ht2 (retransmit_timer tsx2) = None"
proof -
  let ?t = "tsx\<lparr>last_pkt := pkt, require_retransmit := True\<rparr>"
  let ?t1 = "?t\<lparr>retransmit_time := Time_Val 0 (int (rto_msec tsx)), transmit_count := 1\<rparr>"
  let ?r = "int (rto_msec tsx)" and ?m = "PJ_TIME_VAL_MSEC now"
  have d: "next_retransmit_time ?t = Time_Val 0 ?r" using assms(4) by (simp add: next_retransmit_time_def)
  have "stun_ready ?t ht" using assms(1) by (simp add: stun_ready_def)
  from transmit_ok[OF this, of now] obtain ht1 where t: "tsx_transmit_msg mem_ok now PJ_SUCCESS ?t ht True = (PJ_SUCCESS, [Stun_Send pkt], ?t1, ht1)"
    "stun_ready ?t ht1" "sched ht1 = (sched ht)(retransmit_timer tsx \<mapsto> PJ_TIME_VAL_ADD now (Time_Val 0 ?r))"
    using assms(2,3,4) d by auto
  have send: "pj_stun_client_tsx_send_msg mem_ok now PJ_SUCCESS tsx ht True pkt = (PJ_SUCCESS, [Stun_Send pkt], ?t1, ht1)"
    using assms(3,6,9) t(1) by (simp add: pj_stun_client_tsx_send_msg_def)
  have w1: "waiting ?t1 ht1 1 (?m + ?r)"
    using t assms by (auto simp: waiting_def stun_ready_def PJ_TIME_VAL_MSEC_def[of "Time_Val _ _"])
  have n: "(8::nat) = Suc (Suc (Suc (6 - 1)))" and l: "[1..<7] = [1, 2, 3, 4, 5, 6::nat]" by (simp_all add: upt_rec)
  have p: "rto_msec ?t1 = rto_msec tsx" "last_pkt ?t1 = pkt" by simp_all
  show ?thesis
    using send waiting_run[OF w1, unfolded p] unfolding n[symmetric] l
    by (simp add: algebra_simps)
qed

theorem stun_retransmission_schedule_witness:
  "\<exists>tsx1 ht1 tsx2 ht2.
    pj_stun_client_tsx_send_msg mem_ok (Time_Val 2 0) PJ_SUCCESS (fst demo_tsx) (snd demo_tsx) True [0, 1] =
      (PJ_SUCCESS, [Stun_Send [0, 1]], tsx1, ht1) \<and>
    stun_timeline 8 tsx1 ht1 =
      ([(2100, [Stun_Send [0, 1]]), (2300, [Stun_Send [0, 1]]), (2700, [Stun_Send [0, 1]]), (3500, [Stun_Send [0, 1]]),
        (5100, [Stun_Send [0, 1]]), (8300, [Stun_Send [0, 1]]), (9900, [Stun_Complete PJNATH_ESTUNTIMEDOUT None])], tsx2, ht2) \<and>
    complete tsx2 \<and> sched ht2 (retransmit_timer tsx2) = None"
  using stun_retransmission_schedule[OF demo_ready(1), of "[0, 1]" "Time_Val 2 0"] demo_ready(2,3) demo_fields
  by (simp add: PJ_TIME_VAL_MSEC_def)

text \<open>C14: whatever the sequence of requests, firings, responses, retransmissions, stops and destructions,
  and whatever the environment answers, a transaction reports completion at most once, and never again
  after it is complete.\<close>

theorem stun_completes_once:
  "completes (fst (stun_exec xs tsx ht)) \<le> of_bool (\<not> complete tsx)"
proof -
  obtain outs tsx' ht' where e: "stun_exec xs tsx ht = (outs, tsx', ht')" by (metis prod_cases3)
  show ?thesis using exec_progress[OF e] e by (cases "complete tsx"; cases "complete tsx'") (auto simp: progress_def)
qed

text \<open>A response stops the retransmissions: its timer is out of the heap, whatever its state was. A
  success, or an error above 200, completes the transaction with the status of the response.\<close>

theorem stun_response_completes:
  assumes "stun_ready tsx ht" and "\<not> complete tsx" and "cb_on_complete tsx"
    and "PJ_STUN_IS_SUCCESS_RESPONSE (stun_type msg) \<or> PJ_STUN_IS_ERROR_RESPONSE (stun_type msg)"
  shows "\<exists>outs tsx' ht'. pj_stun_client_tsx_on_rx_msg tsx ht msg = (PJ_SUCCESS, outs, tsx', ht') \<and>
    sched ht' = (sched ht)(retransmit_timer tsx := None) \<and> stun_ready tsx' ht' \<and>
    (case stun_err_code msg of
       None \<Rightarrow> outs = [Stun_Complete PJ_SUCCESS (Some msg)] \<and> complete tsx'
     | Some code \<Rightarrow> if code \<le> 200 then outs = [] \<and> \<not> complete tsx'
                    else outs = [Stun_Complete (PJ_STATUS_FROM_STUN_CODE code) (Some msg)] \<and> complete tsx')"
  using stop_retransmit_ok[OF assms(1)] assms(2-4)
  by (auto simp: pj_stun_client_tsx_on_rx_msg_def Let_def complete_with_def stun_ready_def split: option.splits)

theorem stun_response_completes_witness:
  "\<exists>outs tsx' ht'. pj_stun_client_tsx_on_rx_msg (fst demo_tsx) (snd demo_tsx) \<lparr>stun_type = 0x0111, stun_err_code = Some 401\<rparr> =
      (PJ_SUCCESS, outs, tsx', ht') \<and> sched ht' = Map.empty \<and>
    outs = [Stun_Complete 370401 (Some \<lparr>stun_type = 0x0111, stun_err_code = Some 401\<rparr>)] \<and> complete tsx'"
proof -
  have "PJ_STUN_IS_ERROR_RESPONSE 0x0111" by (simp add: PJ_STUN_IS_ERROR_RESPONSE_def)
  then show ?thesis
    using stun_response_completes[OF demo_ready(1) demo_fields(4,6), of "\<lparr>stun_type = 0x0111, stun_err_code = Some 401\<rparr>"]
      demo_ready(2) by (auto simp: PJ_STATUS_FROM_STUN_CODE_def fun_eq_iff)
qed

text \<open>Scheduling the destruction of a transaction stops its retransmissions and starts its destroy
  timer; from then on, in every sequence of operations, nothing is sent and no completion is reported.\<close>

theorem stun_destroy_silences:
  assumes "stun_ready tsx ht" and "cb_on_destroy tsx" and "\<not> is_destroying tsx"
  shows "\<exists>tsx' ht'. pj_stun_client_tsx_schedule_destroy mem_ok now tsx ht delay = (PJ_SUCCESS, tsx', ht') \<and>
    sched ht' = (sched ht)(retransmit_timer tsx := None, destroy_timer tsx \<mapsto> PJ_TIME_VAL_ADD now delay) \<and>
    completes (fst (stun_exec xs tsx' ht')) = 0 \<and> Stun_Send p \<notin> set (fst (stun_exec xs tsx' ht'))"
proof -
  let ?t = "tsx\<lparr>is_destroying := True\<rparr>"
  let ?h1 = "snd (pj_timer_heap_cancel_if_active ht (destroy_timer tsx) TIMER_INACTIVE)"
  let ?h2 = "stop_retransmit ?t ?h1"
  have h1: "stun_ready ?t ?h1" "sched ?h1 = (sched ht)(destroy_timer tsx := None)"
    using heap_timers.cancel_stops[of ht "destroy_timer tsx" TIMER_INACTIVE] assms(1) by (simp_all add: stun_ready_def)
  have h2: "stun_ready ?t ?h2" "sched ?h2 = (sched ht)(destroy_timer tsx := None, retransmit_timer tsx := None)"
    using stop_retransmit_ok[OF h1(1)] h1(2) by simp_all
  then have "heap_inv ?h2" "has_cb ?h2 (destroy_timer tsx)" "sched ?h2 (destroy_timer tsx) = None"
    by (simp_all add: stun_ready_def)
  from heap_timers.schedule_idle[OF this, of "tsx_grp_lock tsx" now delay TIMER_ACTIVE]
  obtain ht' where s: "pj_timer_heap_schedule_w_grp_lock mem_ok now ?h2 (destroy_timer tsx) delay TIMER_ACTIVE (tsx_grp_lock tsx) =
      (PJ_SUCCESS, ht')" "sched ht' = (sched ?h2)(destroy_timer tsx \<mapsto> PJ_TIME_VAL_ADD now delay)"
    by (auto simp: heap_schedule_def)
  let ?t' = "?t\<lparr>cb_on_complete := False\<rparr>"
  have d: "pj_stun_client_tsx_schedule_destroy mem_ok now tsx ht delay = (PJ_SUCCESS, ?t', ht')"
    using s(1) assms(2,3) by (simp add: pj_stun_client_tsx_schedule_destroy_def Let_def)
  have e: "sched ht' = (sched ht)(retransmit_timer tsx := None, destroy_timer tsx \<mapsto> PJ_TIME_VAL_ADD now delay)"
    using s(2) h2(2) assms(1) by (auto simp: stun_ready_def fun_eq_iff)
  obtain outs tsx2 ht2 where x: "stun_exec xs ?t' ht' = (outs, tsx2, ht2)" by (metis prod_cases3)
  show ?thesis using d e x exec_progress[OF x] by (auto simp: progress_def)
qed

theorem stun_destroy_silences_witness:
  "\<exists>tsx' ht'. pj_stun_client_tsx_schedule_destroy mem_ok (Time_Val 1 0) (fst demo_tsx) (snd demo_tsx) (Time_Val 0 500) = (PJ_SUCCESS, tsx', ht') \<and>
    sched ht' = (sched (snd demo_tsx))(7 := None, 8 \<mapsto> PJ_TIME_VAL_ADD (Time_Val 1 0) (Time_Val 0 500)) \<and>
    completes (fst (stun_exec [((mem_ok, Time_Val 1 0, 0), Op_Send True [1])] tsx' ht')) = 0 \<and>
    Stun_Send [1] \<notin> set (fst (stun_exec [((mem_ok, Time_Val 1 0, 0), Op_Send True [1])] tsx' ht'))"
  using stun_destroy_silences[OF demo_ready(1) demo_fields(7,5)] unfolding demo_fields(1,2) by blast

text \<open>C36: when the application destroys the transaction inside \<^verbatim>\<open>on_send_msg\<close> and says so with
  \<^verbatim>\<open>PJNATH_ESTUNDESTROYED\<close>, as the interface requires, \<^verbatim>\<open>tsx_transmit_msg\<close> leaves the object alone, but
  the retransmission callback that called it goes on to use it: it marks the transaction complete and
  calls its completion callback.\<close>

theorem stun_destroyed_still_reports:
  assumes "stun_ready tsx ht" and "sched ht (retransmit_timer tsx) = Some t" and "require_retransmit tsx"
    and "\<not> is_destroying tsx" and "\<not> complete tsx" and "cb_on_complete tsx"
    and "transmit_count tsx < PJ_STUN_MAX_TRANSMIT_COUNT"
  shows "\<exists>tsx' ht'. retransmit_timer_callback mem_ok t PJNATH_ESTUNDESTROYED tsx (heap_expire ht (retransmit_timer tsx)) =
      ([Stun_Send (last_pkt tsx), Stun_Complete PJNATH_ESTUNDESTROYED None], tsx', ht') \<and> complete tsx' \<and>
    sched ht' (retransmit_timer tsx) \<noteq> None"
proof -
  let ?h = "set_timer_id (heap_expire ht (retransmit_timer tsx)) (retransmit_timer tsx) 0"
  let ?t = "tsx\<lparr>retransmit_time := next_retransmit_time tsx\<rparr>"
  have h: "stun_ready ?t ?h" "sched ?h (retransmit_timer ?t) = None" "timer_id ?h (retransmit_timer tsx) = 0"
    using heap_expire_stops[of ht "retransmit_timer tsx"] assms(1) by (simp_all add: stun_ready_def set_timer_id_keeps)
  obtain ht' where "start_retransmit mem_ok t ?t ?h = (PJ_SUCCESS, ht')" "sched ht' (retransmit_timer tsx) \<noteq> None"
    using start_retransmit_ok[OF h(1,2), of t] by auto
  then show ?thesis
    using assms(3-7) h(3) by (simp add: retransmit_timer_callback_def tsx_transmit_msg_def complete_with_def set_timer_id_keeps)
qed

theorem stun_destroyed_still_reports_witness:
  "\<exists>tsx ht t tsx' ht'. stun_ready tsx ht \<and> sched ht (retransmit_timer tsx) = Some t \<and>
    retransmit_timer_callback mem_ok t PJNATH_ESTUNDESTROYED tsx (heap_expire ht (retransmit_timer tsx)) =
      ([Stun_Send [5], Stun_Complete PJNATH_ESTUNDESTROYED None], tsx', ht') \<and> complete tsx' \<and>
    sched ht' (retransmit_timer tsx) \<noteq> None"
proof -
  let ?t = "(fst demo_tsx)\<lparr>require_retransmit := True, last_pkt := [5]\<rparr>"
  have r: "stun_ready ?t (snd demo_tsx)" using demo_ready(1) by (simp add: stun_ready_def)
  let ?t1 = "?t\<lparr>retransmit_time := Time_Val 0 100, transmit_count := 1\<rparr>"
  have "\<exists>tsx ht. stun_ready tsx ht \<and> sched ht (retransmit_timer tsx) = Some (PJ_TIME_VAL_ADD (Time_Val 2 0) (Time_Val 0 100)) \<and>
    require_retransmit tsx \<and> \<not> is_destroying tsx \<and> \<not> complete tsx \<and> cb_on_complete tsx \<and> transmit_count tsx = 1 \<and> last_pkt tsx = [5]"
    using transmit_ok[OF r, of "Time_Val 2 0"] demo_ready(2,3) demo_fields
    by (intro exI[of _ ?t1]) (auto simp: next_retransmit_time_def stun_ready_def)
  then obtain tsx ht where s: "stun_ready tsx ht" "sched ht (retransmit_timer tsx) = Some (PJ_TIME_VAL_ADD (Time_Val 2 0) (Time_Val 0 100))"
    "require_retransmit tsx" "\<not> is_destroying tsx" "\<not> complete tsx" "cb_on_complete tsx" "transmit_count tsx = 1" "last_pkt tsx = [5]"
    by blast
  then show ?thesis using stun_destroyed_still_reports[OF s(1-6)] by fastforce
qed

end
