(* ===== verification/Sip_Tsx.thy ===== *)
theory Sip_Tsx
  imports Pj_Time
begin

text \<open>
  The SIP transaction of \<^verbatim>\<open>pjsip/src/pjsip/sip_transaction.c\<close>: its state, timers, transport, the
  sending of messages with the callbacks of the transport layer, and the state handlers. Locks are
  the sequential boundary of each operation; \<^verbatim>\<open>pj_assert\<close> is off, as in a release build.

  A transaction carries its outputs in the field \<open>trace\<close>: what it hands to the transport layer, and
  the callbacks of its user, which is taken to act after the operation returns. What the transport
  layer answers is an argument of the operations: the status of \<^verbatim>\<open>pjsip_transport_send\<close> and of the
  endpoint's send function, and the calls of \<^verbatim>\<open>send_msg_callback\<close> that it makes before it returns,
  each of which may in turn send (\<open>send_env\<close>, a finite tree). Timers are cells of the transaction,
  scheduled with memory at hand; the expiry time of a timer is that of the timer heap. Transports and
  messages are pointers, that is numbers; a reference that is handed over to a send function is no
  longer counted in \<open>tx_refs\<close>. Not kept: the reason phrase, the destination addresses (only their
  length, that the code resets), and the transport selector.
\<close>

section \<open>Data\<close>

datatype pjsip_role_e = PJSIP_ROLE_UAC | PJSIP_ROLE_UAS

datatype pjsip_method_e = PJSIP_INVITE_METHOD | PJSIP_CANCEL_METHOD | PJSIP_ACK_METHOD | PJSIP_BYE_METHOD
  | PJSIP_REGISTER_METHOD | PJSIP_OPTIONS_METHOD | PJSIP_OTHER_METHOD

record pjsip_method =
  meth_id :: pjsip_method_e
  meth_name :: "byte list"

text \<open>A message, as far as transactions look: a response has a code, and the method of its CSeq.\<close>

datatype pjsip_msg = Request_Msg pjsip_method | Response_Msg int pjsip_method

record pjsip_tx_data =
  td_ptr :: nat
  td_msg :: pjsip_msg

record pjsip_rx_data =
  rx_msg :: pjsip_msg
  rx_branch :: "byte list"
  rx_via_host :: "byte list"
  rx_via_port :: nat
  rx_cseq :: nat
  rx_cseq_method :: pjsip_method
  rx_from_tag :: "byte list"
  rx_to_tag :: "byte list"
  rx_call_id :: "byte list"

datatype pjsip_tsx_state_e =
    PJSIP_TSX_STATE_NULL | PJSIP_TSX_STATE_CALLING | PJSIP_TSX_STATE_TRYING | PJSIP_TSX_STATE_PROCEEDING
  | PJSIP_TSX_STATE_COMPLETED | PJSIP_TSX_STATE_CONFIRMED | PJSIP_TSX_STATE_TERMINATED | PJSIP_TSX_STATE_DESTROYED

text \<open>The states are compared as the integers of the enumeration.\<close>

primrec state_no :: "pjsip_tsx_state_e \<Rightarrow> nat" where
  "state_no PJSIP_TSX_STATE_NULL = 0"
| "state_no PJSIP_TSX_STATE_CALLING = 1"
| "state_no PJSIP_TSX_STATE_TRYING = 2"
| "state_no PJSIP_TSX_STATE_PROCEEDING = 3"
| "state_no PJSIP_TSX_STATE_COMPLETED = 4"
| "state_no PJSIP_TSX_STATE_CONFIRMED = 5"
| "state_no PJSIP_TSX_STATE_TERMINATED = 6"
| "state_no PJSIP_TSX_STATE_DESTROYED = 7"

lemma state_no_inj: "state_no s = state_no s' \<Longrightarrow> s = s'"
  by (cases s; cases s'; simp)

instantiation pjsip_tsx_state_e :: linorder
begin

definition less_eq_pjsip_tsx_state_e :: "pjsip_tsx_state_e \<Rightarrow> pjsip_tsx_state_e \<Rightarrow> bool" where
  "less_eq_pjsip_tsx_state_e a b \<longleftrightarrow> state_no a \<le> state_no b"

definition less_pjsip_tsx_state_e :: "pjsip_tsx_state_e \<Rightarrow> pjsip_tsx_state_e \<Rightarrow> bool" where
  "less_pjsip_tsx_state_e a b \<longleftrightarrow> state_no a < state_no b"

instance
  by intro_classes (auto simp: less_eq_pjsip_tsx_state_e_def less_pjsip_tsx_state_e_def intro: state_no_inj)

end

lemmas state_order = less_eq_pjsip_tsx_state_e_def less_pjsip_tsx_state_e_def

datatype tsx_flag = TSX_HAS_PENDING_TRANSPORT | TSX_HAS_PENDING_RESCHED | TSX_HAS_PENDING_SEND
  | TSX_HAS_PENDING_DESTROY | TSX_HAS_RESOLVED_SERVER

datatype pjsip_event_id_e = PJSIP_EVENT_UNKNOWN | PJSIP_EVENT_TIMER | PJSIP_EVENT_TX_MSG | PJSIP_EVENT_RX_MSG
  | PJSIP_EVENT_TRANSPORT_ERROR | PJSIP_EVENT_TSX_STATE | PJSIP_EVENT_USER

datatype tsx_timer = Retransmit_Timer | Timeout_Timer

datatype pjsip_event = Timer_Event tsx_timer | Tx_Event pjsip_tx_data | Rx_Event pjsip_rx_data

abbreviation (input) "TIMER_INACTIVE \<equiv> (0 :: int)"
abbreviation (input) "RETRANSMIT_TIMER \<equiv> (1 :: int)"
abbreviation (input) "TIMEOUT_TIMER \<equiv> (2 :: int)"
abbreviation (input) "TRANSPORT_ERR_TIMER \<equiv> (3 :: int)"
abbreviation (input) "TRANSPORT_DISC_TIMER \<equiv> (4 :: int)"
abbreviation (input) "TERMINATE_TIMER \<equiv> (5 :: int)"

abbreviation (input) "PJSIP_SC_REQUEST_TIMEOUT \<equiv> (408 :: int)"
abbreviation (input) "PJSIP_SC_CALL_TSX_DOES_NOT_EXIST \<equiv> (481 :: int)"
abbreviation (input) "PJSIP_SC_BAD_GATEWAY \<equiv> (502 :: int)"
abbreviation (input) "PJSIP_SC_SERVICE_UNAVAILABLE \<equiv> (503 :: int)"
abbreviation (input) "PJSIP_SC_TSX_TIMEOUT \<equiv> (408 :: int)"
abbreviation (input) "PJSIP_SC_TSX_TRANSPORT_ERROR \<equiv> (503 :: int)"

abbreviation (input) "PJSIP_T1_TIMEOUT \<equiv> (500 :: nat)"
abbreviation (input) "PJSIP_T2_TIMEOUT \<equiv> (4000 :: nat)"
abbreviation (input) "PJSIP_T4_TIMEOUT \<equiv> (5000 :: nat)"
abbreviation (input) "PJSIP_TD_TIMEOUT \<equiv> (32000 :: nat)"
abbreviation (input) "PJSIP_TSX_1XX_RETRANS_DELAY \<equiv> (60 :: nat)"

text \<open>A timer entry: its identifier, and when it expires, if it is scheduled.\<close>

record timer_cell =
  tm_id :: int
  tm_expiry :: "pj_time_val option"

text \<open>The user of a transaction: which of the two callbacks it has.\<close>

record tsx_module =
  has_on_rx_response :: bool
  has_on_tsx_state :: bool

datatype tsx_out =
    Transport_Send nat pjsip_tx_data
  | Send_Request pjsip_tx_data
  | Send_Response pjsip_tx_data
  | On_Rx_Response pjsip_rx_data
  | On_Tsx_State pjsip_tsx_state_e pjsip_tsx_state_e pjsip_event_id_e
  | Unregister

record pjsip_transaction =
  tsx_user :: "tsx_module option"
  terminating :: bool
  grp_ref :: int
  role :: pjsip_role_e
  tsx_method :: pjsip_method
  tsx_cseq :: nat
  transaction_key :: "byte list"
  transaction_key2 :: "byte list"
  branch :: "byte list"
  status_code :: int
  state :: pjsip_tsx_state_e
  handle_200resp :: bool
  transport :: "nat option"
  is_reliable :: bool
  addr_len :: nat
  res_transport :: "nat option"
  transport_flag :: "tsx_flag set"
  transport_err :: pj_status_t
  pending_tx :: "nat option"
  last_tx :: "pjsip_tx_data option"
  retransmit_count :: nat
  retransmit_timer :: timer_cell
  timeout_timer :: timer_cell
  tp_refs :: "nat \<Rightarrow> int"
  tx_refs :: "nat \<Rightarrow> int"
  tx_attached :: "nat \<Rightarrow> bool"
  trace :: "tsx_out list"

text \<open>The timer values of the layer, and the settings of \<^verbatim>\<open>pjsip_cfg()->tsx\<close>.\<close>

record tsx_cfg =
  t1_timer_val :: pj_time_val
  t2_timer_val :: pj_time_val
  t4_timer_val :: pj_time_val
  td_timer_val :: pj_time_val
  timeout_timer_val :: pj_time_val
  cfg_t1 :: nat
  cfg_t2 :: nat
  cfg_t4 :: nat
  cfg_td :: nat
  max_retrans_count :: int

text \<open>
  What an operation finds outside: the settings, the time, which transports are reliable and which
  are shut down, which messages are still being sent, whether the layer is unloaded, and what
  \<^verbatim>\<open>pjsip_endpt_create_ack\<close> answers.
\<close>

record tsx_env =
  te_cfg :: tsx_cfg
  te_now :: pj_time_val
  te_reliable :: "nat \<Rightarrow> bool"
  te_down :: "nat \<Rightarrow> bool"
  te_pending :: "nat \<Rightarrow> bool"
  te_unloaded :: bool
  te_ack :: "pj_status_t + pjsip_tx_data"

text \<open>
  The answers to one attempt to send: of \<^verbatim>\<open>pjsip_transport_send\<close>, of the endpoint, and the callbacks
  that come before the endpoint returns: the result, the transport and the length of the address used,
  \<^verbatim>\<open>*cont\<close>, and the answers should the callback send again.
\<close>

datatype send_env = Send_Env pj_status_t pj_status_t "send_call list"
  and send_call = Send_Call int "nat option" nat bool send_env

section \<open>A new transaction\<close>

text \<open>\<open>grp\<close> is the reference count of the group lock that is given; \<open>None\<close> creates one.\<close>

definition tsx_create :: "tsx_module option \<Rightarrow> int option \<Rightarrow> pjsip_transaction" where
  "tsx_create user grp =
     \<lparr>tsx_user = user, terminating = False, grp_ref = (case grp of None \<Rightarrow> 1 | Some n \<Rightarrow> n + 1),
      role = PJSIP_ROLE_UAC, tsx_method = \<lparr>meth_id = PJSIP_INVITE_METHOD, meth_name = []\<rparr>, tsx_cseq = 0,
      transaction_key = [], transaction_key2 = [], branch = [], status_code = 0, state = PJSIP_TSX_STATE_NULL,
      handle_200resp = True, transport = None, is_reliable = False, addr_len = 0, res_transport = None,
      transport_flag = {}, transport_err = 0, pending_tx = None, last_tx = None, retransmit_count = 0,
      retransmit_timer = \<lparr>tm_id = TIMER_INACTIVE, tm_expiry = None\<rparr>,
      timeout_timer = \<lparr>tm_id = TIMER_INACTIVE, tm_expiry = None\<rparr>,
      tp_refs = (\<lambda>_. 0), tx_refs = (\<lambda>_. 0), tx_attached = (\<lambda>_. False), trace = []\<rparr>"

section \<open>Settings\<close>

definition msec_time :: "nat \<Rightarrow> pj_time_val" where
  "msec_time n = Time_Val (int (n div 1000)) (int (n mod 1000))"

definition default_cfg :: tsx_cfg where
  "default_cfg =
     \<lparr>t1_timer_val = msec_time PJSIP_T1_TIMEOUT, t2_timer_val = msec_time PJSIP_T2_TIMEOUT,
      t4_timer_val = msec_time PJSIP_T4_TIMEOUT, td_timer_val = msec_time PJSIP_TD_TIMEOUT,
      timeout_timer_val = msec_time (64 * PJSIP_T1_TIMEOUT),
      cfg_t1 = PJSIP_T1_TIMEOUT, cfg_t2 = PJSIP_T2_TIMEOUT, cfg_t4 = PJSIP_T4_TIMEOUT, cfg_td = PJSIP_TD_TIMEOUT,
      max_retrans_count = -1\<rparr>"

definition pjsip_tsx_set_timers :: "tsx_cfg \<Rightarrow> nat \<Rightarrow> nat \<Rightarrow> nat \<Rightarrow> nat \<Rightarrow> tsx_cfg" where
  "pjsip_tsx_set_timers c t1 t2 t4 td =
     (let c1 = (if t1 \<noteq> 0 then c\<lparr>t1_timer_val := msec_time t1, cfg_t1 := t1\<rparr> else c);
          c2 = (if t2 \<noteq> 0 then c1\<lparr>t2_timer_val := msec_time t2, cfg_t2 := t2\<rparr> else c1);
          c3 = (if t4 \<noteq> 0 then c2\<lparr>t4_timer_val := msec_time t4, cfg_t4 := t4\<rparr> else c2)
      in if td \<noteq> 0 then c3\<lparr>td_timer_val := msec_time td, timeout_timer_val := msec_time td, cfg_td := td\<rparr> else c3)"

definition pjsip_tsx_initialize_timer_values :: "tsx_cfg \<Rightarrow> tsx_cfg" where
  "pjsip_tsx_initialize_timer_values c =
     c\<lparr>t1_timer_val := msec_time (cfg_t1 c), t2_timer_val := msec_time (cfg_t2 c), t4_timer_val := msec_time (cfg_t4 c),
       td_timer_val := msec_time (cfg_td c), timeout_timer_val := msec_time (cfg_td c)\<rparr>"

definition pjsip_tsx_set_max_retransmit_count :: "tsx_cfg \<Rightarrow> int \<Rightarrow> tsx_cfg" where
  "pjsip_tsx_set_max_retransmit_count c mx = c\<lparr>max_retrans_count := mx\<rparr>"

section \<open>Timers\<close>

definition tsx_cell :: "pjsip_transaction \<Rightarrow> tsx_timer \<Rightarrow> timer_cell" where
  "tsx_cell tsx e = (case e of Retransmit_Timer \<Rightarrow> retransmit_timer tsx | Timeout_Timer \<Rightarrow> timeout_timer tsx)"

definition set_cell :: "pjsip_transaction \<Rightarrow> tsx_timer \<Rightarrow> timer_cell \<Rightarrow> pjsip_transaction" where
  "set_cell tsx e c =
     (case e of Retransmit_Timer \<Rightarrow> tsx\<lparr>retransmit_timer := c\<rparr> | Timeout_Timer \<Rightarrow> tsx\<lparr>timeout_timer := c\<rparr>)"

definition tsx_schedule_timer ::
  "pj_time_val \<Rightarrow> pjsip_transaction \<Rightarrow> tsx_timer \<Rightarrow> pj_time_val \<Rightarrow> int \<Rightarrow> pj_status_t \<times> pjsip_transaction" where
  "tsx_schedule_timer now tsx e delay active_id =
     (if tm_expiry (tsx_cell tsx e) \<noteq> None then (PJ_EINVALIDOP, tsx)
      else (PJ_SUCCESS, set_cell tsx e \<lparr>tm_id = active_id, tm_expiry = Some (PJ_TIME_VAL_ADD now delay)\<rparr>))"

definition tsx_cancel_timer :: "pjsip_transaction \<Rightarrow> tsx_timer \<Rightarrow> int \<Rightarrow> int \<times> pjsip_transaction" where
  "tsx_cancel_timer tsx e inactive_id =
     (if tm_expiry (tsx_cell tsx e) = None then (0, tsx)
      else (1, set_cell tsx e \<lparr>tm_id = inactive_id, tm_expiry = None\<rparr>))"

definition start_timer :: "tsx_env \<Rightarrow> tsx_timer \<Rightarrow> pj_time_val \<Rightarrow> int \<Rightarrow> pjsip_transaction \<Rightarrow> pjsip_transaction" where
  "start_timer env e delay i tsx = snd (tsx_schedule_timer (te_now env) tsx e delay i)"

definition stop_timer :: "tsx_timer \<Rightarrow> pjsip_transaction \<Rightarrow> pjsip_transaction" where
  "stop_timer e tsx = snd (tsx_cancel_timer tsx e TIMER_INACTIVE)"

text \<open>The pattern \<^verbatim>\<open>lock_timer; tsx_cancel_timer; tsx_schedule_timer; unlock_timer\<close>.\<close>

definition restart_timeout :: "tsx_env \<Rightarrow> pj_time_val \<Rightarrow> int \<Rightarrow> pjsip_transaction \<Rightarrow> pjsip_transaction" where
  "restart_timeout env delay i tsx = start_timer env Timeout_Timer delay i (stop_timer Timeout_Timer tsx)"

section \<open>Transport, shutdown, change of state\<close>

definition emit :: "tsx_out \<Rightarrow> pjsip_transaction \<Rightarrow> pjsip_transaction" where
  "emit x tsx = tsx\<lparr>trace := trace tsx @ [x]\<rparr>"

definition set_flag :: "tsx_flag \<Rightarrow> pjsip_transaction \<Rightarrow> pjsip_transaction" where
  "set_flag f tsx = tsx\<lparr>transport_flag := insert f (transport_flag tsx)\<rparr>"

definition clear_flag :: "tsx_flag \<Rightarrow> pjsip_transaction \<Rightarrow> pjsip_transaction" where
  "clear_flag f tsx = tsx\<lparr>transport_flag := transport_flag tsx - {f}\<rparr>"

definition has_flag :: "tsx_flag \<Rightarrow> pjsip_transaction \<Rightarrow> bool" where
  "has_flag f tsx \<longleftrightarrow> f \<in> transport_flag tsx"

definition add_grp :: "int \<Rightarrow> pjsip_transaction \<Rightarrow> pjsip_transaction" where
  "add_grp n tsx = tsx\<lparr>grp_ref := grp_ref tsx + n\<rparr>"

definition add_tx_ref :: "nat \<Rightarrow> int \<Rightarrow> pjsip_transaction \<Rightarrow> pjsip_transaction" where
  "add_tx_ref p n tsx = tsx\<lparr>tx_refs := (tx_refs tsx)(p := tx_refs tsx p + n)\<rparr>"

definition tsx_tp_disconnected :: "tsx_env \<Rightarrow> pj_status_t \<Rightarrow> pjsip_transaction \<Rightarrow> pjsip_transaction" where
  "tsx_tp_disconnected env status tsx =
     (let tsx1 = (clear_flag TSX_HAS_PENDING_TRANSPORT tsx)\<lparr>transport_err := status\<rparr>
      in if state tsx1 < PJSIP_TSX_STATE_COMPLETED
         then restart_timeout env (Time_Val 0 0) TRANSPORT_DISC_TIMER tsx1 else tsx1)"

text \<open>\<open>disconnected\<close> says whether the new transport state is \<^verbatim>\<open>PJSIP_TP_STATE_DISCONNECTED\<close>.\<close>

definition tsx_tp_state_callback :: "tsx_env \<Rightarrow> bool \<Rightarrow> pj_status_t \<Rightarrow> pjsip_transaction \<Rightarrow> pjsip_transaction" where
  "tsx_tp_state_callback env disconnected status tsx =
     (if disconnected then tsx_tp_disconnected env status tsx else tsx)"

definition tsx_update_transport :: "tsx_env \<Rightarrow> nat option \<Rightarrow> pjsip_transaction \<Rightarrow> pjsip_transaction" where
  "tsx_update_transport env tp tsx =
     (let tsx1 = (case transport tsx of None \<Rightarrow> tsx
                  | Some old \<Rightarrow> tsx\<lparr>tp_refs := (tp_refs tsx)(old := tp_refs tsx old - 1), transport := None\<rparr>)
      in case tp of None \<Rightarrow> tsx1
         | Some p \<Rightarrow>
             let tsx2 = tsx1\<lparr>transport := Some p, tp_refs := (tp_refs tsx1)(p := tp_refs tsx1 p + 1)\<rparr>
             in if te_down env p then tsx_tp_state_callback env True PJSIP_SC_TSX_TRANSPORT_ERROR tsx2 else tsx2)"

definition drop_last_tx :: "pjsip_transaction \<Rightarrow> pjsip_transaction" where
  "drop_last_tx tsx =
     (case last_tx tsx of None \<Rightarrow> tsx | Some td \<Rightarrow> (add_tx_ref (td_ptr td) (-1) tsx)\<lparr>last_tx := None\<rparr>)"

text \<open>Saving a message for retransmission, with a reference, unless it is the one saved.\<close>

definition keep_tx :: "pjsip_tx_data \<Rightarrow> pjsip_transaction \<Rightarrow> pjsip_transaction" where
  "keep_tx td tsx =
     (if map_option td_ptr (last_tx tsx) = Some (td_ptr td) then tsx
      else (add_tx_ref (td_ptr td) 1 tsx)\<lparr>last_tx := Some td\<rparr>)"

definition drop_other_tx :: "pjsip_tx_data \<Rightarrow> pjsip_transaction \<Rightarrow> pjsip_transaction" where
  "drop_other_tx td tsx =
     (if last_tx tsx \<noteq> None \<and> map_option td_ptr (last_tx tsx) \<noteq> Some (td_ptr td) then drop_last_tx tsx else tsx)"

definition tsx_shutdown :: "tsx_env \<Rightarrow> pjsip_transaction \<Rightarrow> pjsip_transaction" where
  "tsx_shutdown env tsx =
     (let tsx1 = drop_last_tx (tsx_update_transport env None tsx);
          tsx2 = stop_timer Retransmit_Timer (stop_timer Timeout_Timer tsx1);
          tsx3 = clear_flag TSX_HAS_PENDING_SEND (clear_flag TSX_HAS_PENDING_RESCHED tsx2);
          tsx4 = (if has_flag TSX_HAS_PENDING_TRANSPORT tsx3
                  then (set_flag TSX_HAS_PENDING_DESTROY tsx3)\<lparr>tsx_user := None\<rparr> else tsx3)
      in if \<not> terminating tsx4 then add_grp (-1) (tsx4\<lparr>terminating := True\<rparr>) else tsx4)"

definition mod_tsx_layer_unregister_tsx :: "tsx_env \<Rightarrow> pjsip_transaction \<Rightarrow> pjsip_transaction" where
  "mod_tsx_layer_unregister_tsx env tsx = (if te_unloaded env then tsx else emit Unregister tsx)"

definition tsx_set_status_code :: "int \<Rightarrow> pjsip_transaction \<Rightarrow> pjsip_transaction" where
  "tsx_set_status_code code tsx = tsx\<lparr>status_code := code\<rparr>"

text \<open>
  \<^verbatim>\<open>tsx_set_state\<close> in its two parts, the callbacks and the actions of the new state. \<open>src\<close> is the type of
  the source event and \<open>rx\<close> the message, when that is a received one; the flag \<^verbatim>\<open>RELEASE_LOCK\<close> is about locks.
\<close>

definition tsx_notify ::
  "pjsip_tsx_state_e \<Rightarrow> pjsip_tsx_state_e \<Rightarrow> pjsip_event_id_e \<Rightarrow> pjsip_rx_data option \<Rightarrow> pjsip_transaction \<Rightarrow> pjsip_transaction" where
  "tsx_notify prev new src rx tsx =
     (case tsx_user tsx of
        None \<Rightarrow> tsx
      | Some u \<Rightarrow>
          let tsx1 = (case rx of
                        Some rdata \<Rightarrow>
                          (case rx_msg rdata of
                             Response_Msg _ _ \<Rightarrow>
                               if src = PJSIP_EVENT_RX_MSG \<and> has_on_rx_response u then emit (On_Rx_Response rdata) tsx else tsx
                           | Request_Msg _ \<Rightarrow> tsx)
                      | None \<Rightarrow> tsx)
          in if has_on_tsx_state u then emit (On_Tsx_State new prev src) tsx1 else tsx1)"

definition tsx_enter_terminated :: "tsx_env \<Rightarrow> bool \<Rightarrow> pjsip_transaction \<Rightarrow> pjsip_transaction" where
  "tsx_enter_terminated env no_schedule tsx =
     (let tsx1 = (if has_flag TSX_HAS_PENDING_TRANSPORT tsx then
                    clear_flag TSX_HAS_PENDING_TRANSPORT
                      (case pending_tx tsx of
                         None \<Rightarrow> tsx
                       | Some p \<Rightarrow> add_grp (-1) (tsx\<lparr>tx_attached := (tx_attached tsx)(p := False), pending_tx := None\<rparr>))
                  else tsx);
          tsx2 = stop_timer Timeout_Timer tsx1
      in if \<not> no_schedule then start_timer env Timeout_Timer (Time_Val 0 0) TIMEOUT_TIMER tsx2 else tsx2)"

definition tsx_set_state_flags ::
  "tsx_env \<Rightarrow> pjsip_tsx_state_e \<Rightarrow> pjsip_event_id_e \<Rightarrow> pjsip_rx_data option \<Rightarrow> bool \<Rightarrow> bool \<Rightarrow> pjsip_transaction \<Rightarrow> pjsip_transaction" where
  "tsx_set_state_flags env new src rx no_notify no_schedule tsx =
     (let prev = state tsx;
          tsx1 = tsx\<lparr>state := new\<rparr>;
          tsx2 = (if no_notify then tsx1 else tsx_notify prev new src rx tsx1)
      in if new = PJSIP_TSX_STATE_TERMINATED then tsx_enter_terminated env no_schedule tsx2
         else if new = PJSIP_TSX_STATE_DESTROYED then tsx_shutdown env (mod_tsx_layer_unregister_tsx env tsx2)
         else tsx2)"

definition tsx_set_state ::
  "tsx_env \<Rightarrow> pjsip_tsx_state_e \<Rightarrow> pjsip_event_id_e \<Rightarrow> pjsip_rx_data option \<Rightarrow> pjsip_transaction \<Rightarrow> pjsip_transaction" where
  "tsx_set_state env new src rx tsx = tsx_set_state_flags env new src rx False False tsx"

section \<open>Retransmission timer\<close>

definition tsx_resched_retransmission :: "tsx_env \<Rightarrow> pjsip_transaction \<Rightarrow> pjsip_transaction" where
  "tsx_resched_retransmission env tsx =
     (let c = te_cfg env;
          msec0 = (if role tsx = PJSIP_ROLE_UAC \<and> status_code tsx \<ge> 100 then cfg_t2 c
                   else u32 (2 ^ retransmit_count tsx * int (cfg_t1 c)));
          msec1 = (if role tsx = PJSIP_ROLE_UAC then
                     (if msec0 > cfg_t2 c \<and> meth_id (tsx_method tsx) \<noteq> PJSIP_INVITE_METHOD then cfg_t2 c else msec0)
                   else if status_code tsx < 200 then PJSIP_TSX_1XX_RETRANS_DELAY * 1000
                   else if msec0 > cfg_t2 c then cfg_t2 c else msec0)
      in if msec1 \<noteq> 0 then start_timer env Retransmit_Timer (msec_time msec1) RETRANSMIT_TIMER tsx else tsx)"

section \<open>Sending\<close>

text \<open>
  \<^verbatim>\<open>tsx_send_msg\<close> until it turns to the endpoint: it returns at once (\<open>Inl\<close>), or goes on with the
  status of the failed transport (\<open>Inr\<close>).
\<close>

definition send_direct ::
  "tsx_env \<Rightarrow> pj_status_t \<Rightarrow> pjsip_tx_data \<Rightarrow> pjsip_transaction
   \<Rightarrow> (pj_status_t \<times> pjsip_transaction) + (pj_status_t \<times> pjsip_transaction)" where
  "send_direct env ans tdata tsx =
     (case transport tsx of
        None \<Rightarrow> Inr (PJ_SUCCESS, tsx)
      | Some tp \<Rightarrow>
          let tsx1 = emit (Transport_Send tp tdata) (set_flag TSX_HAS_PENDING_TRANSPORT (add_grp 1 tsx));
              status = (if ans = PJ_EPENDING then PJ_SUCCESS else ans);
              tsx2 = (if ans = PJ_EPENDING then tsx1
                      else add_grp (-1) (clear_flag TSX_HAS_PENDING_TRANSPORT tsx1))
          in if status \<noteq> PJ_SUCCESS
             then Inr (status, (tsx_update_transport env None tsx2)\<lparr>addr_len := 0, res_transport := None\<rparr>)
             else Inl (PJ_SUCCESS, tsx2))"

definition send_permanent_error ::
  "tsx_env \<Rightarrow> pj_status_t \<Rightarrow> pjsip_transaction \<Rightarrow> pj_status_t \<times> pjsip_transaction" where
  "send_permanent_error env status tsx =
     (if status = PJ_SUCCESS then PJ_EUNKNOWN else status,
      tsx_set_state env PJSIP_TSX_STATE_TERMINATED PJSIP_EVENT_TRANSPORT_ERROR None
        (tsx_set_status_code PJSIP_SC_TSX_TRANSPORT_ERROR tsx))"

definition is_request :: "pjsip_msg \<Rightarrow> bool" where
  "is_request msg \<longleftrightarrow> (case msg of Request_Msg _ \<Rightarrow> True | Response_Msg _ _ \<Rightarrow> False)"

text \<open>Handing the message to the endpoint, and what follows once that has returned.\<close>

definition send_begin :: "pjsip_tx_data \<Rightarrow> pjsip_transaction \<Rightarrow> pjsip_transaction" where
  "send_begin tdata tsx =
     (let p = td_ptr tdata;
          tsx1 = (add_tx_ref p 1 tsx)\<lparr>tx_attached := (tx_attached tsx)(p := True), pending_tx := Some p\<rparr>;
          tsx2 = set_flag TSX_HAS_PENDING_TRANSPORT (add_grp 1 tsx1)
      in emit (if is_request (td_msg tdata) then Send_Request tdata else Send_Response tdata) tsx2)"

definition send_finish ::
  "tsx_env \<Rightarrow> pj_status_t \<Rightarrow> pjsip_tx_data \<Rightarrow> pjsip_transaction \<Rightarrow> pj_status_t \<times> pjsip_transaction" where
  "send_finish env ans tdata tsx =
     (let p = td_ptr tdata;
          status = (if ans = PJ_EPENDING then PJ_SUCCESS else ans)
      in if status \<noteq> PJ_SUCCESS then
           let tsx1 = (if is_request (td_msg tdata) then tsx_set_status_code PJSIP_SC_TSX_TRANSPORT_ERROR tsx else tsx);
               tsx2 = add_tx_ref p (-1) (add_grp (-1) (clear_flag TSX_HAS_PENDING_TRANSPORT tsx1))
           in (status, tsx2\<lparr>tx_attached := (tx_attached tsx2)(p := False), pending_tx := None\<rparr>)
         else let tsx1 = add_tx_ref p (-1) tsx
              in (if state tsx1 = PJSIP_TSX_STATE_TERMINATED then transport_err tsx1 else PJ_SUCCESS, tsx1))"

text \<open>The blocks of \<^verbatim>\<open>send_msg_callback\<close>.\<close>

definition callback_sent :: "tsx_env \<Rightarrow> nat option \<Rightarrow> nat \<Rightarrow> pjsip_transaction \<Rightarrow> pjsip_transaction" where
  "callback_sent env cur alen tsx =
     (let tsx1 = (if transport tsx \<noteq> cur then
                    let tsx' = (tsx_update_transport env cur tsx)\<lparr>addr_len := alen\<rparr>
                    in (case transport tsx' of None \<Rightarrow> tsx' | Some tp \<Rightarrow> tsx'\<lparr>is_reliable := te_reliable env tp\<rparr>)
                  else tsx)
      in set_flag TSX_HAS_RESOLVED_SERVER (clear_flag TSX_HAS_PENDING_TRANSPORT tsx1))"

text \<open>Restarting retransmission once the transport is known (here and in \<^verbatim>\<open>transport_callback\<close>).\<close>

definition callback_resched :: "tsx_env \<Rightarrow> pjsip_transaction \<Rightarrow> pjsip_transaction" where
  "callback_resched env tsx =
     (if has_flag TSX_HAS_PENDING_RESCHED tsx \<and> \<not> has_flag TSX_HAS_PENDING_TRANSPORT tsx then
        let tsx1 = clear_flag TSX_HAS_PENDING_RESCHED tsx
        in if \<not> is_reliable tsx1 then tsx_resched_retransmission env tsx1 else tsx1
      else tsx)"

definition callback_failed ::
  "tsx_env \<Rightarrow> int \<Rightarrow> nat option \<Rightarrow> bool \<Rightarrow> pjsip_tx_data \<Rightarrow> pjsip_transaction \<Rightarrow> pjsip_transaction" where
  "callback_failed env sent cur cont tdata tsx0 =
     (let tsx = (if cur = transport tsx0 then tsx_update_transport env None tsx0 else tsx0)
      in if \<not> cont \<or> has_flag TSX_HAS_PENDING_DESTROY tsx then
           let tsx1 = set_flag TSX_HAS_RESOLVED_SERVER (clear_flag TSX_HAS_PENDING_TRANSPORT (tsx\<lparr>transport_err := - sent\<rparr>));
               sc = (if - sent = PJ_ERESOLVE \<or> - sent = PJLIB_UTIL_EDNS_NXDOMAIN
                     then PJSIP_SC_BAD_GATEWAY else PJSIP_SC_TSX_TRANSPORT_ERROR);
               alive = (state tsx1 \<noteq> PJSIP_TSX_STATE_TERMINATED \<and> state tsx1 \<noteq> PJSIP_TSX_STATE_DESTROYED)
           in if (role tsx1 = PJSIP_ROLE_UAC \<or> sc = PJSIP_SC_BAD_GATEWAY) \<and> alive then
                tsx_set_state env PJSIP_TSX_STATE_TERMINATED PJSIP_EVENT_TRANSPORT_ERROR None (tsx_set_status_code sc tsx1)
              else if has_flag TSX_HAS_PENDING_DESTROY tsx1 then
                tsx_set_state env PJSIP_TSX_STATE_DESTROYED PJSIP_EVENT_TRANSPORT_ERROR None (tsx_set_status_code sc tsx1)
              else if role tsx1 = PJSIP_ROLE_UAS \<and> has_flag TSX_HAS_PENDING_RESCHED tsx1 \<and> alive then
                tsx_resched_retransmission env (clear_flag TSX_HAS_PENDING_RESCHED tsx1)
              else tsx1
         else let tsx1 = tsx\<lparr>retransmit_count := 0\<rparr>;
                  tsx2 = (if tm_id (timeout_timer tsx1) \<noteq> 0
                          then restart_timeout env (timeout_timer_val (te_cfg env)) TIMEOUT_TIMER tsx1 else tsx1);
                  p = td_ptr tdata
              in add_grp 1 (tsx2\<lparr>tx_attached := (tx_attached tsx2)(p := True), pending_tx := Some p\<rparr>))"

text \<open>
  \<^verbatim>\<open>tsx_send_msg\<close>, \<^verbatim>\<open>send_msg_callback\<close> and the sequence of its calls, over the tree of answers. \<open>None\<close> is
  a NULL message.
\<close>

fun tsx_send_msg :: "tsx_env \<Rightarrow> send_env \<Rightarrow> pjsip_transaction \<Rightarrow> pjsip_tx_data option \<Rightarrow> pj_status_t \<times> pjsip_transaction"
  and send_calls :: "tsx_env \<Rightarrow> send_call list \<Rightarrow> pjsip_transaction \<Rightarrow> pjsip_tx_data \<Rightarrow> pjsip_transaction"
  and send_msg_callback :: "tsx_env \<Rightarrow> send_call \<Rightarrow> pjsip_transaction \<Rightarrow> pjsip_tx_data \<Rightarrow> pjsip_transaction" where
  "tsx_send_msg env (Send_Env tans eans calls) tsx msg =
     (case msg of
        None \<Rightarrow> (PJ_EINVAL, tsx)
      | Some tdata \<Rightarrow>
          if has_flag TSX_HAS_PENDING_TRANSPORT tsx then (PJ_SUCCESS, set_flag TSX_HAS_PENDING_SEND tsx)
          else if te_pending env (td_ptr tdata) then (PJ_SUCCESS, tsx)
          else (case send_direct env tans tdata tsx of
                  Inl r \<Rightarrow> r
                | Inr (status, tsx1) \<Rightarrow>
                    if role tsx1 = PJSIP_ROLE_UAC \<and> has_flag TSX_HAS_RESOLVED_SERVER tsx1
                    then send_permanent_error env status tsx1
                    else send_finish env eans tdata (send_calls env calls (send_begin tdata tsx1) tdata)))"
| "send_calls env [] tsx tdata = tsx"
| "send_calls env (c # cs) tsx tdata = send_calls env cs (send_msg_callback env c tsx tdata) tdata"
| "send_msg_callback env (Send_Call sent cur alen cont nested) tsx tdata =
     (if te_unloaded env \<or> \<not> tx_attached tsx (td_ptr tdata) then tsx
      else let tsx1 = (add_grp (-1) tsx)\<lparr>tx_attached := (tx_attached tsx)(td_ptr tdata := False), pending_tx := None\<rparr>
      in if sent > 0 then
           let tsx2 = callback_sent env cur alen tsx1
           in if has_flag TSX_HAS_PENDING_DESTROY tsx2
              then tsx_set_state env PJSIP_TSX_STATE_DESTROYED PJSIP_EVENT_UNKNOWN None tsx2
              else callback_resched env
                     (if has_flag TSX_HAS_PENDING_SEND tsx2
                      then snd (tsx_send_msg env nested (clear_flag TSX_HAS_PENDING_SEND tsx2) (last_tx tsx2)) else tsx2)
         else callback_failed env sent cur cont tdata tsx1)"

declare tsx_send_msg.simps [simp del] send_msg_callback.simps [simp del]

definition transport_callback :: "tsx_env \<Rightarrow> send_env \<Rightarrow> int \<Rightarrow> pjsip_transaction \<Rightarrow> pjsip_transaction" where
  "transport_callback env nested sent tsx =
     (if te_unloaded env then tsx
      else let tsx1 = clear_flag TSX_HAS_PENDING_TRANSPORT tsx
      in if (sent > 0 \<or> role tsx1 = PJSIP_ROLE_UAS) \<and> has_flag TSX_HAS_PENDING_DESTROY tsx1
         then tsx_set_state env PJSIP_TSX_STATE_DESTROYED PJSIP_EVENT_UNKNOWN None tsx1
         else let tsx2 = (if sent > 0 \<or> role tsx1 = PJSIP_ROLE_UAS then
                            callback_resched env
                              (if has_flag TSX_HAS_PENDING_SEND tsx1
                               then snd (tsx_send_msg env nested (clear_flag TSX_HAS_PENDING_SEND tsx1) (last_tx tsx1)) else tsx1)
                          else tsx1);
                  tsx3 = (if sent < 0 \<and> role tsx2 = PJSIP_ROLE_UAC then
                            let tsx' = tsx2\<lparr>transport_err := - sent\<rparr>
                            in if state tsx' < PJSIP_TSX_STATE_COMPLETED
                               then restart_timeout env (Time_Val 0 0) TRANSPORT_ERR_TIMER tsx' else tsx'
                          else tsx2)
              in add_grp (-1) tsx3)"

definition pjsip_tsx_retransmit_no_state ::
  "tsx_env \<Rightarrow> send_env \<Rightarrow> pjsip_transaction \<Rightarrow> pjsip_tx_data option \<Rightarrow> pj_status_t \<times> pjsip_transaction" where
  "pjsip_tsx_retransmit_no_state env se tsx msg =
     (let tsx1 = (case (msg, last_tx tsx) of
                    (None, Some td) \<Rightarrow> add_tx_ref (td_ptr td) 1 tsx | _ \<Rightarrow> tsx);
          td = (case msg of Some td \<Rightarrow> Some td | None \<Rightarrow> last_tx tsx);
          (status, tsx2) = tsx_send_msg env se tsx1 td
      in if status = PJ_SUCCESS
         then (status, case td of None \<Rightarrow> tsx2 | Some d \<Rightarrow> add_tx_ref (td_ptr d) (-1) tsx2)
         else (status, tsx2))"

definition tsx_retransmit :: "tsx_env \<Rightarrow> send_env \<Rightarrow> bool \<Rightarrow> pjsip_transaction \<Rightarrow> pj_status_t \<times> pjsip_transaction" where
  "tsx_retransmit env se resched tsx =
     (if resched \<and> tm_expiry (retransmit_timer tsx) \<noteq> None then (PJ_SUCCESS, tsx)
      else case last_tx tsx of
        None \<Rightarrow> (PJ_EBUG, tsx)
      | Some td \<Rightarrow>
          if max_retrans_count (te_cfg env) \<ge> 0 \<and> int (retransmit_count tsx) \<ge> max_retrans_count (te_cfg env) \<and>
             is_request (td_msg td)
          then (PJ_SUCCESS, restart_timeout env (Time_Val 0 0) TIMEOUT_TIMER tsx)
          else let tsx1 = tsx\<lparr>retransmit_count := retransmit_count tsx + 1\<rparr>;
                   tsx2 = (if resched then
                             (if has_flag TSX_HAS_PENDING_TRANSPORT tsx1 then set_flag TSX_HAS_PENDING_RESCHED tsx1
                              else tsx_resched_retransmission env tsx1)
                           else tsx1);
                   (status, tsx3) = tsx_send_msg env se tsx2 (last_tx tsx2)
          in if status \<noteq> PJ_SUCCESS then (status, tsx3)
             else if resched \<and> has_flag TSX_HAS_PENDING_TRANSPORT tsx3
             then (PJ_SUCCESS, set_flag TSX_HAS_PENDING_RESCHED (stop_timer Retransmit_Timer tsx3))
             else (PJ_SUCCESS, tsx3))"

section \<open>State handlers\<close>

type_synonym handler = "tsx_env \<Rightarrow> send_env \<Rightarrow> pjsip_event \<Rightarrow> pjsip_transaction \<Rightarrow> pj_status_t \<times> pjsip_transaction"

abbreviation in_class :: "int \<Rightarrow> int \<Rightarrow> bool" where
  "in_class code cls \<equiv> cdiv code 100 = cls"

definition rx_of :: "pjsip_event \<Rightarrow> pjsip_rx_data option" where
  "rx_of event = (case event of Rx_Event rdata \<Rightarrow> Some rdata | _ \<Rightarrow> None)"

definition invite :: "pjsip_transaction \<Rightarrow> bool" where
  "invite tsx \<longleftrightarrow> meth_id (tsx_method tsx) = PJSIP_INVITE_METHOD"

text \<open>Starting a retransmission timer, or leaving a note when the transport is not known yet.\<close>

definition start_retrans :: "tsx_env \<Rightarrow> pj_time_val \<Rightarrow> pjsip_transaction \<Rightarrow> pjsip_transaction" where
  "start_retrans env delay tsx =
     (let tsx1 = tsx\<lparr>retransmit_count := 0\<rparr>
      in if has_flag TSX_HAS_PENDING_TRANSPORT tsx1 then set_flag TSX_HAS_PENDING_RESCHED tsx1
         else start_timer env Retransmit_Timer delay RETRANSMIT_TIMER tsx1)"

definition tsx_on_state_null :: handler where
  "tsx_on_state_null env se event tsx =
     (if role tsx = PJSIP_ROLE_UAS then
        (PJ_SUCCESS, tsx_set_state env PJSIP_TSX_STATE_TRYING PJSIP_EVENT_RX_MSG (rx_of event) tsx)
      else case event of
        Tx_Event tdata \<Rightarrow>
          let tsx1 = keep_tx tdata (drop_other_tx tdata tsx);
              (status, tsx2) = tsx_send_msg env se tsx1 (Some tdata)
          in if status \<noteq> PJ_SUCCESS then (status, tsx2)
             else let tsx3 = restart_timeout env (timeout_timer_val (te_cfg env)) TIMEOUT_TIMER tsx2;
                      tsx4 = (if \<not> is_reliable tsx3 then start_retrans env (t1_timer_val (te_cfg env)) tsx3 else tsx3)
                  in (PJ_SUCCESS, tsx_set_state env PJSIP_TSX_STATE_CALLING PJSIP_EVENT_TX_MSG None tsx4)
      | _ \<Rightarrow> (PJ_EBUG, tsx))"

text \<open>The final response of a UAC: ACK for INVITE, timers D and K.\<close>

definition completed_delay :: "tsx_env \<Rightarrow> pjsip_transaction \<Rightarrow> pj_time_val" where
  "completed_delay env tsx =
     (if \<not> is_reliable tsx then (if invite tsx then td_timer_val (te_cfg env) else t4_timer_val (te_cfg env))
      else Time_Val 0 0)"

definition uac_final_error :: handler where
  "uac_final_error env se event tsx0 =
     (let tsx = stop_timer Timeout_Timer (stop_timer Retransmit_Timer tsx0)
      in if invite tsx then
           (case te_ack env of
              Inl status \<Rightarrow> (status, tsx)
            | Inr ack \<Rightarrow>
                let (status, tsx1) = tsx_send_msg env se (add_tx_ref (td_ptr ack) 1 tsx) (Some ack)
                in if status \<noteq> PJ_SUCCESS then (status, tsx1)
                   else let tsx2 = tsx_set_state env PJSIP_TSX_STATE_COMPLETED PJSIP_EVENT_RX_MSG (rx_of event) tsx1;
                            tsx3 = (if map_option td_ptr (last_tx tsx2) \<noteq> Some (td_ptr ack)
                                    then (drop_last_tx tsx2)\<lparr>last_tx := Some ack\<rparr> else tsx2)
                        in (PJ_SUCCESS, restart_timeout env (completed_delay env tsx3) TIMEOUT_TIMER tsx3))
         else if meth_id (tsx_method tsx) = PJSIP_BYE_METHOD \<and>
                 (status_code tsx = PJSIP_SC_REQUEST_TIMEOUT \<or> status_code tsx = PJSIP_SC_CALL_TSX_DOES_NOT_EXIST) then
           (PJ_SUCCESS, tsx_set_state env PJSIP_TSX_STATE_TERMINATED PJSIP_EVENT_RX_MSG (rx_of event) tsx)
         else
           let tsx2 = tsx_set_state env PJSIP_TSX_STATE_COMPLETED PJSIP_EVENT_RX_MSG (rx_of event) tsx
           in (PJ_SUCCESS, restart_timeout env (completed_delay env tsx2) TIMEOUT_TIMER tsx2))"

definition uac_success :: handler where
  "uac_success env se event tsx =
     (let tsx1 = stop_timer Timeout_Timer tsx
      in if invite tsx1
         then (PJ_SUCCESS, tsx_set_state env PJSIP_TSX_STATE_TERMINATED PJSIP_EVENT_RX_MSG (rx_of event) tsx1)
         else let tsx2 = stop_timer Retransmit_Timer
                           (start_timer env Timeout_Timer (completed_delay env tsx1) TIMEOUT_TIMER tsx1)
              in (PJ_SUCCESS, tsx_set_state env PJSIP_TSX_STATE_COMPLETED PJSIP_EVENT_RX_MSG (rx_of event) tsx2))"

text \<open>
  The second half of the handler, by the status code, for a response or the timeout. The code hands
  \<^verbatim>\<open>event->body.rx_msg.rdata\<close> on in each case; for a timer event that is only reached with 408.
\<close>

definition proceeding_uac_by_code :: handler where
  "proceeding_uac_by_code env se event tsx =
     (if in_class (status_code tsx) 1 then
        (PJ_SUCCESS, tsx_set_state env PJSIP_TSX_STATE_PROCEEDING PJSIP_EVENT_RX_MSG (rx_of event) tsx)
      else if in_class (status_code tsx) 2 then uac_success env se event tsx
      else if event = Timer_Event Timeout_Timer then
        (PJ_SUCCESS, tsx_set_state env PJSIP_TSX_STATE_TERMINATED PJSIP_EVENT_TIMER None tsx)
      else if status_code tsx \<ge> 300 \<and> status_code tsx \<le> 699 then uac_final_error env se event tsx
      else (PJ_EBUG, tsx))"

definition tsx_on_state_proceeding_uac :: handler where
  "tsx_on_state_proceeding_uac env se event tsx =
     (case event of
        Tx_Event _ \<Rightarrow> (PJ_EINVALIDOP, tsx)
      | Rx_Event rdata \<Rightarrow>
          (case rx_msg rdata of
             Request_Msg _ \<Rightarrow> (PJSIP_ENOTRESPONSEMSG, tsx)
           | Response_Msg code _ \<Rightarrow> proceeding_uac_by_code env se event (tsx_set_status_code code tsx))
      | Timer_Event Retransmit_Timer \<Rightarrow> tsx_retransmit env se True tsx
      | Timer_Event Timeout_Timer \<Rightarrow> proceeding_uac_by_code env se event (tsx_set_status_code PJSIP_SC_TSX_TIMEOUT tsx))"

text \<open>The timers on the first response.\<close>

definition calling_response_timers :: "tsx_env \<Rightarrow> int \<Rightarrow> pjsip_transaction \<Rightarrow> pjsip_transaction" where
  "calling_response_timers env code tsx =
     (let tsx1 = stop_timer Retransmit_Timer tsx
      in if code \<ge> 200 then
           (if tm_id (timeout_timer tsx1) \<noteq> 0 then stop_timer Timeout_Timer tsx1 else tsx1)
         else if invite tsx1 then stop_timer Timeout_Timer tsx1
         else if \<not> is_reliable tsx1
         then start_timer env Retransmit_Timer (t2_timer_val (te_cfg env)) RETRANSMIT_TIMER tsx1
         else tsx1)"

definition tsx_on_state_calling :: handler where
  "tsx_on_state_calling env se event tsx =
     (case event of
        Timer_Event Retransmit_Timer \<Rightarrow> tsx_retransmit env se True tsx
      | Timer_Event Timeout_Timer \<Rightarrow>
          let tsx1 = clear_flag TSX_HAS_PENDING_RESCHED (stop_timer Retransmit_Timer tsx)
          in (PJ_SUCCESS, tsx_set_state env PJSIP_TSX_STATE_TERMINATED PJSIP_EVENT_TIMER None
                            (tsx_set_status_code PJSIP_SC_TSX_TIMEOUT tsx1))
      | Rx_Event rdata \<Rightarrow>
          (case rx_msg rdata of
             Request_Msg _ \<Rightarrow> (PJSIP_ENOTRESPONSEMSG, tsx)
           | Response_Msg code _ \<Rightarrow>
               (PJ_SUCCESS, snd (tsx_on_state_proceeding_uac env se event
                  (clear_flag TSX_HAS_PENDING_RESCHED (calling_response_timers env code tsx)))))
      | Tx_Event _ \<Rightarrow> (PJ_EBUG, tsx))"

text \<open>A response of a UAS, by its class, after it was sent.\<close>

definition uas_provisional :: "tsx_env \<Rightarrow> pjsip_tx_data \<Rightarrow> pjsip_transaction \<Rightarrow> pjsip_transaction" where
  "uas_provisional env tdata tsx =
     (let tsx1 = tsx_set_state env PJSIP_TSX_STATE_PROCEEDING PJSIP_EVENT_TX_MSG None (keep_tx tdata tsx)
      in if PJSIP_TSX_1XX_RETRANS_DELAY > 0 \<and> invite tsx1 \<and> status_code tsx1 > 100
         then start_retrans env (Time_Val (int PJSIP_TSX_1XX_RETRANS_DELAY) 0) (stop_timer Retransmit_Timer tsx1)
         else tsx1)"

definition uas_success :: "tsx_env \<Rightarrow> pjsip_tx_data \<Rightarrow> pjsip_transaction \<Rightarrow> pjsip_transaction" where
  "uas_success env tdata tsx0 =
     (let tsx = stop_timer Retransmit_Timer tsx0
      in if invite tsx \<and> \<not> handle_200resp tsx
         then tsx_set_state env PJSIP_TSX_STATE_TERMINATED PJSIP_EVENT_TX_MSG None tsx
         else let tsx1 = (if invite tsx then start_retrans env (t1_timer_val (te_cfg env)) tsx else tsx);
                  tsx2 = keep_tx tdata tsx1;
                  timeout = (if invite tsx2 then timeout_timer_val (te_cfg env)
                             else if \<not> is_reliable tsx2 then timeout_timer_val (te_cfg env)
                             else Time_Val 0 0);
                  tsx3 = restart_timeout env timeout TIMEOUT_TIMER tsx2
              in tsx_set_state env PJSIP_TSX_STATE_COMPLETED PJSIP_EVENT_TX_MSG None tsx3)"

definition uas_failure :: "tsx_env \<Rightarrow> pjsip_tx_data \<Rightarrow> pjsip_method \<Rightarrow> pjsip_transaction \<Rightarrow> pjsip_transaction" where
  "uas_failure env tdata cseq_method tsx0 =
     (let tsx1 = keep_tx tdata (stop_timer Retransmit_Timer tsx0);
          tsx2 = stop_timer Timeout_Timer tsx1;
          timeout = (if invite tsx2 then timeout_timer_val (te_cfg env)
                     else if \<not> is_reliable tsx2 then timeout_timer_val (te_cfg env) else Time_Val 0 0);
          tsx3 = start_timer env Timeout_Timer timeout TIMEOUT_TIMER tsx2;
          tsx4 = (if \<not> is_reliable tsx3 \<and> meth_id cseq_method = PJSIP_INVITE_METHOD
                  then start_retrans env (t1_timer_val (te_cfg env)) tsx3 else tsx3)
      in tsx_set_state env PJSIP_TSX_STATE_COMPLETED PJSIP_EVENT_TX_MSG None tsx4)"

definition tsx_on_state_proceeding_uas :: handler where
  "tsx_on_state_proceeding_uas env se event tsx =
     (case event of
        Rx_Event _ \<Rightarrow>
          if last_tx tsx = None then (PJ_EBUG, tsx)
          else if has_flag TSX_HAS_PENDING_TRANSPORT tsx then (PJ_SUCCESS, set_flag TSX_HAS_PENDING_SEND tsx)
          else tsx_send_msg env se tsx (last_tx tsx)
      | Tx_Event tdata \<Rightarrow>
          (case td_msg tdata of
             Request_Msg _ \<Rightarrow> (PJSIP_ENOTRESPONSEMSG, tsx)
           | Response_Msg code cseq_method \<Rightarrow>
               let tsx1 = drop_other_tx tdata (tsx_set_status_code code tsx);
                   (status, tsx2) = tsx_send_msg env se tsx1 (Some tdata)
               in if status \<noteq> PJ_SUCCESS then (status, tsx2)
                  else if in_class (status_code tsx2) 1 then (PJ_SUCCESS, uas_provisional env tdata tsx2)
                  else if in_class (status_code tsx2) 2 then (PJ_SUCCESS, uas_success env tdata tsx2)
                  else if status_code tsx2 \<ge> 300 then (PJ_SUCCESS, uas_failure env tdata cseq_method tsx2)
                  else (PJ_SUCCESS, tsx2))
      | Timer_Event Retransmit_Timer \<Rightarrow> tsx_retransmit env se True tsx
      | Timer_Event Timeout_Timer \<Rightarrow>
          (PJ_EBUG, tsx_set_state env PJSIP_TSX_STATE_TERMINATED PJSIP_EVENT_TIMER None
                      (tsx_set_status_code PJSIP_SC_TSX_TIMEOUT tsx)))"

definition tsx_on_state_trying :: handler where
  "tsx_on_state_trying env se event tsx =
     (case event of
        Tx_Event tdata \<Rightarrow>
          let (status, tsx1) = tsx_on_state_proceeding_uas env se event tsx
          in if status = PJ_SUCCESS \<and> state tsx1 = PJSIP_TSX_STATE_TRYING
             then (status, tsx_set_state env PJSIP_TSX_STATE_PROCEEDING PJSIP_EVENT_TX_MSG None tsx1)
             else (status, tsx1)
      | _ \<Rightarrow> (PJ_SUCCESS, tsx))"

definition tsx_on_state_completed_uas :: handler where
  "tsx_on_state_completed_uas env se event tsx =
     (case event of
        Rx_Event rdata \<Rightarrow>
          (case rx_msg rdata of
             Response_Msg _ _ \<Rightarrow> (PJSIP_ENOTREQUESTMSG, tsx)
           | Request_Msg m \<Rightarrow>
               if meth_id m \<noteq> PJSIP_ACK_METHOD then tsx_retransmit env se False tsx
               else if \<not> invite tsx then (PJSIP_EINVALIDMETHOD, tsx)
               else let tsx1 = clear_flag TSX_HAS_PENDING_RESCHED (stop_timer Retransmit_Timer tsx);
                        timeout = (if is_reliable tsx1 then Time_Val 0 0 else t4_timer_val (te_cfg env));
                        tsx2 = restart_timeout env timeout TIMEOUT_TIMER tsx1
                    in (PJ_SUCCESS, tsx_set_state env PJSIP_TSX_STATE_CONFIRMED PJSIP_EVENT_RX_MSG (Some rdata) tsx2))
      | Timer_Event Retransmit_Timer \<Rightarrow> tsx_retransmit env se True tsx
      | Timer_Event Timeout_Timer \<Rightarrow>
          (PJ_SUCCESS, tsx_set_state env PJSIP_TSX_STATE_TERMINATED PJSIP_EVENT_TIMER None
             (if invite tsx then tsx_set_status_code PJSIP_SC_TSX_TIMEOUT tsx else tsx))
      | Tx_Event tdata \<Rightarrow>
          if map_option td_ptr (last_tx tsx) \<noteq> Some (td_ptr tdata) then (PJ_EINVALIDOP, tsx) else (PJ_SUCCESS, tsx))"

definition tsx_on_state_completed_uac :: handler where
  "tsx_on_state_completed_uac env se event tsx =
     (case event of
        Timer_Event Retransmit_Timer \<Rightarrow> (PJ_SUCCESS, tsx)
      | Timer_Event Timeout_Timer \<Rightarrow>
          (PJ_SUCCESS, tsx_set_state env PJSIP_TSX_STATE_TERMINATED PJSIP_EVENT_TIMER None tsx)
      | Rx_Event rdata \<Rightarrow>
          if invite tsx then
            (case rx_msg rdata of
               Response_Msg code _ \<Rightarrow> if code \<ge> 200 then tsx_retransmit env se False tsx else (PJ_SUCCESS, tsx)
             | Request_Msg _ \<Rightarrow> (PJ_SUCCESS, tsx))
          else (PJ_SUCCESS, tsx)
      | Tx_Event _ \<Rightarrow> (PJ_EINVALIDOP, tsx))"

definition tsx_on_state_confirmed :: handler where
  "tsx_on_state_confirmed env se event tsx =
     (case event of
        Rx_Event rdata \<Rightarrow>
          (case rx_msg rdata of
             Request_Msg _ \<Rightarrow> (PJ_SUCCESS, tsx) | Response_Msg _ _ \<Rightarrow> (PJSIP_ENOTREQUESTMSG, tsx))
      | Timer_Event Retransmit_Timer \<Rightarrow> (PJ_SUCCESS, tsx)
      | Timer_Event Timeout_Timer \<Rightarrow>
          (PJ_SUCCESS, tsx_set_state env PJSIP_TSX_STATE_TERMINATED PJSIP_EVENT_TIMER None tsx)
      | Tx_Event _ \<Rightarrow> (PJ_EBUG, tsx))"

definition tsx_on_state_terminated :: handler where
  "tsx_on_state_terminated env se event tsx =
     (case event of
        Timer_Event _ \<Rightarrow> (PJ_SUCCESS, tsx_set_state env PJSIP_TSX_STATE_DESTROYED PJSIP_EVENT_TIMER None tsx)
      | _ \<Rightarrow> (PJ_EIGNORED, tsx))"

definition tsx_on_state_destroyed :: handler where
  "tsx_on_state_destroyed env se event tsx = (PJ_EIGNORED, tsx)"

text \<open>
  The tables of handlers; \<open>None\<close> is the NULL entry. The field \<^verbatim>\<open>state_handler\<close> always is the entry of the
  role and the state, so it is not kept apart.
\<close>

fun tsx_state_handler_uac :: "pjsip_tsx_state_e \<Rightarrow> handler option" where
  "tsx_state_handler_uac PJSIP_TSX_STATE_NULL = Some tsx_on_state_null"
| "tsx_state_handler_uac PJSIP_TSX_STATE_CALLING = Some tsx_on_state_calling"
| "tsx_state_handler_uac PJSIP_TSX_STATE_TRYING = None"
| "tsx_state_handler_uac PJSIP_TSX_STATE_PROCEEDING = Some tsx_on_state_proceeding_uac"
| "tsx_state_handler_uac PJSIP_TSX_STATE_COMPLETED = Some tsx_on_state_completed_uac"
| "tsx_state_handler_uac PJSIP_TSX_STATE_CONFIRMED = Some tsx_on_state_confirmed"
| "tsx_state_handler_uac PJSIP_TSX_STATE_TERMINATED = Some tsx_on_state_terminated"
| "tsx_state_handler_uac PJSIP_TSX_STATE_DESTROYED = Some tsx_on_state_destroyed"

fun tsx_state_handler_uas :: "pjsip_tsx_state_e \<Rightarrow> handler option" where
  "tsx_state_handler_uas PJSIP_TSX_STATE_NULL = Some tsx_on_state_null"
| "tsx_state_handler_uas PJSIP_TSX_STATE_CALLING = None"
| "tsx_state_handler_uas PJSIP_TSX_STATE_TRYING = Some tsx_on_state_trying"
| "tsx_state_handler_uas PJSIP_TSX_STATE_PROCEEDING = Some tsx_on_state_proceeding_uas"
| "tsx_state_handler_uas PJSIP_TSX_STATE_COMPLETED = Some tsx_on_state_completed_uas"
| "tsx_state_handler_uas PJSIP_TSX_STATE_CONFIRMED = Some tsx_on_state_confirmed"
| "tsx_state_handler_uas PJSIP_TSX_STATE_TERMINATED = Some tsx_on_state_terminated"
| "tsx_state_handler_uas PJSIP_TSX_STATE_DESTROYED = Some tsx_on_state_destroyed"

definition tsx_dispatch :: "tsx_env \<Rightarrow> send_env \<Rightarrow> pjsip_event \<Rightarrow> pjsip_transaction \<Rightarrow> (pj_status_t \<times> pjsip_transaction) option" where
  "tsx_dispatch env se event tsx =
     map_option (\<lambda>h. h env se event tsx)
       (if role tsx = PJSIP_ROLE_UAC then tsx_state_handler_uac (state tsx) else tsx_state_handler_uas (state tsx))"

section \<open>Operations on a transaction\<close>

definition pjsip_tsx_terminate :: "tsx_env \<Rightarrow> int \<Rightarrow> pjsip_transaction \<Rightarrow> pj_status_t \<times> pjsip_transaction" where
  "pjsip_tsx_terminate env code tsx =
     (if code < 200 then (PJ_EINVAL, tsx)
      else (PJ_SUCCESS,
            if state tsx < PJSIP_TSX_STATE_TERMINATED
            then tsx_set_state env PJSIP_TSX_STATE_TERMINATED PJSIP_EVENT_USER None (tsx_set_status_code code tsx)
            else tsx))"

definition pjsip_tsx_terminate_async :: "tsx_env \<Rightarrow> int \<Rightarrow> pjsip_transaction \<Rightarrow> pj_status_t \<times> pjsip_transaction" where
  "pjsip_tsx_terminate_async env code tsx =
     (if code < 200 then (PJ_EINVAL, tsx)
      else (PJ_SUCCESS, restart_timeout env (Time_Val 0 100) TERMINATE_TIMER tsx))"

definition pjsip_tsx_stop_retransmit :: "pjsip_transaction \<Rightarrow> pj_status_t \<times> pjsip_transaction" where
  "pjsip_tsx_stop_retransmit tsx =
     (if \<not> (role tsx = PJSIP_ROLE_UAC \<and> invite tsx) then (PJ_EINVALIDOP, tsx)
      else (PJ_SUCCESS, stop_timer Retransmit_Timer tsx))"

definition pjsip_tsx_set_timeout :: "tsx_env \<Rightarrow> nat \<Rightarrow> pjsip_transaction \<Rightarrow> pj_status_t \<times> pjsip_transaction" where
  "pjsip_tsx_set_timeout env millisec tsx =
     (if \<not> (role tsx = PJSIP_ROLE_UAC \<and> invite tsx) then (PJ_EINVALIDOP, tsx)
      else if status_code tsx \<ge> 200 \<and> tm_id (timeout_timer tsx) \<noteq> 0 then (PJ_EEXISTS, tsx)
      else (PJ_SUCCESS,
            restart_timeout env (pj_time_val_normalize (Time_Val 0 (int millisec))) TIMEOUT_TIMER tsx))"

text \<open>\<open>None\<close> stands for the call of a NULL handler. A NULL message means the one saved.\<close>

definition pjsip_tsx_send_msg ::
  "tsx_env \<Rightarrow> send_env \<Rightarrow> pjsip_tx_data option \<Rightarrow> pjsip_transaction \<Rightarrow> (pj_status_t \<times> pjsip_transaction) option" where
  "pjsip_tsx_send_msg env se msg tsx =
     (case (if msg = None then last_tx tsx else msg) of
        None \<Rightarrow> Some (PJ_EINVALIDOP, tsx)
      | Some tdata \<Rightarrow>
          map_option (\<lambda>(status, tsx1). (status, if status = PJ_SUCCESS then add_tx_ref (td_ptr tdata) (-1) tsx1 else tsx1))
            (tsx_dispatch env se (Tx_Event tdata) tsx))"

definition pjsip_tsx_recv_msg ::
  "tsx_env \<Rightarrow> send_env \<Rightarrow> pjsip_rx_data \<Rightarrow> pjsip_transaction \<Rightarrow> pjsip_transaction option" where
  "pjsip_tsx_recv_msg env se rdata tsx = map_option snd (tsx_dispatch env se (Rx_Event rdata) tsx)"

text \<open>
  The branch of the timer callback for transport errors. The state is set without telling the user
  and without the timer; both follow. \<^verbatim>\<open>PJSIP_TSX_UAS_CONTINUE_ON_TP_ERROR\<close> is on, as by default.
\<close>

definition tsx_transport_error :: "tsx_env \<Rightarrow> bool \<Rightarrow> pjsip_transaction \<Rightarrow> pjsip_transaction" where
  "tsx_transport_error env tp_disc tsx =
     (if \<not> state tsx < PJSIP_TSX_STATE_TERMINATED then tsx
      else let prev = state tsx; tsx1 = tsx_update_transport env None tsx
      in if tp_disc \<and> invite tsx1 \<and> role tsx1 = PJSIP_ROLE_UAS \<and> status_code tsx1 < 200 \<and>
            \<not> has_flag TSX_HAS_PENDING_TRANSPORT tsx1 \<and> \<not> has_flag TSX_HAS_PENDING_DESTROY tsx1
         then tsx1\<lparr>transport_flag := {}, addr_len := 0, res_transport := None\<rparr>
         else let tsx2 = (if status_code tsx1 < 200 then tsx_set_status_code PJSIP_SC_TSX_TRANSPORT_ERROR tsx1 else tsx1);
                  tsx3 = tsx_set_state_flags env PJSIP_TSX_STATE_TERMINATED PJSIP_EVENT_TRANSPORT_ERROR None True True tsx2;
                  tsx4 = (case tsx_user tsx3 of
                            None \<Rightarrow> tsx3
                          | Some u \<Rightarrow>
                              if has_on_tsx_state u
                              then emit (On_Tsx_State PJSIP_TSX_STATE_TERMINATED prev PJSIP_EVENT_TRANSPORT_ERROR) tsx3
                              else tsx3)
              in start_timer env Timeout_Timer (Time_Val 0 0) TIMEOUT_TIMER tsx4)"

definition set_timer_id :: "tsx_timer \<Rightarrow> int \<Rightarrow> pjsip_transaction \<Rightarrow> pjsip_transaction" where
  "set_timer_id e i tsx = set_cell tsx e ((tsx_cell tsx e)\<lparr>tm_id := i\<rparr>)"

definition tsx_timer_callback ::
  "tsx_env \<Rightarrow> send_env \<Rightarrow> tsx_timer \<Rightarrow> pjsip_transaction \<Rightarrow> pjsip_transaction option" where
  "tsx_timer_callback env se e tsx =
     (let i = tm_id (tsx_cell tsx e)
      in if state tsx \<ge> PJSIP_TSX_STATE_DESTROYED then Some tsx
         else if i = TERMINATE_TIMER then
           Some (if state tsx < PJSIP_TSX_STATE_TERMINATED then snd (pjsip_tsx_terminate env (status_code tsx) tsx) else tsx)
         else if i = TRANSPORT_ERR_TIMER \<or> i = TRANSPORT_DISC_TIMER then
           Some (tsx_transport_error env (i = TRANSPORT_DISC_TIMER) (set_timer_id e 0 tsx))
         else map_option snd (tsx_dispatch env se (Timer_Event e) (set_timer_id e 0 tsx)))"

text \<open>
  A poll of the timer heap fires a timer that is due: the entry leaves the heap and keeps its identifier
  until the callback reads it.
\<close>

definition timer_due :: "pj_time_val \<Rightarrow> tsx_timer \<Rightarrow> pjsip_transaction \<Rightarrow> bool" where
  "timer_due now e tsx = (case tm_expiry (tsx_cell tsx e) of None \<Rightarrow> False | Some t \<Rightarrow> t \<le> now)"

definition tsx_poll_timer ::
  "tsx_env \<Rightarrow> send_env \<Rightarrow> tsx_timer \<Rightarrow> pjsip_transaction \<Rightarrow> pjsip_transaction option" where
  "tsx_poll_timer env se e tsx =
     (if timer_due (te_now env) e tsx
      then tsx_timer_callback env se e (set_cell tsx e ((tsx_cell tsx e)\<lparr>tm_expiry := None\<rparr>))
      else Some tsx)"

end
