(* ===== verification/Sip_Tsx_Props.thy ===== *)
theory Sip_Tsx_Props
  imports Sip_Tsx
begin

text \<open>
  Lemmas and properties of the transaction: what the operations leave alone, the order of states
  against the diagrams of RFC 3261, the retransmission schedule of a client transaction, the end of a
  transaction, and the paths on which it is left behind.
\<close>

section \<open>What the operations leave alone\<close>

text \<open>Role and method never change; the state and the flags only where the operation says so.\<close>

definition core :: "pjsip_transaction \<Rightarrow> pjsip_role_e \<times> pjsip_method \<times> byte list \<times> byte list" where
  "core tsx = (role tsx, tsx_method tsx, transaction_key tsx, transaction_key2 tsx)"

lemma coreD:
  assumes "core a = core b"
  shows "role a = role b" and "tsx_method a = tsx_method b" and "invite a = invite b"
    and "transaction_key a = transaction_key b" and "transaction_key2 a = transaction_key2 b"
  using assms by (simp_all add: core_def invite_def)

definition stat :: "pjsip_transaction \<Rightarrow> pjsip_tsx_state_e \<times> (pjsip_role_e \<times> pjsip_method \<times> byte list \<times> byte list)" where
  "stat tsx = (state tsx, core tsx)"

lemma core_updates [simp]:
  "core (tsx\<lparr>state := s\<rparr>) = core tsx" "core (tsx\<lparr>transport_flag := f\<rparr>) = core tsx"
  "core (tsx\<lparr>retransmit_timer := c\<rparr>) = core tsx" "core (tsx\<lparr>timeout_timer := c\<rparr>) = core tsx"
  "core (tsx\<lparr>trace := tr\<rparr>) = core tsx" "core (tsx\<lparr>grp_ref := i\<rparr>) = core tsx"
  "core (tsx\<lparr>tx_refs := q\<rparr>) = core tsx" "core (tsx\<lparr>tp_refs := q\<rparr>) = core tsx"
  "core (tsx\<lparr>transport_err := e\<rparr>) = core tsx" "core (tsx\<lparr>transport := t\<rparr>) = core tsx"
  "core (tsx\<lparr>last_tx := l\<rparr>) = core tsx" "core (tsx\<lparr>status_code := i\<rparr>) = core tsx"
  "core (tsx\<lparr>tx_attached := a\<rparr>) = core tsx" "core (tsx\<lparr>pending_tx := l'\<rparr>) = core tsx"
  "core (tsx\<lparr>retransmit_count := n\<rparr>) = core tsx" "core (tsx\<lparr>addr_len := n\<rparr>) = core tsx"
  "core (tsx\<lparr>res_transport := t\<rparr>) = core tsx" "core (tsx\<lparr>is_reliable := b\<rparr>) = core tsx"
  "core (tsx\<lparr>tsx_user := u\<rparr>) = core tsx" "core (tsx\<lparr>terminating := b\<rparr>) = core tsx"
  by (simp_all add: core_def)

lemma core_state [simp]: "stat a = stat b \<longleftrightarrow> state a = state b \<and> core a = core b"
  by (auto simp: stat_def)

lemma set_cell_frame [simp]:
  "state (set_cell tsx e c) = state tsx" "core (set_cell tsx e c) = core tsx"
  "transport_flag (set_cell tsx e c) = transport_flag tsx"
  "tx_attached (set_cell tsx e c) = tx_attached tsx" "transport_err (set_cell tsx e c) = transport_err tsx"
  by (cases e; simp add: set_cell_def)+

lemma timer_frame [simp]:
  "state (start_timer env e d i tsx) = state tsx" "core (start_timer env e d i tsx) = core tsx"
  "transport_flag (start_timer env e d i tsx) = transport_flag tsx"
  "tx_attached (start_timer env e d i tsx) = tx_attached tsx"
  "transport_err (start_timer env e d i tsx) = transport_err tsx"
  "state (stop_timer e tsx) = state tsx" "core (stop_timer e tsx) = core tsx"
  "transport_flag (stop_timer e tsx) = transport_flag tsx"
  "tx_attached (stop_timer e tsx) = tx_attached tsx"
  "transport_err (stop_timer e tsx) = transport_err tsx"
  by (simp_all add: start_timer_def stop_timer_def tsx_schedule_timer_def tsx_cancel_timer_def)

lemma restart_frame [simp]:
  "state (restart_timeout env d i tsx) = state tsx" "core (restart_timeout env d i tsx) = core tsx"
  "transport_flag (restart_timeout env d i tsx) = transport_flag tsx"
  "tx_attached (restart_timeout env d i tsx) = tx_attached tsx"
  "transport_err (restart_timeout env d i tsx) = transport_err tsx"
  by (simp_all add: restart_timeout_def)

lemma small_frame [simp]:
  "state (emit x tsx) = state tsx" "core (emit x tsx) = core tsx" "transport_flag (emit x tsx) = transport_flag tsx"
  "state (set_flag f tsx) = state tsx" "core (set_flag f tsx) = core tsx"
  "transport_flag (set_flag f tsx) = insert f (transport_flag tsx)"
  "state (clear_flag f tsx) = state tsx" "core (clear_flag f tsx) = core tsx"
  "transport_flag (clear_flag f tsx) = transport_flag tsx - {f}"
  "state (add_grp n tsx) = state tsx" "core (add_grp n tsx) = core tsx" "transport_flag (add_grp n tsx) = transport_flag tsx"
  "state (add_tx_ref p n tsx) = state tsx" "core (add_tx_ref p n tsx) = core tsx"
  "transport_flag (add_tx_ref p n tsx) = transport_flag tsx"
  "state (tsx_set_status_code c tsx) = state tsx" "core (tsx_set_status_code c tsx) = core tsx"
  "transport_flag (tsx_set_status_code c tsx) = transport_flag tsx"
  by (simp_all add: emit_def set_flag_def clear_flag_def add_grp_def add_tx_ref_def tsx_set_status_code_def)

lemma small_attached [simp]:
  "tx_attached (emit x tsx) = tx_attached tsx" "tx_attached (set_flag f tsx) = tx_attached tsx"
  "tx_attached (clear_flag f tsx) = tx_attached tsx" "tx_attached (add_grp n tsx) = tx_attached tsx"
  "tx_attached (add_tx_ref p n tsx) = tx_attached tsx" "tx_attached (tsx_set_status_code c tsx) = tx_attached tsx"
  "transport_err (emit x tsx) = transport_err tsx" "transport_err (set_flag f tsx) = transport_err tsx"
  "transport_err (clear_flag f tsx) = transport_err tsx" "transport_err (add_grp n tsx) = transport_err tsx"
  "transport_err (add_tx_ref p n tsx) = transport_err tsx" "transport_err (tsx_set_status_code c tsx) = transport_err tsx"
  by (simp_all add: emit_def set_flag_def clear_flag_def add_grp_def add_tx_ref_def tsx_set_status_code_def)

lemma transport_frame [simp]:
  "state (tsx_update_transport env tp tsx) = state tsx" "core (tsx_update_transport env tp tsx) = core tsx"
  "tx_attached (tsx_update_transport env tp tsx) = tx_attached tsx"
  by (simp_all add: tsx_update_transport_def tsx_tp_state_callback_def tsx_tp_disconnected_def Let_def split: option.split)

lemma transport_flags:
  "transport_flag (tsx_update_transport env tp tsx) \<subseteq> transport_flag tsx"
  "transport_flag tsx \<subseteq> insert TSX_HAS_PENDING_TRANSPORT (transport_flag (tsx_update_transport env tp tsx))"
  "transport_flag (tsx_update_transport env None tsx) = transport_flag tsx"
  by (auto simp: tsx_update_transport_def tsx_tp_state_callback_def tsx_tp_disconnected_def Let_def split: option.splits)

lemma last_frame [simp]:
  "state (drop_last_tx tsx) = state tsx" "core (drop_last_tx tsx) = core tsx"
  "transport_flag (drop_last_tx tsx) = transport_flag tsx"
  "state (keep_tx td tsx) = state tsx" "core (keep_tx td tsx) = core tsx"
  "transport_flag (keep_tx td tsx) = transport_flag tsx"
  "state (drop_other_tx td tsx) = state tsx" "core (drop_other_tx td tsx) = core tsx"
  "transport_flag (drop_other_tx td tsx) = transport_flag tsx"
  by (simp_all add: drop_last_tx_def keep_tx_def drop_other_tx_def split: option.split)

lemma shutdown_frame [simp]:
  "state (tsx_shutdown env tsx) = state tsx" "core (tsx_shutdown env tsx) = core tsx"
  by (simp_all add: tsx_shutdown_def Let_def)

lemma notify_frame [simp]:
  "state (tsx_notify prev new src rx tsx) = state tsx" "core (tsx_notify prev new src rx tsx) = core tsx"
  "transport_flag (tsx_notify prev new src rx tsx) = transport_flag tsx"
  "tx_attached (tsx_notify prev new src rx tsx) = tx_attached tsx"
  "transport_err (tsx_notify prev new src rx tsx) = transport_err tsx"
  by (simp_all add: tsx_notify_def Let_def split: option.split pjsip_msg.split)

lemma unregister_frame [simp]:
  "state (mod_tsx_layer_unregister_tsx env tsx) = state tsx" "core (mod_tsx_layer_unregister_tsx env tsx) = core tsx"
  "transport_flag (mod_tsx_layer_unregister_tsx env tsx) = transport_flag tsx"
  by (simp_all add: mod_tsx_layer_unregister_tsx_def)

lemma enter_terminated_frame [simp]:
  "state (tsx_enter_terminated env no tsx) = state tsx" "core (tsx_enter_terminated env no tsx) = core tsx"
  "transport_flag (tsx_enter_terminated env no tsx) = transport_flag tsx - {TSX_HAS_PENDING_TRANSPORT}"
  "transport_err (tsx_enter_terminated env no tsx) = transport_err tsx"
  "tx_attached (tsx_enter_terminated env no tsx) p \<Longrightarrow> tx_attached tsx p"
  by (auto simp: tsx_enter_terminated_def Let_def has_flag_def split: option.splits if_splits)

lemma set_state_flags_frame [simp]:
  "state (tsx_set_state_flags env new src rx nn ns tsx) = new"
  "core (tsx_set_state_flags env new src rx nn ns tsx) = core tsx"
  by (simp_all add: tsx_set_state_flags_def Let_def)

lemma set_state_frame [simp]:
  "state (tsx_set_state env new src rx tsx) = new"
  "core (tsx_set_state env new src rx tsx) = core tsx"
  by (simp_all add: tsx_set_state_def)

lemma set_state_flag:
  "new \<noteq> PJSIP_TSX_STATE_DESTROYED \<Longrightarrow> transport_flag (tsx_set_state env new src rx tsx) \<subseteq> transport_flag tsx"
  by (auto simp: tsx_set_state_def tsx_set_state_flags_def Let_def)

lemma resched_frame [simp]:
  "state (tsx_resched_retransmission env tsx) = state tsx" "core (tsx_resched_retransmission env tsx) = core tsx"
  "transport_flag (tsx_resched_retransmission env tsx) = transport_flag tsx"
  "tx_attached (tsx_resched_retransmission env tsx) = tx_attached tsx"
  by (simp_all add: tsx_resched_retransmission_def Let_def)

lemma start_retrans_frame [simp]:
  "state (start_retrans env d tsx) = state tsx" "core (start_retrans env d tsx) = core tsx"
  by (simp_all add: start_retrans_def Let_def)

section \<open>Sending does not move the state, except to terminate\<close>

definition calm :: "pjsip_transaction \<Rightarrow> bool" where
  "calm tsx \<longleftrightarrow> TSX_HAS_PENDING_DESTROY \<notin> transport_flag tsx \<and> state tsx \<noteq> PJSIP_TSX_STATE_DESTROYED"

definition may_end :: "pjsip_transaction \<Rightarrow> pjsip_transaction \<Rightarrow> bool" where
  "may_end a b \<longleftrightarrow> core b = core a \<and> (state b = state a \<or> state b = PJSIP_TSX_STATE_TERMINATED) \<and> (calm a \<longrightarrow> calm b)"

lemma may_end_refl [simp]: "may_end a a"
  by (simp add: may_end_def)

lemma may_end_trans: "may_end a b \<Longrightarrow> may_end b c \<Longrightarrow> may_end a c"
  by (auto simp: may_end_def)

lemma may_end_same:
  "core b = core a \<Longrightarrow> state b = state a \<Longrightarrow> (calm a \<Longrightarrow> TSX_HAS_PENDING_DESTROY \<notin> transport_flag b) \<Longrightarrow> may_end a b"
  by (auto simp: may_end_def calm_def)

lemma may_end_terminated:
  "core b = core a \<Longrightarrow> TSX_HAS_PENDING_DESTROY \<notin> transport_flag b \<or> \<not> calm a \<Longrightarrow>
   may_end a (tsx_set_state env PJSIP_TSX_STATE_TERMINATED src rx b)"
  using set_state_flag[of PJSIP_TSX_STATE_TERMINATED env src rx b] by (auto simp: may_end_def calm_def)

lemma send_direct_may_end:
  "case send_direct env ans tdata tsx of Inl r \<Rightarrow> may_end tsx (snd r) | Inr r \<Rightarrow> may_end tsx (snd r)"
  by (auto simp: send_direct_def Let_def transport_flags calm_def intro!: may_end_same split: option.split)

lemma permanent_may_end: "may_end tsx (snd (send_permanent_error env status tsx))"
  unfolding send_permanent_error_def by (auto simp: calm_def intro!: may_end_terminated)

lemma send_begin_may_end: "may_end tsx (send_begin tdata tsx)"
  by (rule may_end_same) (simp_all add: send_begin_def Let_def calm_def)

lemma send_finish_may_end: "may_end tsx (snd (send_finish env ans tdata tsx))"
  by (rule may_end_same) (auto simp: send_finish_def Let_def calm_def)

lemma callback_sent_frame:
  "state (callback_sent env cur alen tsx) = state tsx" "core (callback_sent env cur alen tsx) = core tsx"
  "transport_flag (callback_sent env cur alen tsx) \<subseteq> insert TSX_HAS_RESOLVED_SERVER (transport_flag tsx)"
  "transport_flag tsx \<subseteq> insert TSX_HAS_PENDING_TRANSPORT (transport_flag (callback_sent env cur alen tsx))"
  using transport_flags(1)[of env cur tsx] transport_flags(2)[of tsx env cur]
  by (auto simp: callback_sent_def Let_def split: option.split)

lemma callback_resched_frame [simp]:
  "state (callback_resched env tsx) = state tsx" "core (callback_resched env tsx) = core tsx"
  "tx_attached (callback_resched env tsx) = tx_attached tsx"
  "f \<in> transport_flag (callback_resched env tsx) \<Longrightarrow> f \<in> transport_flag tsx"
  by (auto simp: callback_resched_def Let_def split: if_splits)

lemma callback_failed_may_end:
  assumes "calm tsx"
  shows "may_end tsx (callback_failed env sent cur cont tdata tsx)"
proof -
  define u where "u = (if cur = transport tsx then tsx_update_transport env None tsx else tsx)"
  define f where "f = set_flag TSX_HAS_RESOLVED_SERVER (clear_flag TSX_HAS_PENDING_TRANSPORT (u\<lparr>transport_err := - sent\<rparr>))"
  have u: "core u = core tsx" "state u = state tsx" "transport_flag u = transport_flag tsx"
    by (simp_all add: u_def transport_flags)
  have nd: "TSX_HAS_PENDING_DESTROY \<notin> transport_flag tsx" using assms by (simp add: calm_def)
  have f: "core f = core tsx" "state f = state tsx" "TSX_HAS_PENDING_DESTROY \<notin> transport_flag f"
    by (simp_all add: f_def u nd)
  have ended: "may_end tsx (tsx_set_state env PJSIP_TSX_STATE_TERMINATED PJSIP_EVENT_TRANSPORT_ERROR None
      (tsx_set_status_code sc f))" for sc
    by (rule may_end_terminated) (simp_all add: f)
  have resched: "may_end tsx (tsx_resched_retransmission env (clear_flag TSX_HAS_PENDING_RESCHED f))"
    by (rule may_end_same) (simp_all add: f)
  have kept: "may_end tsx f" by (rule may_end_same) (simp_all add: f)
  have again: "may_end tsx (add_grp 1 ((if b then restart_timeout env d TIMEOUT_TIMER (u\<lparr>retransmit_count := 0\<rparr>)
      else u\<lparr>retransmit_count := 0\<rparr>)\<lparr>tx_attached := at, pending_tx := Some p\<rparr>))" for b d at p
    by (rule may_end_same) (simp_all add: u nd)
  have n: "\<not> has_flag TSX_HAS_PENDING_DESTROY u" "\<not> has_flag TSX_HAS_PENDING_DESTROY f"
    using nd f by (simp_all add: has_flag_def u)
  show ?thesis
    unfolding callback_failed_def Let_def u_def[symmetric]
    unfolding f_def[symmetric] using n ended resched kept again by (simp only: if_False simp_thms split: if_split)
qed

lemma send_may_end:
  "calm tsx \<Longrightarrow> may_end tsx (snd (tsx_send_msg env se tsx msg))"
  "calm tsx \<Longrightarrow> may_end tsx (send_calls env cs tsx tdata)"
  "calm tsx \<Longrightarrow> may_end tsx (send_msg_callback env c tsx tdata)"
proof (induction env se tsx msg and env cs tsx tdata and env c tsx tdata
    rule: tsx_send_msg_send_calls_send_msg_callback.induct)
  case (1 env tans eans calls tsx msg)
  show ?case
  proof (cases msg)
    case None
    then show ?thesis by (simp add: tsx_send_msg.simps)
  next
    case (Some tdata)
    note d = send_direct_may_end[where env = env and ans = tans and tdata = tdata and tsx = tsx]
    have f: "may_end tsx (set_flag TSX_HAS_PENDING_SEND tsx)"
      by (rule may_end_same) (simp_all add: calm_def)
    show ?thesis
    proof (cases "has_flag TSX_HAS_PENDING_TRANSPORT tsx \<or> te_pending env (td_ptr tdata)")
      case True
      then show ?thesis using f by (auto simp: tsx_send_msg.simps Some)
    next
      case False
      note nf = this
      show ?thesis
      proof (cases "send_direct env tans tdata tsx")
        case (Inl r)
        then show ?thesis using d nf by (simp add: tsx_send_msg.simps Some)
      next
        case (Inr r)
        obtain status tsx1 where r: "r = (status, tsx1)" by (cases r)
        have m: "may_end tsx tsx1" using d Inr r by simp
        have c: "calm (send_begin tdata tsx1)"
          using m "1.prems" send_begin_may_end[of tsx1 tdata] by (auto simp: may_end_def)
        show ?thesis
        proof (cases "role tsx1 = PJSIP_ROLE_UAC \<and> has_flag TSX_HAS_RESOLVED_SERVER tsx1")
          case True
          then show ?thesis using nf may_end_trans[OF m permanent_may_end]
            by (simp add: tsx_send_msg.simps Some Inr r)
        next
          case nr: False
          have "may_end (send_begin tdata tsx1) (send_calls env calls (send_begin tdata tsx1) tdata)"
            by (rule "1.IH"[OF Some _ _ Inr r[symmetric]]) (use nf nr c r in auto)
          then have "may_end tsx (snd (send_finish env eans tdata (send_calls env calls (send_begin tdata tsx1) tdata)))"
            using may_end_trans[OF m may_end_trans[OF send_begin_may_end may_end_trans[OF _ send_finish_may_end]]] by blast
          moreover have "\<not> has_flag TSX_HAS_PENDING_TRANSPORT tsx" "\<not> te_pending env (td_ptr tdata)" using nf by auto
          ultimately show ?thesis
            by (simp only: tsx_send_msg.simps Some Inr r option.case sum.case prod.case if_False if_not_P[OF nr])
        qed
      qed
    qed
  qed
next
  case (3 env c cs tsx tdata)
  have m: "may_end tsx (send_msg_callback env c tsx tdata)" using 3 by blast
  then have "calm (send_msg_callback env c tsx tdata)" using 3 by (simp add: may_end_def)
  then show ?case using 3 m by (auto intro: may_end_trans)
next
  case (4 env sent cur alen cont nested tsx tdata)
  let ?t = "(add_grp (-1) tsx)\<lparr>tx_attached := (tx_attached tsx)(td_ptr tdata := False), pending_tx := None\<rparr>"
  have m: "may_end tsx ?t" by (rule may_end_same) (simp_all add: calm_def)
  have c: "calm ?t" using "4.prems" by (simp add: calm_def)
  let ?s = "callback_sent env cur alen ?t"
  have s: "may_end ?t ?s" using callback_sent_frame(1-3)[of env cur alen ?t]
    by (intro may_end_same) (auto simp: calm_def)
  have cs: "calm ?s" using s c by (simp add: may_end_def)
  have r: "may_end x (callback_resched env x)" for x
    by (rule may_end_same) (auto simp: calm_def)
  have cl: "may_end ?s (clear_flag TSX_HAS_PENDING_SEND ?s)" by (rule may_end_same) (simp_all add: calm_def)
  have ccl: "calm (clear_flag TSX_HAS_PENDING_SEND ?s)" using cs by (simp add: calm_def)
  show ?case
  proof (cases "te_unloaded env \<or> \<not> tx_attached tsx (td_ptr tdata)")
    case True
    then show ?thesis by (auto simp: send_msg_callback.simps)
  next
    case na: False
    show ?thesis
    proof (cases "sent > 0")
      case False
      then show ?thesis using na may_end_trans[OF m callback_failed_may_end[OF c]]
        by (simp add: send_msg_callback.simps Let_def)
    next
      case True
      have nd: "\<not> has_flag TSX_HAS_PENDING_DESTROY ?s" using cs by (simp add: calm_def has_flag_def)
      show ?thesis
      proof (cases "has_flag TSX_HAS_PENDING_SEND ?s")
        case True
        have "may_end (clear_flag TSX_HAS_PENDING_SEND ?s)
            (snd (tsx_send_msg env nested (clear_flag TSX_HAS_PENDING_SEND ?s) (last_tx ?s)))"
          by (rule "4.IH"[OF na refl \<open>sent > 0\<close> refl nd True ccl])
        then show ?thesis
          using na nd True \<open>sent > 0\<close> may_end_trans[OF m may_end_trans[OF s may_end_trans[OF cl may_end_trans[OF _ r]]]]
          by (simp add: send_msg_callback.simps Let_def)
      next
        case False
        then show ?thesis
          using na nd \<open>sent > 0\<close> may_end_trans[OF m may_end_trans[OF s r]]
          by (simp add: send_msg_callback.simps Let_def)
      qed
    qed
  qed
qed simp_all

text \<open>
  Sending answers success only in the state it began in, when no message waits to be sent again and
  no callback reports the result zero, which is neither an error nor a number of bytes.
\<close>

fun sent_nonzero :: "send_call \<Rightarrow> bool" where
  "sent_nonzero (Send_Call sent _ _ _ _) = (sent \<noteq> 0)"

fun answers_ok :: "send_env \<Rightarrow> bool" where
  "answers_ok (Send_Env _ _ calls) = list_all sent_nonzero calls"

definition quiet :: "pjsip_tsx_state_e \<Rightarrow> nat \<Rightarrow> pjsip_transaction \<Rightarrow> bool" where
  "quiet s p tsx \<longleftrightarrow> calm tsx \<and> TSX_HAS_PENDING_SEND \<notin> transport_flag tsx \<and>
     (state tsx = s \<or> (state tsx = PJSIP_TSX_STATE_TERMINATED \<and> transport_err tsx \<noteq> 0 \<and> \<not> tx_attached tsx p))"

lemma terminated_keeps:
  "transport_err (tsx_set_state env PJSIP_TSX_STATE_TERMINATED src rx tsx) = transport_err tsx"
  "tx_attached (tsx_set_state env PJSIP_TSX_STATE_TERMINATED src rx tsx) p \<Longrightarrow> tx_attached tsx p"
  "transport_flag (tsx_set_state env PJSIP_TSX_STATE_TERMINATED src rx tsx) = transport_flag tsx - {TSX_HAS_PENDING_TRANSPORT}"
  by (auto simp: tsx_set_state_def tsx_set_state_flags_def Let_def dest: enter_terminated_frame(5))

lemma quiet_terminated:
  "calm b \<Longrightarrow> TSX_HAS_PENDING_SEND \<notin> transport_flag b \<Longrightarrow> transport_err b \<noteq> 0 \<Longrightarrow> \<not> tx_attached b p \<Longrightarrow>
   quiet s p (tsx_set_state env PJSIP_TSX_STATE_TERMINATED src rx b)"
  by (auto simp: quiet_def calm_def terminated_keeps(1,3) dest: terminated_keeps(2))

lemma callback_failed_quiet:
  assumes "calm tsx" and "TSX_HAS_PENDING_SEND \<notin> transport_flag tsx" and "state tsx = s" and "sent \<noteq> 0"
    and "\<not> tx_attached tsx p"
  shows "quiet s p (callback_failed env sent cur cont tdata tsx)"
proof -
  define u where "u = (if cur = transport tsx then tsx_update_transport env None tsx else tsx)"
  define f where "f = set_flag TSX_HAS_RESOLVED_SERVER (clear_flag TSX_HAS_PENDING_TRANSPORT (u\<lparr>transport_err := - sent\<rparr>))"
  have u: "core u = core tsx" "state u = s" "transport_flag u = transport_flag tsx" "tx_attached u = tx_attached tsx"
    using assms(3) by (simp_all add: u_def transport_flags)
  have nd: "TSX_HAS_PENDING_DESTROY \<notin> transport_flag tsx" "s \<noteq> PJSIP_TSX_STATE_DESTROYED"
    using assms by (simp_all add: calm_def)
  have f: "state f = s" "TSX_HAS_PENDING_DESTROY \<notin> transport_flag f" "TSX_HAS_PENDING_SEND \<notin> transport_flag f"
      "transport_err f \<noteq> 0" "tx_attached f = tx_attached tsx"
    using assms by (simp_all add: f_def u nd)
  have ended: "quiet s p (tsx_set_state env PJSIP_TSX_STATE_TERMINATED PJSIP_EVENT_TRANSPORT_ERROR None
      (tsx_set_status_code sc f))" for sc
    using assms(5) by (intro quiet_terminated) (simp_all add: f calm_def nd)
  have resched: "quiet s p (tsx_resched_retransmission env (clear_flag TSX_HAS_PENDING_RESCHED f))"
    by (simp add: quiet_def calm_def f nd)
  have kept: "quiet s p f" by (simp add: quiet_def calm_def f nd)
  have again: "quiet s p (add_grp 1 ((if b then restart_timeout env d TIMEOUT_TIMER (u\<lparr>retransmit_count := 0\<rparr>)
      else u\<lparr>retransmit_count := 0\<rparr>)\<lparr>tx_attached := at, pending_tx := Some q\<rparr>))" for b d at q
    using assms(2) by (simp add: quiet_def calm_def u nd)
  have n: "\<not> has_flag TSX_HAS_PENDING_DESTROY u" "\<not> has_flag TSX_HAS_PENDING_DESTROY f"
    using nd f by (simp_all add: has_flag_def u)
  show ?thesis
    unfolding callback_failed_def Let_def u_def[symmetric]
    unfolding f_def[symmetric] using n ended resched kept again by (simp only: if_False simp_thms split: if_split)
qed

lemma callback_quiet:
  assumes "quiet s (td_ptr tdata) tsx" and "sent_nonzero c"
  shows "quiet s (td_ptr tdata) (send_msg_callback env c tsx tdata)"
proof -
  obtain sent cur alen cont nested where c: "c = Send_Call sent cur alen cont nested" by (cases c)
  let ?p = "td_ptr tdata"
  let ?t = "(add_grp (-1) tsx)\<lparr>tx_attached := (tx_attached tsx)(?p := False), pending_tx := None\<rparr>"
  show ?thesis
  proof (cases "te_unloaded env \<or> \<not> tx_attached tsx ?p")
    case True
    then show ?thesis using assms by (auto simp: c send_msg_callback.simps)
  next
    case na: False
    then have s: "state tsx = s" "calm tsx" "TSX_HAS_PENDING_SEND \<notin> transport_flag tsx"
      using assms(1) by (auto simp: quiet_def)
    show ?thesis
    proof (cases "sent > 0")
      case True
      have n: "\<not> has_flag TSX_HAS_PENDING_DESTROY (callback_sent env cur alen ?t)"
          "\<not> has_flag TSX_HAS_PENDING_SEND (callback_sent env cur alen ?t)"
        using callback_sent_frame(3)[of env cur alen ?t] s by (auto simp: has_flag_def calm_def)
      then have "quiet s ?p (callback_resched env (callback_sent env cur alen ?t))"
        using s by (auto simp: quiet_def calm_def callback_sent_frame has_flag_def dest!: callback_resched_frame(4))
      then show ?thesis using na True n by (simp add: c send_msg_callback.simps Let_def)
    next
      case False
      have "quiet s ?p (callback_failed env sent cur cont tdata ?t)"
        using s assms(2) by (intro callback_failed_quiet) (simp_all add: calm_def c)
      then show ?thesis using na False by (simp add: c send_msg_callback.simps Let_def)
    qed
  qed
qed

lemma calls_quiet:
  "quiet s (td_ptr tdata) tsx \<Longrightarrow> list_all sent_nonzero cs \<Longrightarrow> quiet s (td_ptr tdata) (send_calls env cs tsx tdata)"
  by (induction cs arbitrary: tsx) (simp_all add: callback_quiet)

lemma send_success:
  assumes "answers_ok se" and "calm tsx" and "state tsx < PJSIP_TSX_STATE_TERMINATED"
    and "TSX_HAS_PENDING_SEND \<in> transport_flag tsx \<Longrightarrow> TSX_HAS_PENDING_TRANSPORT \<in> transport_flag tsx"
    and "fst (tsx_send_msg env se tsx msg) = PJ_SUCCESS"
  shows "state (snd (tsx_send_msg env se tsx msg)) = state tsx"
proof -
  obtain tans eans calls where se: "se = Send_Env tans eans calls" by (cases se)
  obtain tdata where msg: "msg = Some tdata" using assms(5) by (cases msg) (auto simp: se tsx_send_msg.simps)
  show ?thesis
  proof (cases "has_flag TSX_HAS_PENDING_TRANSPORT tsx \<or> te_pending env (td_ptr tdata)")
    case True
    then show ?thesis by (auto simp: se msg tsx_send_msg.simps)
  next
    case False
    note nf = this
    then have ns: "TSX_HAS_PENDING_SEND \<notin> transport_flag tsx" using assms(4) by (auto simp: has_flag_def)
    show ?thesis
    proof (cases "send_direct env tans tdata tsx")
      case (Inl r)
      then have "state (snd r) = state tsx" by (auto simp: send_direct_def Let_def split: option.splits if_splits)
      then show ?thesis using nf Inl by (simp add: se msg tsx_send_msg.simps)
    next
      case (Inr r)
      obtain status tsx1 where r: "r = (status, tsx1)" by (cases r)
      have d: "state tsx1 = state tsx" "transport_flag tsx1 \<subseteq> transport_flag tsx"
        using Inr by (auto simp: send_direct_def Let_def r transport_flags split: option.splits if_splits)
      show ?thesis
      proof (cases "role tsx1 = PJSIP_ROLE_UAC \<and> has_flag TSX_HAS_RESOLVED_SERVER tsx1")
        case True
        then show ?thesis using nf assms(5)
          by (auto simp: se msg tsx_send_msg.simps Inr r send_permanent_error_def split: if_splits)
      next
        case nr: False
        let ?b = "send_begin tdata tsx1" let ?c = "send_calls env calls ?b tdata"
        have "quiet (state tsx) (td_ptr tdata) ?b"
          using d ns assms(2) by (auto simp: quiet_def calm_def send_begin_def Let_def)
        then have q: "quiet (state tsx) (td_ptr tdata) ?c" using assms(1) by (simp add: se calls_quiet)
        have e: "tsx_send_msg env se tsx msg = send_finish env eans tdata ?c"
          using nf by (simp only: se msg tsx_send_msg.simps Inr r option.case sum.case prod.case if_not_P[OF nr]) simp
        then show ?thesis using assms(5) q unfolding e
          by (auto simp: send_finish_def Let_def quiet_def split: if_splits)
      qed
    qed
  qed
qed

section \<open>The state diagrams of RFC 3261\<close>

text \<open>
  The steps of section 17 of the RFC (with the states the code adds: NULL before the first message,
  DESTROYED after TERMINATED), for a role and for INVITE or not. Every state may end in TERMINATED,
  on a timeout, a transport error, or, for INVITE, a 2xx.
\<close>

inductive rfc_step :: "pjsip_role_e \<Rightarrow> bool \<Rightarrow> pjsip_tsx_state_e \<Rightarrow> pjsip_tsx_state_e \<Rightarrow> bool" where
  uac_request: "rfc_step PJSIP_ROLE_UAC i PJSIP_TSX_STATE_NULL PJSIP_TSX_STATE_CALLING"
| uac_1xx: "rfc_step PJSIP_ROLE_UAC i PJSIP_TSX_STATE_CALLING PJSIP_TSX_STATE_PROCEEDING"
| uac_final: "s = PJSIP_TSX_STATE_CALLING \<or> s = PJSIP_TSX_STATE_PROCEEDING \<Longrightarrow>
    rfc_step PJSIP_ROLE_UAC i s PJSIP_TSX_STATE_COMPLETED"
| uas_request: "rfc_step PJSIP_ROLE_UAS i PJSIP_TSX_STATE_NULL PJSIP_TSX_STATE_TRYING"
| uas_1xx: "rfc_step PJSIP_ROLE_UAS i PJSIP_TSX_STATE_TRYING PJSIP_TSX_STATE_PROCEEDING"
| uas_final: "s = PJSIP_TSX_STATE_TRYING \<or> s = PJSIP_TSX_STATE_PROCEEDING \<Longrightarrow>
    rfc_step PJSIP_ROLE_UAS i s PJSIP_TSX_STATE_COMPLETED"
| uas_ack: "rfc_step PJSIP_ROLE_UAS True PJSIP_TSX_STATE_COMPLETED PJSIP_TSX_STATE_CONFIRMED"
| terminate: "s < PJSIP_TSX_STATE_TERMINATED \<Longrightarrow> rfc_step r i s PJSIP_TSX_STATE_TERMINATED"
| destroy: "rfc_step r i PJSIP_TSX_STATE_TERMINATED PJSIP_TSX_STATE_DESTROYED"

inductive_simps rfc_step_from_null: "rfc_step r i PJSIP_TSX_STATE_NULL s"
inductive_simps rfc_step_from_destroyed: "rfc_step r i PJSIP_TSX_STATE_DESTROYED s"

fun legal_state :: "pjsip_role_e \<Rightarrow> pjsip_tsx_state_e \<Rightarrow> bool" where
  "legal_state PJSIP_ROLE_UAC s = (s \<noteq> PJSIP_TSX_STATE_TRYING \<and> s \<noteq> PJSIP_TSX_STATE_CONFIRMED)"
| "legal_state PJSIP_ROLE_UAS s = (s \<noteq> PJSIP_TSX_STATE_CALLING)"

lemma rfc_step_less: "rfc_step r i s s' \<Longrightarrow> s < s'"
  by (induction rule: rfc_step.induct) (auto simp: state_order)

lemma rfc_step_legal: "rfc_step r i s s' \<Longrightarrow> legal_state r s \<Longrightarrow> legal_state r s'"
  by (induction rule: rfc_step.induct) (auto intro: legal_state.cases elim: legal_state.elims)

lemma terminated_legal [simp]:
  "legal_state r PJSIP_TSX_STATE_TERMINATED" "legal_state r PJSIP_TSX_STATE_DESTROYED"
  by (cases r; simp)+

definition advances :: "pjsip_transaction \<Rightarrow> pjsip_transaction \<Rightarrow> bool" where
  "advances a b \<longleftrightarrow> core b = core a \<and>
     (state b = state a \<or> rfc_step (role a) (invite a) (state a) (state b))"

lemma advances_refl [simp]: "advances a a"
  by (simp add: advances_def)

lemma advances_same: "core b = core a \<Longrightarrow> state b = state a \<Longrightarrow> advances a b"
  by (simp add: advances_def)

lemma advances_from: "core a = core a' \<Longrightarrow> state a = state a' \<Longrightarrow> advances a b \<Longrightarrow> advances a' b"
  using coreD[of a a'] by (auto simp: advances_def)

lemma advances_to:
  "core b = core a \<Longrightarrow> new = state a \<or> rfc_step (role a) (invite a) (state a) new \<Longrightarrow>
   advances a (tsx_set_state env new src rx b)"
  by (auto simp: advances_def)

lemma advances_terminated:
  "core b = core a \<Longrightarrow> state a < PJSIP_TSX_STATE_TERMINATED \<Longrightarrow>
   advances a (tsx_set_state env PJSIP_TSX_STATE_TERMINATED src rx b)"
  by (simp add: advances_to rfc_step.terminate)

lemma may_end_advances: "may_end a b \<Longrightarrow> state a < PJSIP_TSX_STATE_TERMINATED \<Longrightarrow> advances a b"
  by (auto simp: may_end_def advances_def intro: rfc_step.terminate)

text \<open>
  A transaction between operations: a message waits to be sent again only while the transport is
  pending and the transaction is not destroyed, and only a destroyed one waits for its transport.
\<close>

definition flags_ok :: "pjsip_transaction \<Rightarrow> bool" where
  "flags_ok tsx \<longleftrightarrow>
     (TSX_HAS_PENDING_SEND \<in> transport_flag tsx \<longrightarrow> TSX_HAS_PENDING_TRANSPORT \<in> transport_flag tsx) \<and>
     (TSX_HAS_PENDING_DESTROY \<in> transport_flag tsx \<longrightarrow> state tsx = PJSIP_TSX_STATE_DESTROYED) \<and>
     (TSX_HAS_PENDING_SEND \<in> transport_flag tsx \<longrightarrow> state tsx \<noteq> PJSIP_TSX_STATE_DESTROYED)"

lemma running_calm: "flags_ok tsx \<Longrightarrow> state tsx < PJSIP_TSX_STATE_TERMINATED \<Longrightarrow> calm tsx"
  by (auto simp: flags_ok_def calm_def state_order)

lemma send_advances:
  assumes "flags_ok tsx" and "state tsx < PJSIP_TSX_STATE_TERMINATED"
    and "core tsx = core tsx0" and "state tsx = state tsx0"
  shows "advances tsx0 (snd (tsx_send_msg env se tsx msg))"
  using may_end_advances[OF send_may_end(1)[OF running_calm[OF assms(1,2)]] assms(2)] assms(3,4)
  by (rule advances_from[rotated 2])

lemma send_ok_state:
  assumes "tsx_send_msg env se tsx msg = (PJ_SUCCESS, tsx')" and "answers_ok se" and "flags_ok tsx"
    and "state tsx < PJSIP_TSX_STATE_TERMINATED"
  shows "state tsx' = state tsx" and "core tsx' = core tsx"
  using send_success[OF assms(2) running_calm[OF assms(3,4)] assms(4), of env msg] assms
    send_may_end(1)[OF running_calm[OF assms(3,4)], of env se msg]
  by (auto simp: flags_ok_def may_end_def)

section \<open>Every handler takes a step of the diagram\<close>

text \<open>The shared shape: a handler runs on a transaction of this state, between operations.\<close>

definition ready :: "pjsip_transaction \<Rightarrow> pjsip_tsx_state_e \<Rightarrow> pjsip_transaction \<Rightarrow> bool" where
  "ready tsx0 s tsx \<longleftrightarrow> core tsx = core tsx0 \<and> state tsx0 = s \<and> state tsx = s \<and> flags_ok tsx"

lemma ready_update:
  "ready tsx0 s tsx \<Longrightarrow> core tsx' = core tsx \<Longrightarrow> state tsx' = state tsx \<Longrightarrow>
   (TSX_HAS_PENDING_SEND \<in> transport_flag tsx' \<longleftrightarrow> TSX_HAS_PENDING_SEND \<in> transport_flag tsx) \<Longrightarrow>
   (TSX_HAS_PENDING_TRANSPORT \<in> transport_flag tsx' \<longleftrightarrow> TSX_HAS_PENDING_TRANSPORT \<in> transport_flag tsx) \<Longrightarrow>
   (TSX_HAS_PENDING_DESTROY \<in> transport_flag tsx' \<longleftrightarrow> TSX_HAS_PENDING_DESTROY \<in> transport_flag tsx) \<Longrightarrow>
   ready tsx0 s tsx'"
  by (auto simp: ready_def flags_ok_def)

lemma ready_send:
  assumes "ready tsx0 s tsx" and "s < PJSIP_TSX_STATE_TERMINATED"
  shows "advances tsx0 (snd (tsx_send_msg env se tsx msg))"
  using send_advances[of tsx tsx0 env se msg] assms by (simp add: ready_def)

lemma ready_sent:
  assumes "ready tsx0 s tsx" and "s < PJSIP_TSX_STATE_TERMINATED" and "answers_ok se"
    and "tsx_send_msg env se tsx msg = (PJ_SUCCESS, tsx')"
  shows "state tsx' = s" and "core tsx' = core tsx0"
  using send_ok_state[OF assms(4,3)] assms(1,2) by (simp_all add: ready_def)

lemma retransmit_advances:
  assumes "ready tsx0 s tsx" and "s < PJSIP_TSX_STATE_TERMINATED"
  shows "advances tsx0 (snd (tsx_retransmit env se re tsx))"
proof (cases "last_tx tsx")
  case None
  then show ?thesis using assms by (auto simp: tsx_retransmit_def ready_def intro!: advances_same)
next
  case (Some td)
  let ?t1 = "tsx\<lparr>retransmit_count := retransmit_count tsx + 1\<rparr>"
  let ?t2 = "if re then (if has_flag TSX_HAS_PENDING_TRANSPORT ?t1 then set_flag TSX_HAS_PENDING_RESCHED ?t1
     else tsx_resched_retransmission env ?t1) else ?t1"
  have r1: "ready tsx0 s ?t1" by (rule ready_update[OF assms(1)]) simp_all
  have "ready tsx0 s (set_flag TSX_HAS_PENDING_RESCHED ?t1)" "ready tsx0 s (tsx_resched_retransmission env ?t1)"
    by (rule ready_update[OF r1]; simp)+
  then have "ready tsx0 s ?t2" using r1 by (simp only: simp_thms split: if_split)
  from ready_send[OF this assms(2)]
  have a: "advances tsx0 (snd (tsx_send_msg env se ?t2 (last_tx ?t2)))" .
  obtain st t3 where t3: "tsx_send_msg env se ?t2 (last_tx ?t2) = (st, t3)" by (rule prod.exhaust)
  have "advances tsx0 t3" using a by (simp only: t3 snd_conv)
  moreover have "advances tsx0 (set_flag TSX_HAS_PENDING_RESCHED (stop_timer Retransmit_Timer t3))"
    using calculation by (simp add: advances_def)
  moreover have "advances tsx0 tsx" "advances tsx0 (restart_timeout env d i tsx)" for d i
    using assms(1) by (auto simp: ready_def intro!: advances_same)
  ultimately show ?thesis
    unfolding tsx_retransmit_def Some option.case Let_def t3 prod.case by (simp only: snd_conv simp_thms split: if_split)
qed

lemma null_advances:
  assumes "ready tsx0 PJSIP_TSX_STATE_NULL tsx" and "answers_ok se"
  shows "advances tsx0 (snd (tsx_on_state_null env se event tsx))"
proof (cases "role tsx = PJSIP_ROLE_UAS")
  case True
  then have "role tsx0 = PJSIP_ROLE_UAS" using assms(1) by (metis ready_def coreD(1))
  then show ?thesis using True assms(1)
    by (auto simp: tsx_on_state_null_def ready_def intro!: advances_to rfc_step.intros)
next
  case False
  then have r: "role tsx0 = PJSIP_ROLE_UAC" using assms(1) by (metis ready_def coreD(1) pjsip_role_e.exhaust)
  show ?thesis
  proof (cases event)
    case (Tx_Event td)
    let ?t = "keep_tx td (drop_other_tx td tsx)"
    have rd: "ready tsx0 PJSIP_TSX_STATE_NULL ?t" by (rule ready_update[OF assms(1)]) simp_all
    obtain st t2 where t2: "tsx_send_msg env se ?t (Some td) = (st, t2)" by (rule prod.exhaust)
    have a: "advances tsx0 t2" using ready_send[OF rd, of env se "Some td"] by (simp add: t2 state_order)
    have c: "core t2 = core tsx0" if "st = PJ_SUCCESS"
      using ready_sent(2)[OF rd _ assms(2)] t2 that by (simp add: state_order)
    have s: "state tsx0 = PJSIP_TSX_STATE_NULL" using assms(1) by (simp add: ready_def)
    show ?thesis using False a c
      by (auto simp: tsx_on_state_null_def Tx_Event t2 Let_def r s intro!: advances_to rfc_step.intros)
  qed (use assms False in \<open>auto simp: tsx_on_state_null_def ready_def intro!: advances_same\<close>)
qed

lemma ready_same: "ready tsx0 s tsx \<Longrightarrow> core b = core tsx \<Longrightarrow> state b = state tsx \<Longrightarrow> advances tsx0 b"
  by (simp add: ready_def advances_same)

lemma ready_to:
  "ready tsx0 s tsx \<Longrightarrow> core b = core tsx0 \<Longrightarrow> new = s \<or> rfc_step (role tsx0) (invite tsx0) s new \<Longrightarrow>
   advances tsx0 (tsx_set_state env new src rx b)"
  by (auto simp: ready_def intro: advances_to)

lemma ready_core: "ready tsx0 s tsx \<Longrightarrow> core tsx = core tsx0"
  by (simp add: ready_def)

lemma restart_advances: "advances a b \<Longrightarrow> advances a (restart_timeout env d i b)"
  by (simp add: advances_def)

text \<open>The client side, before the final response.\<close>

definition uac_open :: "pjsip_transaction \<Rightarrow> pjsip_tsx_state_e \<Rightarrow> bool" where
  "uac_open tsx0 s \<longleftrightarrow> role tsx0 = PJSIP_ROLE_UAC \<and> (s = PJSIP_TSX_STATE_CALLING \<or> s = PJSIP_TSX_STATE_PROCEEDING)"

lemma uac_open_steps:
  assumes "uac_open tsx0 s"
  shows "s < PJSIP_TSX_STATE_TERMINATED"
    and "PJSIP_TSX_STATE_PROCEEDING = s \<or> rfc_step (role tsx0) (invite tsx0) s PJSIP_TSX_STATE_PROCEEDING"
    and "rfc_step (role tsx0) (invite tsx0) s PJSIP_TSX_STATE_COMPLETED"
    and "rfc_step (role tsx0) (invite tsx0) s PJSIP_TSX_STATE_TERMINATED"
  using assms by (auto simp: uac_open_def state_order intro: rfc_step.intros)

lemma uac_final_error_advances:
  assumes "ready tsx0 s tsx" and "uac_open tsx0 s" and "answers_ok se"
  shows "advances tsx0 (snd (uac_final_error env se event tsx))"
proof -
  define t where "t = stop_timer Timeout_Timer (stop_timer Retransmit_Timer tsx)"
  have t: "ready tsx0 s t" unfolding t_def by (rule ready_update[OF assms(1)]) simp_all
  have ta: "ready tsx0 s (add_tx_ref p 1 t)" for p by (rule ready_update[OF t]) simp_all
  have c: "advances tsx0 (restart_timeout env d TIMEOUT_TIMER (tsx_set_state env PJSIP_TSX_STATE_COMPLETED PJSIP_EVENT_RX_MSG rx b))"
    if "core b = core tsx0" for d rx b
    using ready_to[OF t that] uac_open_steps(3)[OF assms(2)] by (simp add: restart_advances)
  have e: "advances tsx0 (tsx_set_state env PJSIP_TSX_STATE_TERMINATED PJSIP_EVENT_RX_MSG rx t)" for rx
    by (rule ready_to[OF t ready_core[OF t]]) (simp add: uac_open_steps[OF assms(2)])
  have k: "advances tsx0 t" by (rule ready_same[OF t]) simp_all
  have a: "advances tsx0 (snd (let (status, tsx1) = tsx_send_msg env se (add_tx_ref (td_ptr ack) 1 t) (Some ack)
         in if status \<noteq> PJ_SUCCESS then (status, tsx1)
            else let tsx2 = tsx_set_state env PJSIP_TSX_STATE_COMPLETED PJSIP_EVENT_RX_MSG (rx_of event) tsx1;
                     tsx3 = (if map_option td_ptr (last_tx tsx2) \<noteq> Some (td_ptr ack)
                             then (drop_last_tx tsx2)\<lparr>last_tx := Some ack\<rparr> else tsx2)
                 in (PJ_SUCCESS, restart_timeout env (completed_delay env tsx3) TIMEOUT_TIMER tsx3)))" for ack
  proof -
    obtain st t1 where t1: "tsx_send_msg env se (add_tx_ref (td_ptr ack) 1 t) (Some ack) = (st, t1)" by (rule prod.exhaust)
    have "advances tsx0 t1" using ready_send[OF ta uac_open_steps(1)[OF assms(2)], of env se "td_ptr ack" "Some ack"] by (simp add: t1)
    moreover have "core t1 = core tsx0" if "st = PJ_SUCCESS"
      using ready_sent(2)[OF ta uac_open_steps(1)[OF assms(2)] assms(3)] t1 that by simp
    moreover have "advances tsx0 (tsx_set_state env PJSIP_TSX_STATE_COMPLETED PJSIP_EVENT_RX_MSG rx t1)"
      if "core t1 = core tsx0" for rx
      using ready_to[OF t that] uac_open_steps(3)[OF assms(2)] by simp
    ultimately show ?thesis by (simp add: t1 Let_def restart_advances advances_def split: if_split)
  qed
  show ?thesis
    unfolding uac_final_error_def Let_def t_def[symmetric]
    using a[unfolded Let_def] c[OF ready_core[OF t]] e k
    by (auto split: sum.split simp del: restart_frame)
qed

lemma uac_success_advances:
  assumes "ready tsx0 s tsx" and "uac_open tsx0 s"
  shows "advances tsx0 (snd (uac_success env se event tsx))"
  unfolding uac_success_def Let_def
  using ready_core[OF assms(1)] uac_open_steps[OF assms(2)]
  by (auto intro!: ready_to[OF assms(1)])

lemma uac_by_code_advances:
  assumes "ready tsx0 s tsx" and "uac_open tsx0 s" and "answers_ok se"
  shows "advances tsx0 (snd (proceeding_uac_by_code env se event tsx))"
  unfolding proceeding_uac_by_code_def
  using ready_core[OF assms(1)] uac_open_steps[OF assms(2)] uac_success_advances[OF assms(1,2)]
    uac_final_error_advances[OF assms] ready_same[OF assms(1)]
  by (auto intro!: ready_to[OF assms(1)])

lemma proceeding_uac_advances:
  assumes "ready tsx0 s tsx" and "uac_open tsx0 s" and "answers_ok se"
  shows "advances tsx0 (snd (tsx_on_state_proceeding_uac env se event tsx))"
proof -
  have "ready tsx0 s (tsx_set_status_code code tsx)" for code by (rule ready_update[OF assms(1)]) simp_all
  from uac_by_code_advances[OF this assms(2,3)] show ?thesis
    using retransmit_advances[OF assms(1) uac_open_steps(1)[OF assms(2)]] ready_same[OF assms(1)]
    by (auto simp: tsx_on_state_proceeding_uac_def split: pjsip_event.split pjsip_msg.split tsx_timer.split)
qed

lemma calling_timers_frame [simp]:
  "core (calling_response_timers env code tsx) = core tsx" "state (calling_response_timers env code tsx) = state tsx"
  "transport_flag (calling_response_timers env code tsx) = transport_flag tsx"
  by (simp_all add: calling_response_timers_def Let_def)

lemma calling_advances:
  assumes "ready tsx0 PJSIP_TSX_STATE_CALLING tsx" and "role tsx0 = PJSIP_ROLE_UAC" and "answers_ok se"
  shows "advances tsx0 (snd (tsx_on_state_calling env se event tsx))"
proof -
  have o: "uac_open tsx0 PJSIP_TSX_STATE_CALLING" using assms(2) by (simp add: uac_open_def)
  have "ready tsx0 PJSIP_TSX_STATE_CALLING (clear_flag TSX_HAS_PENDING_RESCHED (calling_response_timers env code tsx))" for code
    by (rule ready_update[OF assms(1)]) simp_all
  from proceeding_uac_advances[OF this o assms(3)] show ?thesis
    using retransmit_advances[OF assms(1) uac_open_steps(1)[OF o]] ready_same[OF assms(1)] ready_core[OF assms(1)]
      uac_open_steps(4)[OF o]
    by (auto simp: tsx_on_state_calling_def Let_def intro!: ready_to[OF assms(1)]
        split: pjsip_event.split pjsip_msg.split tsx_timer.split)
qed

text \<open>The server side, before the final response was sent.\<close>

definition uas_open :: "pjsip_transaction \<Rightarrow> pjsip_tsx_state_e \<Rightarrow> bool" where
  "uas_open tsx0 s \<longleftrightarrow> role tsx0 = PJSIP_ROLE_UAS \<and> (s = PJSIP_TSX_STATE_TRYING \<or> s = PJSIP_TSX_STATE_PROCEEDING)"

lemma uas_open_steps:
  assumes "uas_open tsx0 s"
  shows "s < PJSIP_TSX_STATE_TERMINATED"
    and "PJSIP_TSX_STATE_PROCEEDING = s \<or> rfc_step (role tsx0) (invite tsx0) s PJSIP_TSX_STATE_PROCEEDING"
    and "rfc_step (role tsx0) (invite tsx0) s PJSIP_TSX_STATE_COMPLETED"
    and "rfc_step (role tsx0) (invite tsx0) s PJSIP_TSX_STATE_TERMINATED"
  using assms by (auto simp: uas_open_def state_order intro: rfc_step.intros)

lemma advances_retrans: "advances a b \<Longrightarrow> advances a (start_retrans env d (stop_timer e b))"
  by (simp add: advances_def)

lemma uas_response_advances:
  assumes "ready tsx0 s tsx" and "uas_open tsx0 s" and "core b = core tsx0"
  shows "advances tsx0 (uas_provisional env tdata b)" and "advances tsx0 (uas_success env tdata b)"
    and "advances tsx0 (uas_failure env tdata m b)"
proof -
  note st = uas_open_steps[OF assms(2)]
  have "advances tsx0 (tsx_set_state env PJSIP_TSX_STATE_PROCEEDING PJSIP_EVENT_TX_MSG None (keep_tx tdata b))"
    by (rule ready_to[OF assms(1)]) (simp_all add: assms(3) st)
  then show "advances tsx0 (uas_provisional env tdata b)"
    by (simp add: uas_provisional_def Let_def advances_retrans)
  show "advances tsx0 (uas_success env tdata b)"
    using assms(3) st by (auto simp: uas_success_def Let_def intro!: ready_to[OF assms(1)])
  show "advances tsx0 (uas_failure env tdata m b)"
    using assms(3) st by (auto simp: uas_failure_def Let_def intro!: ready_to[OF assms(1)])
qed

lemma proceeding_uas_advances:
  assumes "ready tsx0 s tsx" and "uas_open tsx0 s" and "answers_ok se"
  shows "advances tsx0 (snd (tsx_on_state_proceeding_uas env se event tsx))"
proof -
  note st = uas_open_steps[OF assms(2)]
  have k: "advances tsx0 tsx" "advances tsx0 (set_flag f tsx)" for f by (rule ready_same[OF assms(1)]; simp)+
  have e: "advances tsx0 (tsx_set_state env PJSIP_TSX_STATE_TERMINATED PJSIP_EVENT_TIMER None (tsx_set_status_code c tsx))" for c
    by (rule ready_to[OF assms(1)]) (simp_all add: ready_core[OF assms(1)] st)
  show ?thesis
  proof (cases event)
    case (Tx_Event tdata)
    show ?thesis
    proof (cases "td_msg tdata")
      case (Response_Msg code m)
      let ?t = "drop_other_tx tdata (tsx_set_status_code code tsx)"
      have rd: "ready tsx0 s ?t" by (rule ready_update[OF assms(1)]) simp_all
      obtain sta t2 where t2: "tsx_send_msg env se ?t (Some tdata) = (sta, t2)" by (rule prod.exhaust)
      have a: "advances tsx0 t2" using ready_send[OF rd st(1), of env se "Some tdata"] by (simp add: t2)
      have c: "core t2 = core tsx0" if "sta = PJ_SUCCESS"
        using ready_sent(2)[OF rd st(1) assms(3)] t2 that by simp
      show ?thesis using a uas_response_advances[OF assms(1,2) c]
        by (simp add: tsx_on_state_proceeding_uas_def Tx_Event Response_Msg Let_def t2)
    qed (simp add: tsx_on_state_proceeding_uas_def Tx_Event k)
  next
    case (Timer_Event e)
    then show ?thesis using k e \<open>\<And>c. advances tsx0 (tsx_set_state env PJSIP_TSX_STATE_TERMINATED PJSIP_EVENT_TIMER None (tsx_set_status_code c tsx))\<close>
      retransmit_advances[OF assms(1) st(1)]
      by (cases e) (simp_all add: tsx_on_state_proceeding_uas_def)
  next
    case (Rx_Event r)
    then show ?thesis using k ready_send[OF assms(1) st(1)] by (simp add: tsx_on_state_proceeding_uas_def)
  qed
qed

lemma trying_advances:
  assumes "ready tsx0 PJSIP_TSX_STATE_TRYING tsx" and "role tsx0 = PJSIP_ROLE_UAS" and "answers_ok se"
  shows "advances tsx0 (snd (tsx_on_state_trying env se event tsx))"
proof -
  have o: "uas_open tsx0 PJSIP_TSX_STATE_TRYING" using assms(2) by (simp add: uas_open_def)
  obtain st t1 where t1: "tsx_on_state_proceeding_uas env se event tsx = (st, t1)" by (rule prod.exhaust)
  have a: "advances tsx0 t1" using proceeding_uas_advances[OF assms(1) o assms(3), of env event] by (simp add: t1)
  then have "core t1 = core tsx0" by (simp add: advances_def)
  then have "advances tsx0 (tsx_set_state env PJSIP_TSX_STATE_PROCEEDING PJSIP_EVENT_TX_MSG None t1)"
    using ready_to[OF assms(1)] uas_open_steps(2)[OF o] by simp
  then show ?thesis using a t1 ready_same[OF assms(1)]
    by (auto simp: tsx_on_state_trying_def split: pjsip_event.split)
qed

lemma completed_uas_advances:
  assumes "ready tsx0 PJSIP_TSX_STATE_COMPLETED tsx" and "role tsx0 = PJSIP_ROLE_UAS"
  shows "advances tsx0 (snd (tsx_on_state_completed_uas env se event tsx))"
proof -
  have s: "PJSIP_TSX_STATE_COMPLETED < PJSIP_TSX_STATE_TERMINATED" by (simp add: state_order)
  have i: "invite tsx = invite tsx0" using ready_core[OF assms(1)] by (rule coreD)
  show ?thesis
    using ready_same[OF assms(1)] ready_core[OF assms(1)] retransmit_advances[OF assms(1) s] assms(2) i
    by (auto simp: tsx_on_state_completed_uas_def Let_def intro!: ready_to[OF assms(1)] rfc_step.terminate s
        intro: rfc_step.uas_ack split: pjsip_event.split pjsip_msg.split tsx_timer.split)
qed

lemma completed_uac_advances:
  assumes "ready tsx0 PJSIP_TSX_STATE_COMPLETED tsx"
  shows "advances tsx0 (snd (tsx_on_state_completed_uac env se event tsx))"
proof -
  have s: "PJSIP_TSX_STATE_COMPLETED < PJSIP_TSX_STATE_TERMINATED" by (simp add: state_order)
  show ?thesis
    using ready_same[OF assms] ready_core[OF assms] retransmit_advances[OF assms s]
    by (auto simp: tsx_on_state_completed_uac_def intro!: ready_to[OF assms] rfc_step.terminate s
        split: pjsip_event.split pjsip_msg.split tsx_timer.split)
qed

lemma confirmed_advances:
  assumes "ready tsx0 PJSIP_TSX_STATE_CONFIRMED tsx"
  shows "advances tsx0 (snd (tsx_on_state_confirmed env se event tsx))"
proof -
  have s: "PJSIP_TSX_STATE_CONFIRMED < PJSIP_TSX_STATE_TERMINATED" by (simp add: state_order)
  show ?thesis
    using ready_same[OF assms] ready_core[OF assms]
    by (auto simp: tsx_on_state_confirmed_def intro!: ready_to[OF assms] rfc_step.terminate s
        split: pjsip_event.split pjsip_msg.split tsx_timer.split)
qed

lemma terminated_advances:
  assumes "ready tsx0 PJSIP_TSX_STATE_TERMINATED tsx"
  shows "advances tsx0 (snd (tsx_on_state_terminated env se event tsx))"
  using ready_same[OF assms] ready_core[OF assms]
  by (auto simp: tsx_on_state_terminated_def intro!: ready_to[OF assms] rfc_step.destroy split: pjsip_event.split)

lemma destroyed_advances:
  assumes "ready tsx0 PJSIP_TSX_STATE_DESTROYED tsx"
  shows "advances tsx0 (snd (tsx_on_state_destroyed env se event tsx))"
  using ready_same[OF assms] by (simp add: tsx_on_state_destroyed_def)

lemma dispatch_advances:
  assumes "ready tsx0 (state tsx0) tsx" and "answers_ok se" and "legal_state (role tsx0) (state tsx0)"
  shows "\<exists>status tsx'. tsx_dispatch env se event tsx = Some (status, tsx') \<and> advances tsx0 tsx'"
proof -
  have r: "role tsx = role tsx0" "state tsx = state tsx0" using assms(1) by (auto simp: ready_def dest: coreD)
  have d: "\<exists>status tsx'. x = (status, tsx') \<and> advances tsx0 tsx'" if "advances tsx0 (snd x)" for x
    using that by (cases x) auto
  note h = d[OF null_advances[OF _ assms(2)]] d[OF calling_advances[OF _ _ assms(2)]]
    d[OF proceeding_uac_advances[where s = PJSIP_TSX_STATE_PROCEEDING, OF _ _ assms(2)]] d[OF trying_advances[OF _ _ assms(2)]]
    d[OF proceeding_uas_advances[where s = PJSIP_TSX_STATE_PROCEEDING, OF _ _ assms(2)]] d[OF completed_uas_advances] d[OF completed_uac_advances]
    d[OF confirmed_advances] d[OF terminated_advances] d[OF destroyed_advances]
  show ?thesis
    using assms(1,3) r
    by (cases "role tsx0"; cases "state tsx0"; simp add: tsx_dispatch_def)
      (rule h; (assumption | simp add: uac_open_def uas_open_def))+
qed

lemma callback_advances:
  assumes "flags_ok tsx" and "legal_state (role tsx) (state tsx)" and "answers_ok se"
  shows "\<exists>tsx'. tsx_timer_callback env se e tsx = Some tsx' \<and> advances tsx tsx'"
proof -
  have f: "core (set_timer_id e 0 tsx) = core tsx" "state (set_timer_id e 0 tsx) = state tsx"
      "transport_flag (set_timer_id e 0 tsx) = transport_flag tsx"
    by (simp_all add: set_timer_id_def)
  have d: "\<exists>tsx'. map_option snd (tsx_dispatch env se (Timer_Event e) (set_timer_id e 0 tsx)) = Some tsx' \<and> advances tsx tsx'"
    using dispatch_advances[of tsx "set_timer_id e 0 tsx" se env "Timer_Event e"] assms f
    by (auto simp: ready_def flags_ok_def)
  have t: "advances tsx (snd (pjsip_tsx_terminate env c tsx))" for c
    by (auto simp: pjsip_tsx_terminate_def intro!: advances_terminated)
  have "advances tsx (tsx_transport_error env b (set_timer_id e 0 tsx))" for b
    by (auto simp: tsx_transport_error_def Let_def f advances_def
        intro: rfc_step.terminate split: option.split)
  then show ?thesis using d t by (simp add: tsx_timer_callback_def Let_def)
qed

text \<open>The callbacks of the transport layer, when they come between operations.\<close>

lemma state_last: "\<not> s < PJSIP_TSX_STATE_TERMINATED \<Longrightarrow> s \<noteq> PJSIP_TSX_STATE_DESTROYED \<Longrightarrow> s = PJSIP_TSX_STATE_TERMINATED"
  by (cases s) (auto simp: state_order)

lemma calm_may_end_advances:
  assumes "may_end a b" and "calm a"
  shows "advances a b"
proof (cases "state a < PJSIP_TSX_STATE_TERMINATED")
  case False
  then have "state a = PJSIP_TSX_STATE_TERMINATED" using assms(2) by (simp add: state_last calm_def)
  then show ?thesis using assms(1) by (auto simp: may_end_def advances_def)
qed (simp add: may_end_advances assms)

lemma callback_failed_destroyed:
  assumes "state tsx = PJSIP_TSX_STATE_DESTROYED"
  shows "state (callback_failed env sent cur cont tdata tsx) = PJSIP_TSX_STATE_DESTROYED \<and>
    core (callback_failed env sent cur cont tdata tsx) = core tsx"
proof -
  define u where "u = (if cur = transport tsx then tsx_update_transport env None tsx else tsx)"
  have u: "core u = core tsx" "state u = PJSIP_TSX_STATE_DESTROYED" by (simp_all add: u_def assms)
  show ?thesis unfolding callback_failed_def Let_def u_def[symmetric] by (simp add: u)
qed

lemma send_callback_advances:
  assumes "flags_ok tsx"
  shows "advances tsx (send_msg_callback env c tsx tdata)"
proof (cases "state tsx = PJSIP_TSX_STATE_DESTROYED")
  case True
  let ?t = "(add_grp (-1) tsx)\<lparr>tx_attached := (tx_attached tsx)(td_ptr tdata := False), pending_tx := None\<rparr>"
  obtain sent cur alen cont nested where c: "c = Send_Call sent cur alen cont nested" by (cases c)
  have "TSX_HAS_PENDING_SEND \<notin> transport_flag (callback_sent env cur alen ?t)"
    using callback_sent_frame(3)[of env cur alen ?t] assms True by (auto simp: flags_ok_def)
  moreover have "core (callback_failed env sent cur cont tdata ?t) = core tsx"
      "state (callback_failed env sent cur cont tdata ?t) = PJSIP_TSX_STATE_DESTROYED"
    using callback_failed_destroyed[of ?t env sent cur cont tdata] True by simp_all
  ultimately show ?thesis using True
    by (simp add: c send_msg_callback.simps Let_def has_flag_def callback_sent_frame advances_def)
next
  case False
  then have "calm tsx" using assms by (auto simp: calm_def flags_ok_def)
  then show ?thesis by (intro calm_may_end_advances send_may_end(3))
qed

lemma transport_callback_advances:
  assumes "flags_ok tsx"
  shows "advances tsx (transport_callback env se sent tsx)"
proof -
  define t where "t = clear_flag TSX_HAS_PENDING_TRANSPORT tsx"
  have t: "core t = core tsx" "state t = state tsx" "transport_flag t = transport_flag tsx - {TSX_HAS_PENDING_TRANSPORT}"
    by (simp_all add: t_def)
  have d: "advances tsx (tsx_set_state env PJSIP_TSX_STATE_DESTROYED PJSIP_EVENT_UNKNOWN None t)"
    if "has_flag TSX_HAS_PENDING_DESTROY t"
    using that assms by (intro advances_to) (auto simp: t has_flag_def flags_ok_def)
  define r where "r = (if has_flag TSX_HAS_PENDING_SEND t
      then snd (tsx_send_msg env se (clear_flag TSX_HAS_PENDING_SEND t) (last_tx t)) else t)"
  have r: "advances tsx r"
  proof (cases "has_flag TSX_HAS_PENDING_SEND t")
    case True
    then have c: "calm (clear_flag TSX_HAS_PENDING_SEND t)" using assms by (auto simp: calm_def flags_ok_def t has_flag_def)
    show ?thesis using calm_may_end_advances[OF send_may_end(1)[OF c] c] True
      by (simp add: r_def) (rule advances_from[of "clear_flag TSX_HAS_PENDING_SEND t"]; simp add: t)
  qed (simp add: r_def advances_same t)
  show ?thesis
    unfolding transport_callback_def Let_def t_def[symmetric]
    unfolding r_def[symmetric] using r d by (auto simp: advances_def t)
qed

definition follows_rfc :: "pjsip_transaction \<Rightarrow> pjsip_transaction \<Rightarrow> bool" where
  "follows_rfc tsx tsx' \<longleftrightarrow>
     (state tsx' = state tsx \<or> rfc_step (role tsx) (invite tsx) (state tsx) (state tsx')) \<and>
     state tsx \<le> state tsx' \<and> legal_state (role tsx') (state tsx') \<and>
     role tsx' = role tsx \<and> tsx_method tsx' = tsx_method tsx"

lemma advances_follows:
  "advances tsx tsx' \<Longrightarrow> legal_state (role tsx) (state tsx) \<Longrightarrow> follows_rfc tsx tsx'"
  using coreD[of tsx' tsx] by (auto simp: advances_def follows_rfc_def dest: rfc_step_less rfc_step_legal)

section \<open>Times in milliseconds\<close>

lemma msec_time_parts: "r < 1000 \<Longrightarrow> msec_time (q * 1000 + r) = Time_Val (int q) (int r)"
  by (simp add: msec_time_def)

lemma msec_time_cases:
  obtains q r where "n = q * 1000 + r" and "r < (1000::nat)"
  using div_mult_mod_eq[of n 1000] mod_less_divisor[of 1000 n] by (metis zero_less_numeral)

lemma add_msec_time [simp]: "PJ_TIME_VAL_ADD (msec_time a) (msec_time b) = msec_time (a + b)"
proof -
  obtain p r where a: "a = p * 1000 + r" "r < 1000" by (rule msec_time_cases)
  obtain q s where b: "b = q * 1000 + s" "s < 1000" by (rule msec_time_cases)
  show ?thesis
  proof (cases "r + s < 1000")
    case True
    have ab: "a + b = (p + q) * 1000 + (r + s)" using a b by simp
    show ?thesis unfolding ab unfolding a(1) b(1) msec_time_parts[OF True] msec_time_parts[OF a(2)] msec_time_parts[OF b(2)]
      using True by (auto simp: PJ_TIME_VAL_ADD_def pj_time_val_normalize_def carry_msec_def)
  next
    case False
    then have ab: "a + b = (p + q + 1) * 1000 + (r + s - 1000)" and l: "r + s - 1000 < 1000" using a b by auto
    obtain k where k: "r + s = 1000 + k" "k < 1000" using False l by (metis add_diff_inverse_nat)
    have i: "int r + int s = 1000 + int k" using k(1) by linarith
    have "(1000 + int k) div 1000 = 1" using k(2) by simp
    then show ?thesis unfolding ab unfolding a(1) b(1) msec_time_parts[OF l] msec_time_parts[OF a(2)] msec_time_parts[OF b(2)]
      using k by (simp add: PJ_TIME_VAL_ADD_def pj_time_val_normalize_def carry_msec_def i crem_def)
  qed
qed

lemma msec_time_zero: "Time_Val 0 0 = msec_time 0"
  by (simp add: msec_time_def)

lemma msec_time_le [simp]: "msec_time a \<le> msec_time b \<longleftrightarrow> a \<le> b"
proof -
  obtain p r where a: "a = p * 1000 + r" "r < 1000" by (rule msec_time_cases)
  obtain q s where b: "b = q * 1000 + s" "s < 1000" by (rule msec_time_cases)
  show ?thesis unfolding a(1) b(1) msec_time_parts[OF a(2)] msec_time_parts[OF b(2)]
    using a(2) b(2) by auto
qed

lemma msec_time_inj [simp]: "msec_time a = msec_time b \<longleftrightarrow> a = b"
  by (metis msec_time_le order_antisym order_refl)

section \<open>The end of a transaction\<close>

definition report :: "pjsip_transaction \<Rightarrow> pjsip_tsx_state_e \<Rightarrow> pjsip_tsx_state_e \<Rightarrow> pjsip_event_id_e \<Rightarrow> tsx_out list" where
  "report tsx new prev src =
     (case tsx_user tsx of None \<Rightarrow> [] | Some u \<Rightarrow> if has_on_tsx_state u then [On_Tsx_State new prev src] else [])"

lemma notify_plain: "tsx_notify prev new src None tsx = tsx\<lparr>trace := trace tsx @ report tsx new prev src\<rparr>"
  by (simp add: tsx_notify_def report_def emit_def split: option.split)

text \<open>The operations on one field, written so that they do not branch on the whole record.\<close>

definition stopped :: "timer_cell \<Rightarrow> timer_cell" where
  "stopped c = (if tm_expiry c = None then c else \<lparr>tm_id = 0, tm_expiry = None\<rparr>)"

definition drop_ref :: "nat option \<Rightarrow> (nat \<Rightarrow> int) \<Rightarrow> nat \<Rightarrow> int" where
  "drop_ref p f = (case p of None \<Rightarrow> f | Some x \<Rightarrow> f(x := f x - 1))"

lemma stopped_expiry [simp]: "tm_expiry (stopped c) = None"
  by (simp add: stopped_def)

lemma stop_timer_cell:
  "stop_timer Retransmit_Timer tsx = tsx\<lparr>retransmit_timer := stopped (retransmit_timer tsx)\<rparr>"
  "stop_timer Timeout_Timer tsx = tsx\<lparr>timeout_timer := stopped (timeout_timer tsx)\<rparr>"
  by (simp_all add: stop_timer_def tsx_cancel_timer_def tsx_cell_def set_cell_def stopped_def)

lemma restart_timeout_cell:
  "restart_timeout env d i tsx = tsx\<lparr>timeout_timer := \<lparr>tm_id = i, tm_expiry = Some (PJ_TIME_VAL_ADD (te_now env) d)\<rparr>\<rparr>"
  by (simp add: restart_timeout_def start_timer_def tsx_schedule_timer_def stop_timer_cell tsx_cell_def set_cell_def)

lemma drop_last_cell:
  "drop_last_tx tsx = tsx\<lparr>last_tx := None, tx_refs := drop_ref (map_option td_ptr (last_tx tsx)) (tx_refs tsx)\<rparr>"
  by (cases "last_tx tsx") (simp_all add: drop_last_tx_def add_tx_ref_def drop_ref_def)

lemma no_transport_cell:
  "tsx_update_transport env None tsx = tsx\<lparr>transport := None, tp_refs := drop_ref (transport tsx) (tp_refs tsx)\<rparr>"
  by (cases "transport tsx") (simp_all add: tsx_update_transport_def drop_ref_def)

text \<open>What entering TERMINATED leaves: the timeout timer, due at once, and no message on the way.\<close>

lemma terminated_result:
  fixes env :: tsx_env and tsx :: pjsip_transaction and src :: pjsip_event_id_e
  assumes "new = PJSIP_TSX_STATE_TERMINATED"
  defines "t \<equiv> tsx_set_state env new src None tsx"
  shows "timeout_timer t = \<lparr>tm_id = TIMEOUT_TIMER, tm_expiry = Some (PJ_TIME_VAL_ADD (te_now env) (Time_Val 0 0))\<rparr>"
    and "trace t = trace tsx @ report tsx new (state tsx) src"
    and "tsx_user t = tsx_user tsx" and "terminating t = terminating tsx" and "status_code t = status_code tsx"
    and "transport t = transport tsx" and "last_tx t = last_tx tsx" and "tx_refs t = tx_refs tsx" and "tp_refs t = tp_refs tsx"
    and "grp_ref t = (if TSX_HAS_PENDING_TRANSPORT \<in> transport_flag tsx \<and> pending_tx tsx \<noteq> None then grp_ref tsx - 1 else grp_ref tsx)"
proof -
  have e: "t = restart_timeout env (Time_Val 0 0) TIMEOUT_TIMER
     (if has_flag TSX_HAS_PENDING_TRANSPORT tsx then
        clear_flag TSX_HAS_PENDING_TRANSPORT
          (case pending_tx tsx of None \<Rightarrow> tsx\<lparr>state := new, trace := trace tsx @ report tsx new (state tsx) src\<rparr>
           | Some p \<Rightarrow> add_grp (-1) (tsx\<lparr>state := new, trace := trace tsx @ report tsx new (state tsx) src,
                                           tx_attached := (tx_attached tsx)(p := False), pending_tx := None\<rparr>))
      else tsx\<lparr>state := new, trace := trace tsx @ report tsx new (state tsx) src\<rparr>)"
    unfolding t_def assms(1) tsx_set_state_def tsx_set_state_flags_def Let_def
    by (cases "pending_tx tsx") (simp_all add: notify_plain tsx_enter_terminated_def restart_timeout_def has_flag_def report_def)
  show "timeout_timer t = \<lparr>tm_id = TIMEOUT_TIMER, tm_expiry = Some (PJ_TIME_VAL_ADD (te_now env) (Time_Val 0 0))\<rparr>"
    by (simp add: e restart_timeout_cell)
  show "trace t = trace tsx @ report tsx new (state tsx) src" "tsx_user t = tsx_user tsx" "terminating t = terminating tsx"
    "status_code t = status_code tsx" "transport t = transport tsx" "last_tx t = last_tx tsx" "tx_refs t = tx_refs tsx"
    "tp_refs t = tp_refs tsx"
    "grp_ref t = (if TSX_HAS_PENDING_TRANSPORT \<in> transport_flag tsx \<and> pending_tx tsx \<noteq> None then grp_ref tsx - 1 else grp_ref tsx)"
    by (cases "TSX_HAS_PENDING_TRANSPORT \<in> transport_flag tsx"; cases "pending_tx tsx";
        simp add: e restart_timeout_cell clear_flag_def add_grp_def has_flag_def)+
qed

lemma shutdown_cell:
  assumes "TSX_HAS_PENDING_TRANSPORT \<notin> transport_flag tsx"
  shows "tsx_shutdown env tsx = tsx
    \<lparr>transport := None, tp_refs := drop_ref (transport tsx) (tp_refs tsx),
     last_tx := None, tx_refs := drop_ref (map_option td_ptr (last_tx tsx)) (tx_refs tsx),
     timeout_timer := stopped (timeout_timer tsx), retransmit_timer := stopped (retransmit_timer tsx),
     transport_flag := transport_flag tsx - {TSX_HAS_PENDING_RESCHED} - {TSX_HAS_PENDING_SEND},
     terminating := True, grp_ref := if terminating tsx then grp_ref tsx else grp_ref tsx - 1\<rparr>"
  using assms by (simp add: tsx_shutdown_def Let_def stop_timer_cell no_transport_cell drop_last_cell clear_flag_def has_flag_def add_grp_def)

lemma destroyed_eq:
  "tsx_set_state env PJSIP_TSX_STATE_DESTROYED src None tsx = tsx_shutdown env (tsx\<lparr>state := PJSIP_TSX_STATE_DESTROYED,
     trace := trace tsx @ report tsx PJSIP_TSX_STATE_DESTROYED (state tsx) src @ (if te_unloaded env then [] else [Unregister])\<rparr>)"
  by (simp add: tsx_set_state_def tsx_set_state_flags_def Let_def notify_plain mod_tsx_layer_unregister_tsx_def report_def emit_def)

lemma destroyed_result:
  fixes env :: tsx_env and tsx :: pjsip_transaction and src :: pjsip_event_id_e
  assumes "TSX_HAS_PENDING_TRANSPORT \<notin> transport_flag tsx"
  defines "t \<equiv> tsx_set_state env PJSIP_TSX_STATE_DESTROYED src None tsx"
  shows "tm_expiry (timeout_timer t) = None" and "tm_expiry (retransmit_timer t) = None"
    and "transport t = None" and "last_tx t = None" and "terminating t"
    and "trace t = trace tsx @ report tsx PJSIP_TSX_STATE_DESTROYED (state tsx) src @ (if te_unloaded env then [] else [Unregister])"
    and "grp_ref t = (if terminating tsx then grp_ref tsx else grp_ref tsx - 1)"
    and "tx_refs t = drop_ref (map_option td_ptr (last_tx tsx)) (tx_refs tsx)"
    and "tp_refs t = drop_ref (transport tsx) (tp_refs tsx)"
  unfolding t_def destroyed_eq using assms(1) by (simp_all add: shutdown_cell)

section \<open>The retransmission schedule\<close>

text \<open>Time passes from one expiry to the next: the timer that is due first, and the run of the first \<open>n\<close>.\<close>

definition next_timer :: "pjsip_transaction \<Rightarrow> (tsx_timer \<times> pj_time_val) option" where
  "next_timer tsx =
     (case (tm_expiry (retransmit_timer tsx), tm_expiry (timeout_timer tsx)) of
        (None, None) \<Rightarrow> None
      | (Some r, None) \<Rightarrow> Some (Retransmit_Timer, r)
      | (None, Some t) \<Rightarrow> Some (Timeout_Timer, t)
      | (Some r, Some t) \<Rightarrow> Some (if r \<le> t then (Retransmit_Timer, r) else (Timeout_Timer, t)))"

fun timer_run :: "nat \<Rightarrow> tsx_env \<Rightarrow> send_env \<Rightarrow> pjsip_transaction \<Rightarrow> pj_time_val list \<times> pjsip_transaction" where
  "timer_run 0 env se tsx = ([], tsx)"
| "timer_run (Suc n) env se tsx =
     (case next_timer tsx of
        None \<Rightarrow> ([], tsx)
      | Some (e, t) \<Rightarrow>
          (case tsx_poll_timer (env\<lparr>te_now := t\<rparr>) se e tsx of
             None \<Rightarrow> ([], tsx)
           | Some tsx1 \<Rightarrow> let (ts, tsx2) = timer_run n env se tsx1 in (t # ts, tsx2)))"

text \<open>A client transaction that waits for a response, over an unreliable transport that is known.\<close>

definition client_waits :: "pjsip_tx_data \<Rightarrow> nat \<Rightarrow> nat \<Rightarrow> nat \<Rightarrow> nat \<Rightarrow> tsx_out list \<Rightarrow> pjsip_transaction \<Rightarrow> bool" where
  "client_waits td tp k r w tr tsx \<longleftrightarrow>
     (state tsx = PJSIP_TSX_STATE_CALLING \<and> role tsx = PJSIP_ROLE_UAC \<and> status_code tsx < 100 \<and> \<not> is_reliable tsx) \<and>
     (transport tsx = Some tp \<and> transport_flag tsx = {TSX_HAS_RESOLVED_SERVER}) \<and>
     (last_tx tsx = Some td \<and> retransmit_count tsx = k \<and> trace tsx = tr) \<and>
     retransmit_timer tsx = \<lparr>tm_id = RETRANSMIT_TIMER, tm_expiry = Some (msec_time r)\<rparr> \<and>
     timeout_timer tsx = \<lparr>tm_id = TIMEOUT_TIMER, tm_expiry = Some (msec_time w)\<rparr>"

definition interval :: "bool \<Rightarrow> nat \<Rightarrow> nat" where
  "interval i k = (let t = 2 ^ k * 500 :: nat in if \<not> i \<and> t > 4000 then 4000 else t)"

lemma interval_time:
  assumes "k \<le> 20" and "role tsx = PJSIP_ROLE_UAC" and "status_code tsx < 100" and "te_cfg env = default_cfg"
    and "retransmit_count tsx = k" and "tm_expiry (retransmit_timer tsx) = None" and "te_now env = msec_time r"
  shows "tsx_resched_retransmission env tsx
    = tsx\<lparr>retransmit_timer := \<lparr>tm_id = RETRANSMIT_TIMER, tm_expiry = Some (msec_time (r + interval (invite tsx) k))\<rparr>\<rparr>"
proof -
  have "(2::nat) ^ k \<le> 2 ^ 20" using assms(1) by (rule power_increasing) simp
  then have b: "(2::nat) ^ k * 500 < 4294967296" by simp
  have u: "u32 (2 ^ k * 500) = 2 ^ k * 500" using u32_nat[OF b] by simp
  have p: "(2::nat) ^ k * 500 \<noteq> 0" by simp
  show ?thesis using assms p
    by (auto simp: tsx_resched_retransmission_def Let_def default_cfg_def u interval_def invite_def start_timer_def
        tsx_schedule_timer_def tsx_cell_def set_cell_def)
qed

abbreviation "all_sent \<equiv> Send_Env PJ_SUCCESS PJ_SUCCESS []"

lemma direct_send:
  assumes "transport tsx = Some tp" and "transport_flag tsx = {TSX_HAS_RESOLVED_SERVER}" and "\<not> te_pending env (td_ptr td)"
  shows "tsx_send_msg env all_sent tsx (Some td) = (PJ_SUCCESS, tsx\<lparr>trace := trace tsx @ [Transport_Send tp td]\<rparr>)"
proof -
  have "tsx\<lparr>transport_flag := {TSX_HAS_RESOLVED_SERVER}\<rparr> = tsx" using assms(2) by simp
  then show ?thesis using assms
    by (simp add: tsx_send_msg.simps has_flag_def send_direct_def Let_def emit_def set_flag_def clear_flag_def add_grp_def
        insert_Diff_if)
qed

lemma client_step:
  assumes "client_waits td tp k r w tr tsx" and "k < 20" and "te_cfg env = default_cfg" and "\<not> te_pending env (td_ptr td)"
  shows "\<exists>tsx'. tsx_poll_timer (env\<lparr>te_now := msec_time r\<rparr>) all_sent Retransmit_Timer tsx = Some tsx' \<and>
    client_waits td tp (k + 1) (r + interval (invite tsx) (k + 1)) w (tr @ [Transport_Send tp td]) tsx' \<and>
    invite tsx' = invite tsx \<and> tsx_user tsx' = tsx_user tsx"
proof -
  let ?e = "env\<lparr>te_now := msec_time r\<rparr>"
  define c where "c = tsx\<lparr>retransmit_timer := \<lparr>tm_id = 0, tm_expiry = None\<rparr>\<rparr>"
  define d where "d = c\<lparr>retransmit_count := k + 1,
    retransmit_timer := \<lparr>tm_id = RETRANSMIT_TIMER, tm_expiry = Some (msec_time (r + interval (invite tsx) (k + 1)))\<rparr>\<rparr>"
  note w = assms(1)[unfolded client_waits_def]
  have c: "last_tx c = Some td" "retransmit_count c = k" "transport_flag c = {TSX_HAS_RESOLVED_SERVER}"
      "tm_expiry (retransmit_timer c) = None" "invite c = invite tsx"
    using w by (simp_all add: c_def invite_def)
  have "tsx_resched_retransmission ?e (c\<lparr>retransmit_count := k + 1\<rparr>) = d"
    using w assms(2,3) by (subst interval_time[where k = "k + 1" and r = r]) (simp_all add: c_def d_def invite_def)
  moreover have "tsx_send_msg ?e all_sent d (Some td) = (PJ_SUCCESS, d\<lparr>trace := tr @ [Transport_Send tp td]\<rparr>)"
    using w assms(4) by (subst direct_send) (simp_all add: d_def c_def)
  moreover have "max_retrans_count (te_cfg ?e) = -1" using assms(3) by (simp add: default_cfg_def)
  moreover have "last_tx d = Some td" "transport_flag d = {TSX_HAS_RESOLVED_SERVER}" using c by (simp_all add: d_def)
  ultimately have "tsx_retransmit ?e all_sent True c = (PJ_SUCCESS, d\<lparr>trace := tr @ [Transport_Send tp td]\<rparr>)"
    using c by (simp add: tsx_retransmit_def Let_def has_flag_def)
  moreover have "tsx_poll_timer ?e all_sent Retransmit_Timer tsx = map_option snd (Some (tsx_retransmit ?e all_sent True c))"
    using w by (simp add: tsx_poll_timer_def timer_due_def tsx_cell_def set_cell_def tsx_timer_callback_def Let_def
        set_timer_id_def tsx_dispatch_def tsx_on_state_calling_def c_def state_order)
  moreover have "client_waits td tp (k + 1) (r + interval (invite tsx) (k + 1)) w (tr @ [Transport_Send tp td])
      (d\<lparr>trace := tr @ [Transport_Send tp td]\<rparr>)"
    using w by (simp add: client_waits_def d_def c_def)
  ultimately show ?thesis by (auto simp: d_def c_def invite_def)
qed

lemma client_timeout:
  assumes "client_waits td tp k r w tr tsx"
  shows "\<exists>tsx'. tsx_poll_timer (env\<lparr>te_now := msec_time w\<rparr>) se Timeout_Timer tsx = Some tsx' \<and>
    state tsx' = PJSIP_TSX_STATE_TERMINATED \<and> status_code tsx' = PJSIP_SC_REQUEST_TIMEOUT \<and>
    trace tsx' = tr @ report tsx PJSIP_TSX_STATE_TERMINATED PJSIP_TSX_STATE_CALLING PJSIP_EVENT_TIMER"
proof -
  let ?e = "env\<lparr>te_now := msec_time w\<rparr>"
  note w = assms(1)[unfolded client_waits_def]
  define c where "c = tsx_set_status_code PJSIP_SC_TSX_TIMEOUT (clear_flag TSX_HAS_PENDING_RESCHED
    (stop_timer Retransmit_Timer (tsx\<lparr>timeout_timer := \<lparr>tm_id = 0, tm_expiry = None\<rparr>\<rparr>)))"
  have "tsx_poll_timer ?e se Timeout_Timer tsx = Some (tsx_set_state ?e PJSIP_TSX_STATE_TERMINATED PJSIP_EVENT_TIMER None c)"
    using w by (simp add: tsx_poll_timer_def timer_due_def tsx_cell_def set_cell_def tsx_timer_callback_def Let_def
        set_timer_id_def tsx_dispatch_def tsx_on_state_calling_def c_def state_order)
  moreover have "trace c = tr" "state c = PJSIP_TSX_STATE_CALLING" "report c = report tsx" "status_code c = PJSIP_SC_REQUEST_TIMEOUT"
    using w by (simp_all add: c_def fun_eq_iff report_def tsx_set_status_code_def clear_flag_def stop_timer_cell)
  ultimately show ?thesis by (simp add: terminated_result)
qed

text \<open>The expiry times of the retransmission timer from the one at \<open>r\<close>, and the one after them.\<close>

fun due_times :: "bool \<Rightarrow> nat \<Rightarrow> nat \<Rightarrow> nat \<Rightarrow> nat list" where
  "due_times i r k 0 = []"
| "due_times i r k (Suc n) = r # due_times i (r + interval i (k + 1)) (k + 1) n"

fun due_after :: "bool \<Rightarrow> nat \<Rightarrow> nat \<Rightarrow> nat \<Rightarrow> nat" where
  "due_after i r k 0 = r"
| "due_after i r k (Suc n) = due_after i (r + interval i (k + 1)) (k + 1) n"

lemma client_run:
  assumes "client_waits td tp k r w tr tsx" and "k + n < 20" and "te_cfg env = default_cfg" and "\<not> te_pending env (td_ptr td)"
    and "\<forall>t\<in>set (due_times (invite tsx) r k n). t \<le> w" and "w < due_after (invite tsx) r k n"
  shows "\<exists>tsx'. timer_run (Suc n) env all_sent tsx = (map msec_time (due_times (invite tsx) r k n @ [w]), tsx') \<and>
    state tsx' = PJSIP_TSX_STATE_TERMINATED \<and> status_code tsx' = PJSIP_SC_REQUEST_TIMEOUT \<and>
    trace tsx' = tr @ replicate n (Transport_Send tp td) @ report tsx PJSIP_TSX_STATE_TERMINATED PJSIP_TSX_STATE_CALLING PJSIP_EVENT_TIMER"
  using assms
proof (induction n arbitrary: k r tr tsx)
  case 0
  have "next_timer tsx = Some (Timeout_Timer, msec_time w)"
    using 0 by (auto simp: next_timer_def client_waits_def)
  then show ?case using client_timeout[OF "0.prems"(1), of env all_sent] by auto
next
  case (Suc n)
  have t: "next_timer tsx = Some (Retransmit_Timer, msec_time r)"
    using Suc.prems by (simp add: next_timer_def client_waits_def)
  obtain tsx1 where s: "tsx_poll_timer (env\<lparr>te_now := msec_time r\<rparr>) all_sent Retransmit_Timer tsx = Some tsx1"
      "client_waits td tp (k + 1) (r + interval (invite tsx) (k + 1)) w (tr @ [Transport_Send tp td]) tsx1"
      "invite tsx1 = invite tsx" "tsx_user tsx1 = tsx_user tsx"
    using client_step[OF Suc.prems(1) _ Suc.prems(3,4)] Suc.prems(2) by auto
  have "report tsx1 = report tsx" using s(4) by (simp add: fun_eq_iff report_def)
  then show ?case using Suc.IH[OF s(2) _ Suc.prems(3,4)] Suc.prems(2,5,6) s(3)
    by (auto simp: t s(1) simp del: timer_run.simps(2) simp add: timer_run.simps(2)[of "Suc n"])
qed

definition rfc_schedule :: "bool \<Rightarrow> nat list" where
  "rfc_schedule i = (if i then [500, 1500, 3500, 7500, 15500, 31500]
     else [500, 1500, 3500, 7500, 11500, 15500, 19500, 23500, 27500, 31500])"

section \<open>Properties\<close>


text \<open>C25: terminating a transaction reports the state and arms the timeout timer, due at once; until it
  fires, messages are ignored and nothing changes; the poll that fires it reports DESTROYED, unregisters the
  transaction, stops both timers, and gives up the transport, the saved message and, once, the group lock.\<close>

theorem tsx_terminate_then_destroy:
  assumes "200 \<le> code" and "state tsx < PJSIP_TSX_STATE_TERMINATED" and "te_now env = msec_time n"
    and "te_now env' = msec_time m" and "n \<le> m"
  shows "\<exists>t1 t2. pjsip_tsx_terminate env code tsx = (PJ_SUCCESS, t1) \<and>
    state t1 = PJSIP_TSX_STATE_TERMINATED \<and> status_code t1 = code \<and>
    trace t1 = trace tsx @ report tsx PJSIP_TSX_STATE_TERMINATED (state tsx) PJSIP_EVENT_USER \<and>
    tsx_dispatch env' se (Tx_Event td) t1 = Some (PJ_EIGNORED, t1) \<and>
    tsx_dispatch env' se (Rx_Event rd) t1 = Some (PJ_EIGNORED, t1) \<and>
    tsx_poll_timer env' se Timeout_Timer t1 = Some t2 \<and> state t2 = PJSIP_TSX_STATE_DESTROYED \<and>
    trace t2 = trace t1 @ report tsx PJSIP_TSX_STATE_DESTROYED PJSIP_TSX_STATE_TERMINATED PJSIP_EVENT_TIMER @
      (if te_unloaded env' then [] else [Unregister]) \<and>
    tm_expiry (timeout_timer t2) = None \<and> tm_expiry (retransmit_timer t2) = None \<and>
    transport t2 = None \<and> tp_refs t2 = drop_ref (transport tsx) (tp_refs tsx) \<and>
    last_tx t2 = None \<and> tx_refs t2 = drop_ref (map_option td_ptr (last_tx tsx)) (tx_refs tsx) \<and>
    terminating t2 \<and> grp_ref t2 = (if terminating tsx then grp_ref t1 else grp_ref t1 - 1)"
proof -
  define t0 where "t0 = tsx_set_status_code code tsx"
  define t1 where "t1 = tsx_set_state env PJSIP_TSX_STATE_TERMINATED PJSIP_EVENT_USER None t0"
  have t0: "tsx_user t0 = tsx_user tsx" "terminating t0 = terminating tsx" "transport t0 = transport tsx"
      "last_tx t0 = last_tx tsx" "tx_refs t0 = tx_refs tsx" "tp_refs t0 = tp_refs tsx" "trace t0 = trace tsx"
      "state t0 = state tsx" "status_code t0 = code"
    by (simp_all add: t0_def tsx_set_status_code_def)
  note r = terminated_result[OF refl, of env PJSIP_EVENT_USER t0, folded t1_def, unfolded t0]
  have s: "state t1 = PJSIP_TSX_STATE_TERMINATED" by (simp add: t1_def)
  have f: "TSX_HAS_PENDING_TRANSPORT \<notin> transport_flag t1" by (simp add: t1_def terminated_keeps(3))
  have h: "tsx_dispatch env' se ev x = Some (tsx_on_state_terminated env' se ev x)" if "state x = PJSIP_TSX_STATE_TERMINATED" for ev x
    using that by (simp add: tsx_dispatch_def)
  define c where "c = t1\<lparr>timeout_timer := \<lparr>tm_id = 0, tm_expiry = None\<rparr>\<rparr>"
  define t2 where "t2 = tsx_set_state env' PJSIP_TSX_STATE_DESTROYED PJSIP_EVENT_TIMER None c"
  have due: "timer_due (te_now env') Timeout_Timer t1"
    using assms(3-5) by (simp add: timer_due_def tsx_cell_def r(1) msec_time_zero)
  have p: "tsx_poll_timer env' se Timeout_Timer t1 = Some t2"
    using due s by (simp add: tsx_poll_timer_def tsx_timer_callback_def Let_def tsx_cell_def set_cell_def r(1) set_timer_id_def
        h tsx_on_state_terminated_def t2_def c_def state_order)
  have rp: "report c = report tsx" "report t0 = report tsx" by (simp_all add: fun_eq_iff report_def c_def r t0)
  have fc: "TSX_HAS_PENDING_TRANSPORT \<notin> transport_flag c" using f by (simp add: c_def)
  have cc: "state c = PJSIP_TSX_STATE_TERMINATED" "trace c = trace t1" "terminating c = terminating tsx" "grp_ref c = grp_ref t1"
      "last_tx c = last_tx tsx" "tx_refs c = tx_refs tsx" "transport c = transport tsx" "tp_refs c = tp_refs tsx"
    by (simp_all add: c_def s r)
  note d = destroyed_result[OF fc, of env' PJSIP_EVENT_TIMER, folded t2_def, unfolded cc rp]
  have "pjsip_tsx_terminate env code tsx = (PJ_SUCCESS, t1)" using assms(1,2) by (simp add: pjsip_tsx_terminate_def t1_def t0_def)
  moreover have "state t2 = PJSIP_TSX_STATE_DESTROYED" by (simp add: t2_def)
  moreover have "trace t1 = trace tsx @ report tsx PJSIP_TSX_STATE_TERMINATED (state tsx) PJSIP_EVENT_USER"
    using r(2) by (simp add: rp)
  moreover have "tsx_dispatch env' se (Tx_Event td) t1 = Some (PJ_EIGNORED, t1)" "tsx_dispatch env' se (Rx_Event rd) t1 = Some (PJ_EIGNORED, t1)"
    by (simp_all add: h s tsx_on_state_terminated_def)
  ultimately show ?thesis using p d s r(5) by blast
qed

text \<open>The first transmission, when the endpoint finds the transport before it returns.\<close>

lemma first_send:
  fixes a :: int and alen :: nat and cont :: bool and se :: send_env
  assumes "role tsx = PJSIP_ROLE_UAC" and "state tsx = PJSIP_TSX_STATE_NULL"
    and "transport tsx = None" and "transport_flag tsx = {}" and "\<not> is_reliable tsx" and "last_tx tsx = Some td"
    and "td_msg td = Request_Msg m" and "\<not> te_pending env (td_ptr td)"
    and "\<not> te_unloaded env" and "\<not> te_down env tp" and "\<not> te_reliable env tp" and "0 < sent"
  defines "r \<equiv> tsx_send_msg env (Send_Env a PJ_SUCCESS [Send_Call sent (Some tp) alen cont se]) tsx (Some td)"
  shows "r = (PJ_SUCCESS, snd r) \<and> state (snd r) = PJSIP_TSX_STATE_NULL \<and> role (snd r) = PJSIP_ROLE_UAC \<and>
      status_code (snd r) = status_code tsx \<and> \<not> is_reliable (snd r) \<and> transport (snd r) = Some tp \<and>
      transport_flag (snd r) = {TSX_HAS_RESOLVED_SERVER} \<and>
      last_tx (snd r) = Some td \<and> retransmit_timer (snd r) = retransmit_timer tsx \<and> trace (snd r) = trace tsx @ [Send_Request td] \<and>
      tsx_user (snd r) = tsx_user tsx \<and> invite (snd r) = invite tsx"
proof -
  define g where "g = send_begin td tsx"
  have g: "role g = PJSIP_ROLE_UAC" "state g = PJSIP_TSX_STATE_NULL" "transport g = None" "transport_flag g = {TSX_HAS_PENDING_TRANSPORT}"
      "last_tx g = Some td" "retransmit_timer g = retransmit_timer tsx" "trace g = trace tsx @ [Send_Request td]"
      "tsx_user g = tsx_user tsx" "invite g = invite tsx" "status_code g = status_code tsx" "tx_attached g (td_ptr td)"
    using assms(1-7)
    by (simp_all add: g_def send_begin_def Let_def add_tx_ref_def add_grp_def set_flag_def emit_def is_request_def invite_def)
  define c where "c = (add_grp (-1) g)\<lparr>tx_attached := (tx_attached g)(td_ptr td := False), pending_tx := None\<rparr>"
  define d where "d = callback_sent env (Some tp) alen c"
  have d: "role d = PJSIP_ROLE_UAC" "state d = PJSIP_TSX_STATE_NULL" "transport d = Some tp" "transport_flag d = {TSX_HAS_RESOLVED_SERVER}"
      "last_tx d = Some td" "retransmit_timer d = retransmit_timer tsx" "trace d = trace tsx @ [Send_Request td]"
      "tsx_user d = tsx_user tsx" "invite d = invite tsx" "status_code d = status_code tsx" "\<not> is_reliable d"
    using g assms(10,11)
    by (simp_all add: d_def c_def callback_sent_def Let_def tsx_update_transport_def add_grp_def set_flag_def clear_flag_def invite_def)
  have "send_msg_callback env (Send_Call sent (Some tp) alen cont se) g td = d"
    using assms(9,12) g(11) d(4) unfolding send_msg_callback.simps Let_def c_def[symmetric]
    by (simp add: d_def[symmetric] has_flag_def callback_resched_def)
  moreover have "send_direct env a td tsx = Inr (PJ_SUCCESS, tsx)" using assms(3) by (simp add: send_direct_def)
  ultimately have "r = send_finish env PJ_SUCCESS td d"
    using assms(4,8) by (simp add: r_def tsx_send_msg.simps has_flag_def g_def)
  then have "r = (PJ_SUCCESS, add_tx_ref (td_ptr td) (-1) d)" using d(2) by (simp add: send_finish_def Let_def)
  then show ?thesis using d by (simp add: add_tx_ref_def invite_def)
qed

text \<open>C5: a request sent over an unreliable transport and never answered is retransmitted on the schedule
  of RFC 3261 with the default timers: after 500 ms, with the interval doubling, up to 4 s at most unless the
  method is INVITE, until 32 s, when the transaction ends with 408 and reports it; nothing else is sent.\<close>

theorem tsx_client_schedule:
  assumes "role tsx = PJSIP_ROLE_UAC" and "state tsx = PJSIP_TSX_STATE_NULL" and "status_code tsx < 100"
    and "transport tsx = None" and "transport_flag tsx = {}" and "\<not> is_reliable tsx" and "last_tx tsx = Some td"
    and "tm_expiry (retransmit_timer tsx) = None" and "td_msg td = Request_Msg m"
    and "te_cfg env = default_cfg" and "te_now env = msec_time b" and "\<not> te_pending env (td_ptr td)"
    and "\<not> te_unloaded env" and "\<not> te_down env tp" and "\<not> te_reliable env tp" and "0 < sent"
  shows "\<exists>t1 t2.
    pjsip_tsx_send_msg env (Send_Env a PJ_SUCCESS [Send_Call sent (Some tp) alen cont se]) (Some td) tsx = Some (PJ_SUCCESS, t1) \<and>
    trace t1 = trace tsx @ [Send_Request td] @ report tsx PJSIP_TSX_STATE_CALLING PJSIP_TSX_STATE_NULL PJSIP_EVENT_TX_MSG \<and>
    timer_run (length (rfc_schedule (invite tsx)) + 1) env all_sent t1 = (map (\<lambda>t. msec_time (b + t)) (rfc_schedule (invite tsx) @ [32000]), t2) \<and>
    trace t2 = trace t1 @ replicate (length (rfc_schedule (invite tsx))) (Transport_Send tp td) @
      report tsx PJSIP_TSX_STATE_TERMINATED PJSIP_TSX_STATE_CALLING PJSIP_EVENT_TIMER \<and>
    state t2 = PJSIP_TSX_STATE_TERMINATED \<and> status_code t2 = PJSIP_SC_REQUEST_TIMEOUT"
proof -
  let ?se = "Send_Env a PJ_SUCCESS [Send_Call sent (Some tp) alen cont se]"
  define t where "t = snd (tsx_send_msg env ?se tsx (Some td))"
  have e: "tsx_send_msg env ?se tsx (Some td) = (PJ_SUCCESS, t) \<and> state t = PJSIP_TSX_STATE_NULL \<and> role t = PJSIP_ROLE_UAC \<and>
      status_code t = status_code tsx \<and> \<not> is_reliable t \<and> transport t = Some tp \<and> transport_flag t = {TSX_HAS_RESOLVED_SERVER} \<and>
      last_tx t = Some td \<and> retransmit_timer t = retransmit_timer tsx \<and> trace t = trace tsx @ [Send_Request td] \<and>
      tsx_user t = tsx_user tsx \<and> invite t = invite tsx"
    unfolding t_def by (rule first_send[OF assms(1,2,4-7,9,12-16)])
  define t1 where "t1 = tsx_set_state env PJSIP_TSX_STATE_CALLING PJSIP_EVENT_TX_MSG None
    (start_retrans env (t1_timer_val (te_cfg env)) (restart_timeout env (timeout_timer_val (te_cfg env)) TIMEOUT_TIMER t))"
  have k: "keep_tx td (drop_other_tx td tsx) = tsx" using assms(7) by (simp add: keep_tx_def drop_other_tx_def)
  have n: "tsx_on_state_null env ?se (Tx_Event td) tsx = (PJ_SUCCESS, t1)"
    using assms(1) e k by (simp add: tsx_on_state_null_def Let_def t1_def restart_timeout_cell)
  have w: "client_waits td tp 0 (b + 500) (b + 32000) (trace tsx @ [Send_Request td] @
       report tsx PJSIP_TSX_STATE_CALLING PJSIP_TSX_STATE_NULL PJSIP_EVENT_TX_MSG) t1" and i: "invite t1 = invite tsx"
      and u: "tsx_user t1 = tsx_user tsx"
    using e assms(3,8,10,11)
    by (simp_all add: client_waits_def t1_def start_retrans_def restart_timeout_cell tsx_set_state_def tsx_set_state_flags_def notify_plain
        has_flag_def start_timer_def tsx_schedule_timer_def tsx_cell_def set_cell_def default_cfg_def report_def invite_def)
  define t1' where "t1' = add_tx_ref (td_ptr td) (-1) t1"
  have w': "client_waits td tp 0 (b + 500) (b + 32000) (trace t1') t1'" "invite t1' = invite tsx" "report t1' = report tsx"
      "trace t1' = trace tsx @ [Send_Request td] @ report tsx PJSIP_TSX_STATE_CALLING PJSIP_TSX_STATE_NULL PJSIP_EVENT_TX_MSG"
    using w i u by (simp_all add: t1'_def client_waits_def add_tx_ref_def invite_def fun_eq_iff report_def)
  have s: "pjsip_tsx_send_msg env ?se (Some td) tsx = Some (PJ_SUCCESS, t1')"
    using n assms(1,2) by (simp add: pjsip_tsx_send_msg_def tsx_dispatch_def t1'_def)
  have d: "due_times (invite tsx) (b + 500) 0 (length (rfc_schedule (invite tsx))) = map ((+) b) (rfc_schedule (invite tsx))" "b + 32000 < due_after (invite tsx) (b + 500) 0 (length (rfc_schedule (invite tsx)))"
    by (simp_all add: rfc_schedule_def interval_def eval_nat_numeral(3) Let_def)
  have "\<forall>t\<in>set (due_times (invite tsx) (b + 500) 0 (length (rfc_schedule (invite tsx)))). t \<le> b + 32000"
    unfolding d by (simp add: rfc_schedule_def)
  moreover have "length (rfc_schedule (invite tsx)) < 20" by (simp add: rfc_schedule_def)
  ultimately have "\<exists>t2. timer_run (Suc (length (rfc_schedule (invite tsx)))) env all_sent t1' =
      (map msec_time (map ((+) b) (rfc_schedule (invite tsx)) @ [b + 32000]), t2) \<and>
    state t2 = PJSIP_TSX_STATE_TERMINATED \<and> status_code t2 = PJSIP_SC_REQUEST_TIMEOUT \<and>
    trace t2 = trace t1' @ replicate (length (rfc_schedule (invite tsx))) (Transport_Send tp td) @
      report tsx PJSIP_TSX_STATE_TERMINATED PJSIP_TSX_STATE_CALLING PJSIP_EVENT_TIMER"
    using client_run[OF w'(1) _ assms(10,12), of "length (rfc_schedule (invite tsx))"] w'(2,3) d by simp
  moreover have "map msec_time (map ((+) b) ts @ [b + 32000]) = map (\<lambda>t. msec_time (b + t)) (ts @ [32000])" for ts
    by simp
  ultimately show ?thesis unfolding Suc_eq_plus1 using s w'(4) by metis
qed

text \<open>\<^verbatim>\<open>pjsip_tsx_terminate_async\<close> does not terminate a transaction without a final status: the code that it is
  given is dropped, the timer then passes on the status seen so far, which \<^verbatim>\<open>pjsip_tsx_terminate\<close> turns down; the
  transaction stays in its state, reports nothing, and its timeout timer is gone.\<close>

theorem tsx_terminate_async_ignores_code:
  assumes "200 \<le> code" and "status_code tsx < 200" and "state tsx < PJSIP_TSX_STATE_TERMINATED"
    and "te_now env = msec_time n" and "te_now env' = msec_time m" and "n + 100 \<le> m"
  shows "\<exists>t1 t2. pjsip_tsx_terminate_async env code tsx = (PJ_SUCCESS, t1) \<and>
    tsx_poll_timer env' se Timeout_Timer t1 = Some t2 \<and> state t2 = state tsx \<and> status_code t2 = status_code tsx \<and>
    trace t2 = trace tsx \<and> tm_expiry (timeout_timer t2) = None"
proof -
  have d: "Time_Val 0 100 = msec_time 100" by (simp add: msec_time_def)
  have n: "\<not> state tsx \<ge> PJSIP_TSX_STATE_DESTROYED" using assms(3) by (simp add: state_order)
  show ?thesis using assms n
    by (simp add: pjsip_tsx_terminate_async_def restart_timeout_cell d tsx_poll_timer_def timer_due_def tsx_cell_def set_cell_def
        tsx_timer_callback_def Let_def pjsip_tsx_terminate_def)
qed

text \<open>C37: when the ACK to a failure response cannot be created, the client transaction keeps its state without
  any timer, so that nothing ends it; when the ACK cannot be sent, the transaction ends with 503, but the
  reference that came with the ACK is never given up.\<close>

theorem tsx_ack_failure_strands:
  assumes "role tsx = PJSIP_ROLE_UAC" and "state tsx = PJSIP_TSX_STATE_PROCEEDING" and "invite tsx"
    and "rx_msg rd = Response_Msg code m" and "300 \<le> code" and "code \<le> 699"
    and "transport tsx = Some tp" and "transport_flag tsx = {TSX_HAS_RESOLVED_SERVER}" and "\<not> te_pending env (td_ptr ack)"
    and "e \<noteq> PJ_SUCCESS" and "e \<noteq> PJ_EPENDING" and "te_ack env = Inl st \<or> te_ack env = Inr ack" and "st \<noteq> PJ_SUCCESS"
    and "last_tx tsx \<noteq> None" and "td_ptr (the (last_tx tsx)) \<noteq> td_ptr ack"
  shows "\<exists>t. pjsip_tsx_recv_msg env (Send_Env e a calls) rd tsx = Some t \<and>
    (te_ack env = Inl st \<longrightarrow> state t = state tsx \<and> tm_expiry (timeout_timer t) = None \<and> tm_expiry (retransmit_timer t) = None) \<and>
    (te_ack env = Inr ack \<longrightarrow> state t = PJSIP_TSX_STATE_TERMINATED \<and> status_code t = PJSIP_SC_TSX_TRANSPORT_ERROR \<and>
       last_tx t = last_tx tsx \<and> tx_refs t (td_ptr ack) = tx_refs tsx (td_ptr ack) + 1)"
proof -
  define s where "s = stop_timer Timeout_Timer (stop_timer Retransmit_Timer (tsx_set_status_code code tsx))"
  have s: "role s = PJSIP_ROLE_UAC" "invite s" "transport s = Some tp" "transport_flag s = {TSX_HAS_RESOLVED_SERVER}"
      "last_tx s = last_tx tsx" "tx_refs s = tx_refs tsx" "state s = PJSIP_TSX_STATE_PROCEEDING" "status_code s = code"
      "tm_expiry (timeout_timer s) = None" "tm_expiry (retransmit_timer s) = None"
    using assms by (simp_all add: s_def stop_timer_cell tsx_set_status_code_def invite_def)
  have c: "\<not> in_class code 1" "\<not> in_class code 2" using assms(5) by auto
  have e: "pjsip_tsx_recv_msg env (Send_Env e a calls) rd tsx
      = Some (snd (uac_final_error env (Send_Env e a calls) (Rx_Event rd) (tsx_set_status_code code tsx)))"
    using assms(1,2,4-6) c
    by (simp add: pjsip_tsx_recv_msg_def tsx_dispatch_def tsx_on_state_proceeding_uac_def proceeding_uac_by_code_def
        tsx_set_status_code_def)
  show ?thesis
  proof (cases "te_ack env")
    case (Inl st')
    then have "snd (uac_final_error env (Send_Env e a calls) (Rx_Event rd) (tsx_set_status_code code tsx)) = s"
      using s(2) by (simp add: uac_final_error_def Let_def s_def[symmetric])
    then show ?thesis using e s Inl assms(2) by simp
  next
    case (Inr ack')
    then have a: "ack' = ack" using assms(12) by auto
    define r where "r = add_tx_ref (td_ptr ack) 1 s"
    have r: "role r = PJSIP_ROLE_UAC" "transport r = Some tp" "transport_flag r = {TSX_HAS_RESOLVED_SERVER}" "last_tx r = last_tx tsx"
        "tx_refs r (td_ptr ack) = tx_refs tsx (td_ptr ack) + 1"
      using s by (simp_all add: r_def add_tx_ref_def)
    define q where "q = snd (tsx_send_msg env (Send_Env e a calls) r (Some ack))"
    have "\<exists>w. tsx_send_msg env (Send_Env e a calls) r (Some ack) = send_permanent_error env e w \<and>
        last_tx w = last_tx tsx \<and> tx_refs w = tx_refs r"
      using r assms(9-11)
      by (simp add: tsx_send_msg.simps has_flag_def send_direct_def Let_def no_transport_cell emit_def set_flag_def add_grp_def
          clear_flag_def insert_Diff_if) (intro exI conjI, rule refl, simp_all)
    then obtain w where w: "tsx_send_msg env (Send_Env e a calls) r (Some ack) = send_permanent_error env e w"
      "last_tx w = last_tx tsx" "tx_refs w = tx_refs r" by blast
    have f: "fst (send_permanent_error env e w) \<noteq> PJ_SUCCESS" using assms(10) by (simp add: send_permanent_error_def)
    define v where "v = tsx_set_status_code PJSIP_SC_TSX_TRANSPORT_ERROR w"
    have q: "snd (send_permanent_error env e w) = tsx_set_state env PJSIP_TSX_STATE_TERMINATED PJSIP_EVENT_TRANSPORT_ERROR None v"
      by (simp add: send_permanent_error_def v_def)
    have v: "last_tx v = last_tx tsx" "tx_refs v = tx_refs r" "status_code v = PJSIP_SC_TSX_TRANSPORT_ERROR"
      using w by (simp_all add: v_def tsx_set_status_code_def)
    have "snd (uac_final_error env (Send_Env e a calls) (Rx_Event rd) (tsx_set_status_code code tsx)) = snd (send_permanent_error env e w)"
      using s(2) Inr a f w(1) by (simp add: uac_final_error_def Let_def s_def[symmetric] r_def[symmetric] case_prod_beta)
    then show ?thesis using e q v r(5) Inr a by (simp add: terminated_result)
  qed
qed

section \<open>Witnesses\<close>

definition sample_msg :: pjsip_tx_data where
  "sample_msg = \<lparr>td_ptr = 1, td_msg = Request_Msg \<lparr>meth_id = PJSIP_INVITE_METHOD, meth_name = [73]\<rparr>\<rparr>"

definition sample_client :: pjsip_transaction where
  "sample_client = (tsx_create (Some \<lparr>has_on_rx_response = True, has_on_tsx_state = True\<rparr>) None)\<lparr>last_tx := Some sample_msg\<rparr>"

definition sample_env :: tsx_env where
  "sample_env = \<lparr>te_cfg = default_cfg, te_now = msec_time 7, te_reliable = (\<lambda>_. False), te_down = (\<lambda>_. False),
     te_pending = (\<lambda>_. False), te_unloaded = False, te_ack = Inl PJ_EINVAL\<rparr>"

lemma sample_facts:
  "role sample_client = PJSIP_ROLE_UAC" "state sample_client = PJSIP_TSX_STATE_NULL" "status_code sample_client = 0"
  "transport sample_client = None" "transport_flag sample_client = {}" "\<not> is_reliable sample_client"
  "last_tx sample_client = Some sample_msg" "tm_expiry (retransmit_timer sample_client) = None"
  "invite sample_client" "\<not> terminating sample_client"
  "td_msg sample_msg = Request_Msg \<lparr>meth_id = PJSIP_INVITE_METHOD, meth_name = [73]\<rparr>"
  "te_cfg sample_env = default_cfg" "te_now sample_env = msec_time 7" "\<not> te_pending sample_env p" "\<not> te_unloaded sample_env"
  "\<not> te_down sample_env p" "\<not> te_reliable sample_env p"
  by (simp_all add: sample_client_def tsx_create_def sample_env_def sample_msg_def invite_def)


lemma tsx_terminate_then_destroy_witness:
  "\<exists>t1 t2. pjsip_tsx_terminate sample_env 487 sample_client = (PJ_SUCCESS, t1) \<and>
     tsx_poll_timer sample_env all_sent Timeout_Timer t1 = Some t2 \<and> state t2 = PJSIP_TSX_STATE_DESTROYED \<and>
     grp_ref t2 = grp_ref t1 - 1"
  using tsx_terminate_then_destroy[of 487 sample_client sample_env 7 sample_env 7 all_sent] sample_facts
  by (simp add: state_order) blast

lemma tsx_client_schedule_witness:
  "\<exists>t1 t2. pjsip_tsx_send_msg sample_env (Send_Env 0 PJ_SUCCESS [Send_Call 300 (Some 4) 16 False all_sent]) (Some sample_msg)
      sample_client = Some (PJ_SUCCESS, t1) \<and>
    fst (timer_run 7 sample_env all_sent t1) = map msec_time [507, 1507, 3507, 7507, 15507, 31507, 32007] \<and>
    snd (timer_run 7 sample_env all_sent t1) = t2 \<and> status_code t2 = PJSIP_SC_REQUEST_TIMEOUT"
proof -
  have l: "length (rfc_schedule True) + 1 = 7" "map (\<lambda>t. msec_time (7 + t)) (rfc_schedule True @ [32000])
      = map msec_time [507, 1507, 3507, 7507, 15507, 31507, 32007]"
    by (simp_all add: rfc_schedule_def)
  show ?thesis
    using tsx_client_schedule[of sample_client sample_msg _ sample_env 7 4 300 0 16 False all_sent,
        unfolded sample_facts(3) iffD2[OF eq_True sample_facts(9)] l] sample_facts
    by (metis fst_conv snd_conv zero_less_numeral)
qed

lemma tsx_terminate_async_ignores_code_witness:
  "\<exists>t1 t2. pjsip_tsx_terminate_async sample_env 487 sample_client = (PJ_SUCCESS, t1) \<and>
    tsx_poll_timer (sample_env\<lparr>te_now := msec_time 107\<rparr>) all_sent Timeout_Timer t1 = Some t2 \<and> state t2 = PJSIP_TSX_STATE_NULL"
  using tsx_terminate_async_ignores_code[of 487 sample_client sample_env 7 "sample_env\<lparr>te_now := msec_time 107\<rparr>" 107 all_sent]
    sample_facts by (simp add: state_order) blast

definition sample_response :: pjsip_rx_data where
  "sample_response = \<lparr>rx_msg = Response_Msg 486 \<lparr>meth_id = PJSIP_INVITE_METHOD, meth_name = [73]\<rparr>, rx_branch = [], rx_via_host = [],
     rx_via_port = 0, rx_cseq = 1, rx_cseq_method = \<lparr>meth_id = PJSIP_INVITE_METHOD, meth_name = [73]\<rparr>,
     rx_from_tag = [], rx_to_tag = [], rx_call_id = []\<rparr>"

lemma tsx_ack_failure_strands_witness:
  "\<exists>t. pjsip_tsx_recv_msg (sample_env\<lparr>te_ack := Inr (sample_msg\<lparr>td_ptr := 2\<rparr>)\<rparr>) (Send_Env PJ_EUNKNOWN 0 []) sample_response
      (sample_client\<lparr>state := PJSIP_TSX_STATE_PROCEEDING, transport := Some 3, transport_flag := {TSX_HAS_RESOLVED_SERVER}\<rparr>) = Some t \<and>
    state t = PJSIP_TSX_STATE_TERMINATED \<and> tx_refs t 2 = 1"
  using tsx_ack_failure_strands[of
      "sample_client\<lparr>state := PJSIP_TSX_STATE_PROCEEDING, transport := Some 3, transport_flag := {TSX_HAS_RESOLVED_SERVER}\<rparr>"
      sample_response 486 _ 3 "sample_env\<lparr>te_ack := Inr (sample_msg\<lparr>td_ptr := 2\<rparr>)\<rparr>" "sample_msg\<lparr>td_ptr := 2\<rparr>" PJ_EUNKNOWN PJ_EINVAL 0 "[]"]
  by (simp add: sample_facts sample_response_def sample_msg_def sample_env_def sample_client_def tsx_create_def invite_def) blast

end
