(* ===== verification/Sip_Tsx_Layer.thy ===== *)
theory Sip_Tsx_Layer
  imports Sip_Tsx Pj_Hash
begin

text \<open>
  The transaction layer of \<^verbatim>\<open>sip_transaction.c\<close>: the keys of transactions, the two hash tables they
  are registered in, their creation, and the dispatch of received messages to them; with
  \<^verbatim>\<open>pjsip_endpt_respond\<close> of \<^verbatim>\<open>sip_util_statefull.c\<close>, which runs a transaction for one response. A
  transaction is a number, its pointer; \<open>tsx_of\<close> gives the object. Memory, pools and locks are at hand.
  What the rest of the library answers (the generator of branches, the resolution of addresses) is an
  argument. Received messages have their mandatory headers, as the parser has checked.
\<close>

section \<open>Keys\<close>

abbreviation (input) "SEPARATOR \<equiv> (36 :: byte)"

definition role_char :: "pjsip_role_e \<Rightarrow> byte" where
  "role_char r = (if r = PJSIP_ROLE_UAC then 99 else 115)"

definition key_method :: "pjsip_method \<Rightarrow> byte list" where
  "key_method m =
     (if meth_id m \<noteq> PJSIP_INVITE_METHOD \<and> meth_id m \<noteq> PJSIP_ACK_METHOD then meth_name m @ [36] else [])"

definition create_tsx_key_2543 :: "pjsip_role_e \<Rightarrow> pjsip_method \<Rightarrow> pjsip_rx_data \<Rightarrow> bool \<Rightarrow> byte list" where
  "create_tsx_key_2543 r m rdata include_via =
     [role_char r, SEPARATOR] @ key_method m @ pj_utoa (rx_cseq rdata) @ [SEPARATOR] @
     rx_from_tag rdata @ [SEPARATOR] @ rx_call_id rdata @ [SEPARATOR] @
     (if include_via then rx_via_host rdata @ [58] @ pj_utoa (rx_via_port rdata) @ [SEPARATOR] else []) @ [0]"

text \<open>\<^verbatim>\<open>len_required\<close>, the size of the buffer the key is written to.\<close>

definition key_2543_len :: "pjsip_method \<Rightarrow> pjsip_rx_data \<Rightarrow> bool \<Rightarrow> nat" where
  "key_2543_len m rdata include_via =
     length (meth_name m) + 11 + length (rx_from_tag rdata) + length (rx_call_id rdata) + 16 +
     (if include_via then length (rx_via_host rdata) + 11 else 0)"

definition create_tsx_key_3261 :: "pjsip_role_e \<Rightarrow> pjsip_method \<Rightarrow> byte list \<Rightarrow> byte list" where
  "create_tsx_key_3261 r m br = [role_char r, SEPARATOR] @ key_method m @ br"

definition key_3261_len :: "pjsip_method \<Rightarrow> byte list \<Rightarrow> nat" where
  "key_3261_len m br = length br + length (meth_name m) + 4"

text \<open>\<open>''z9hG4bK''\<close>.\<close>

definition PJSIP_RFC3261_BRANCH_ID :: "byte list" where
  "PJSIP_RFC3261_BRANCH_ID = [122, 57, 104, 71, 52, 98, 75]"

definition pjsip_tsx_create_key :: "pjsip_role_e \<Rightarrow> pjsip_method \<Rightarrow> pjsip_rx_data \<Rightarrow> byte list" where
  "pjsip_tsx_create_key r m rdata =
     (if pj_strnicmp_eq (rx_branch rdata) PJSIP_RFC3261_BRANCH_ID 7
      then create_tsx_key_3261 r m (rx_branch rdata)
      else create_tsx_key_2543 r m rdata True)"

section \<open>The layer\<close>

record tsx_layer =
  htable :: "nat pj_hash_table"
  htable2 :: "nat pj_hash_table"
  tsx_of :: "nat \<Rightarrow> pjsip_transaction option"

text \<open>\<open>None\<close> when a table cannot be created, which does not return (see \<open>pj_hash_create\<close>).\<close>

definition pjsip_tsx_layer_init_module :: "nat \<Rightarrow> tsx_cfg \<Rightarrow> (tsx_layer \<times> tsx_cfg) option" where
  "pjsip_tsx_layer_init_module max_count cfg =
     (case pj_hash_create max_count of
        None \<Rightarrow> None
      | Some t1 \<Rightarrow>
          (case pj_hash_create max_count of
             None \<Rightarrow> None
           | Some t2 \<Rightarrow>
               Some (\<lparr>htable = t1, htable2 = t2, tsx_of = Map.empty\<rparr>,
                     (pjsip_tsx_initialize_timer_values cfg)\<lparr>max_retrans_count := -1\<rparr>)))"

definition hashed :: "byte list \<Rightarrow> 32 word" where
  "hashed key = fst (pj_hash_calc_tolower 0 key)"

definition mod_tsx_layer_register_tsx :: "nat \<Rightarrow> pjsip_transaction \<Rightarrow> tsx_layer \<Rightarrow> pj_status_t \<times> tsx_layer" where
  "mod_tsx_layer_register_tsx p tsx l =
     (let k = transaction_key tsx; k2 = transaction_key2 tsx
      in if pj_hash_get_lower (htable l) (Key_Bytes k) None \<noteq> None then (PJ_EEXISTS, l)
         else (PJ_SUCCESS,
               l\<lparr>htable := pj_hash_set_lower (htable l) (Key_Bytes k) (hashed k) (Some p),
                 htable2 := if role tsx = PJSIP_ROLE_UAS
                            then pj_hash_set_lower (htable2 l) (Key_Bytes k2) (hashed k2) (Some p) else htable2 l\<rparr>))"

text \<open>The effect of the output \<open>Unregister\<close> on the tables.\<close>

definition unregister_tables :: "pjsip_transaction \<Rightarrow> tsx_layer \<Rightarrow> tsx_layer" where
  "unregister_tables tsx l =
     (let k = transaction_key tsx; k2 = transaction_key2 tsx
      in l\<lparr>htable := pj_hash_set_lower (htable l) (Key_Bytes k) (hashed k) None,
           htable2 := if role tsx = PJSIP_ROLE_UAS
                      then pj_hash_set_lower (htable2 l) (Key_Bytes k2) (hashed k2) None else htable2 l\<rparr>)"

text \<open>The object after an operation that turned it from \<open>old\<close> to \<open>new\<close>.\<close>

definition put_tsx :: "nat \<Rightarrow> pjsip_transaction \<Rightarrow> pjsip_transaction \<Rightarrow> tsx_layer \<Rightarrow> tsx_layer" where
  "put_tsx p old new l =
     (let l1 = l\<lparr>tsx_of := (tsx_of l)(p \<mapsto> new)\<rparr>
      in if Unregister \<in> set (drop (length (trace old)) (trace new)) then unregister_tables new l1 else l1)"

definition pjsip_tsx_layer_get_tsx_count :: "tsx_layer \<Rightarrow> nat" where
  "pjsip_tsx_layer_get_tsx_count l = pj_hash_count (htable l)"

definition layer_add_grp :: "int \<Rightarrow> nat \<Rightarrow> tsx_layer \<Rightarrow> tsx_layer" where
  "layer_add_grp n p l = l\<lparr>tsx_of := (tsx_of l)(p := map_option (add_grp n) (tsx_of l p))\<rparr>"

definition find_tsx :: "byte list \<Rightarrow> bool \<Rightarrow> tsx_layer \<Rightarrow> nat option \<times> tsx_layer" where
  "find_tsx key add_ref l =
     (case pj_hash_get_lower (htable l) (Key_Bytes key) (Some 0) of
        None \<Rightarrow> (None, l)
      | Some p \<Rightarrow> (Some p, if add_ref then layer_add_grp 1 p l else l))"

section \<open>Creation\<close>

text \<open>
  The request has a CSeq (or not), a branch in its Via (empty if there is none) and a destination,
  which is resolved to whether it is reliable, or fails; \<open>unique\<close> is the string the generator gives.
\<close>

definition pjsip_tsx_create_uac2 ::
  "tsx_env \<Rightarrow> tsx_module option \<Rightarrow> int option \<Rightarrow> pjsip_tx_data \<Rightarrow> nat option \<Rightarrow> byte list \<Rightarrow> byte list
   \<Rightarrow> pj_status_t + bool \<Rightarrow> nat \<Rightarrow> tsx_layer \<Rightarrow> pj_status_t \<times> pjsip_transaction option \<times> tsx_layer" where
  "pjsip_tsx_create_uac2 env user grp tdata cseq via_branch unique dst p l =
     (case td_msg tdata of
        Response_Msg _ _ \<Rightarrow> (PJSIP_ENOTREQUESTMSG, None, l)
      | Request_Msg m \<Rightarrow>
          if meth_id m = PJSIP_ACK_METHOD then (PJ_EINVALIDOP, None, l)
          else (case cseq of
            None \<Rightarrow> (PJSIP_EMISSINGHDR, None, l)
          | Some n \<Rightarrow>
              let br = (if via_branch = [] then PJSIP_RFC3261_BRANCH_ID @ [80, 106] @ unique else via_branch);
                  tsx = (add_tx_ref (td_ptr tdata) 1 (tsx_create user grp))
                    \<lparr>role := PJSIP_ROLE_UAC, tsx_method := m, tsx_cseq := n, branch := br,
                     transaction_key := create_tsx_key_3261 PJSIP_ROLE_UAC m br,
                     state := PJSIP_TSX_STATE_NULL, last_tx := Some tdata\<rparr>
              in (case dst of
                    Inl status \<Rightarrow> (status, Some (tsx_shutdown env tsx), l)
                  | Inr reliable \<Rightarrow>
                      let tsx1 = tsx\<lparr>is_reliable := reliable\<rparr>;
                          (status, l1) = mod_tsx_layer_register_tsx p tsx1 l
                      in if status \<noteq> PJ_SUCCESS then (status, Some (tsx_shutdown env tsx1), l1)
                         else (PJ_SUCCESS, Some tsx1, l1\<lparr>tsx_of := (tsx_of l1)(p \<mapsto> tsx1)\<rparr>))))"

definition pjsip_method_eq :: "pjsip_method \<Rightarrow> pjsip_method \<Rightarrow> bool" where
  "pjsip_method_eq m1 m2 \<longleftrightarrow> meth_id m1 = meth_id m2 \<and> (meth_id m1 = PJSIP_OTHER_METHOD \<longrightarrow> meth_name m1 = meth_name m2)"

text \<open>
  The answer of \<^verbatim>\<open>pjsip_get_response_addr\<close>: a failure, or the transport to use, if it is the current
  one, with the length of the address, and whether the destination is reliable.
\<close>

definition pjsip_tsx_create_uas2 ::
  "tsx_env \<Rightarrow> tsx_module option \<Rightarrow> int option \<Rightarrow> pjsip_rx_data \<Rightarrow> pj_status_t + nat option \<times> nat \<times> bool
   \<Rightarrow> nat \<Rightarrow> tsx_layer \<Rightarrow> pj_status_t \<times> pjsip_transaction option \<times> tsx_layer" where
  "pjsip_tsx_create_uas2 env user grp rdata res p l =
     (case rx_msg rdata of
        Response_Msg _ _ \<Rightarrow> (PJSIP_ENOTREQUESTMSG, None, l)
      | Request_Msg m \<Rightarrow>
          if meth_id m = PJSIP_ACK_METHOD then (PJ_EINVALIDOP, None, l)
          else if \<not> pjsip_method_eq m (rx_cseq_method rdata) then (PJSIP_EINVALIDHDR, None, l)
          else
            let tsx = (tsx_create user grp)
                  \<lparr>role := PJSIP_ROLE_UAS, tsx_method := m, tsx_cseq := rx_cseq rdata,
                   transaction_key := pjsip_tsx_create_key PJSIP_ROLE_UAS m rdata,
                   transaction_key2 := create_tsx_key_2543 PJSIP_ROLE_UAS m rdata False,
                   branch := rx_branch rdata, state := PJSIP_TSX_STATE_NULL\<rparr>
            in (case res of
                  Inl status \<Rightarrow> (status, Some (tsx_shutdown env tsx), l)
                | Inr (tp, alen, reliable) \<Rightarrow>
                    let tsx1 = (case tp of
                          Some t \<Rightarrow> (tsx_update_transport env (Some t) (tsx\<lparr>res_transport := tp\<rparr>))
                                      \<lparr>addr_len := alen, is_reliable := te_reliable env t\<rparr>
                        | None \<Rightarrow> tsx\<lparr>is_reliable := reliable\<rparr>);
                        (status, l1) = mod_tsx_layer_register_tsx p tsx1 l
                    in if status \<noteq> PJ_SUCCESS then (status, Some (tsx_shutdown env tsx1), l1)
                       else (PJ_SUCCESS, Some tsx1, l1\<lparr>tsx_of := (tsx_of l1)(p \<mapsto> tsx1)\<rparr>)))"

section \<open>Received messages\<close>

text \<open>The operations of the layer answer \<open>None\<close> when a NULL handler is called.\<close>

definition layer_recv :: "tsx_env \<Rightarrow> send_env \<Rightarrow> pjsip_rx_data \<Rightarrow> nat \<Rightarrow> tsx_layer \<Rightarrow> tsx_layer option" where
  "layer_recv env se rdata p l =
     (case tsx_of l p of
        None \<Rightarrow> None
      | Some tsx \<Rightarrow> map_option (\<lambda>tsx1. put_tsx p tsx tsx1 l) (pjsip_tsx_recv_msg env se rdata tsx))"

text \<open>The reference that is held while the transaction takes the message.\<close>

definition layer_recv_guarded :: "tsx_env \<Rightarrow> send_env \<Rightarrow> pjsip_rx_data \<Rightarrow> nat \<Rightarrow> tsx_layer \<Rightarrow> tsx_layer option" where
  "layer_recv_guarded env se rdata p l =
     map_option (layer_add_grp (-1) p) (layer_recv env se rdata p (layer_add_grp 1 p l))"

definition is_ack :: "pjsip_msg \<Rightarrow> bool" where
  "is_ack msg \<longleftrightarrow> (case msg of Request_Msg m \<Rightarrow> meth_id m = PJSIP_ACK_METHOD | Response_Msg _ _ \<Rightarrow> False)"

definition mod_tsx_layer_on_rx_request ::
  "tsx_env \<Rightarrow> send_env \<Rightarrow> pjsip_rx_data \<Rightarrow> tsx_layer \<Rightarrow> (bool \<times> tsx_layer) option" where
  "mod_tsx_layer_on_rx_request env se rdata l =
     (let key = pjsip_tsx_create_key PJSIP_ROLE_UAS (rx_cseq_method rdata) rdata
      in case pj_hash_get_lower (htable l) (Key_Bytes key) (Some 0) of
           None \<Rightarrow> Some (False, l)
         | Some p \<Rightarrow>
             (case tsx_of l p of
                None \<Rightarrow> None
              | Some tsx \<Rightarrow>
                  if state tsx = PJSIP_TSX_STATE_TERMINATED then Some (False, l)
                  else if is_ack (rx_msg rdata) \<and> invite tsx \<and> in_class (status_code tsx) 2 then Some (False, l)
                  else map_option (Pair True) (layer_recv_guarded env se rdata p l)))"

definition mod_tsx_layer_on_rx_response ::
  "tsx_env \<Rightarrow> send_env \<Rightarrow> pjsip_rx_data \<Rightarrow> tsx_layer \<Rightarrow> (bool \<times> tsx_layer) option" where
  "mod_tsx_layer_on_rx_response env se rdata l =
     (let key = pjsip_tsx_create_key PJSIP_ROLE_UAC (rx_cseq_method rdata) rdata
      in case pj_hash_get_lower (htable l) (Key_Bytes key) (Some 0) of
           None \<Rightarrow> Some (False, l)
         | Some p \<Rightarrow>
             (case tsx_of l p of
                None \<Rightarrow> None
              | Some tsx \<Rightarrow>
                  if state tsx = PJSIP_TSX_STATE_TERMINATED then Some (False, l)
                  else map_option (Pair True) (layer_recv_guarded env se rdata p l)))"

text \<open>Merged requests: another transaction has the same From tag, CSeq and Call-ID.\<close>

definition pjsip_tsx_detect_merged_requests :: "pjsip_rx_data \<Rightarrow> tsx_layer \<Rightarrow> nat option" where
  "pjsip_tsx_detect_merged_requests rdata l =
     (if \<not> is_request (rx_msg rdata) \<or> rx_to_tag rdata \<noteq> [] then None
      else if pj_hash_get_lower (htable l)
                (Key_Bytes (pjsip_tsx_create_key PJSIP_ROLE_UAS (rx_cseq_method rdata) rdata)) (Some 0) \<noteq> None then None
      else pj_hash_get_lower (htable2 l)
             (Key_Bytes (create_tsx_key_2543 PJSIP_ROLE_UAS (rx_cseq_method rdata) rdata False)) (Some 0))"

section \<open>Timers, sending, stop\<close>

definition layer_poll_timer :: "tsx_env \<Rightarrow> send_env \<Rightarrow> tsx_timer \<Rightarrow> nat \<Rightarrow> tsx_layer \<Rightarrow> tsx_layer option" where
  "layer_poll_timer env se e p l =
     (case tsx_of l p of
        None \<Rightarrow> None
      | Some tsx \<Rightarrow> map_option (\<lambda>tsx1. put_tsx p tsx tsx1 l) (tsx_poll_timer env se e tsx))"

definition layer_send :: "tsx_env \<Rightarrow> send_env \<Rightarrow> pjsip_tx_data option \<Rightarrow> nat \<Rightarrow> tsx_layer \<Rightarrow> (pj_status_t \<times> tsx_layer) option" where
  "layer_send env se msg p l =
     (case tsx_of l p of
        None \<Rightarrow> None
      | Some tsx \<Rightarrow> map_option (\<lambda>(status, tsx1). (status, put_tsx p tsx tsx1 l)) (pjsip_tsx_send_msg env se msg tsx))"

text \<open>The body of the loop of \<^verbatim>\<open>mod_tsx_layer_stop\<close>.\<close>

definition stop_one :: "tsx_env \<Rightarrow> nat \<Rightarrow> tsx_layer \<Rightarrow> tsx_layer" where
  "stop_one env p l =
     (case tsx_of l p of
        None \<Rightarrow> l
      | Some tsx \<Rightarrow>
          put_tsx p tsx
            (tsx_shutdown env (mod_tsx_layer_unregister_tsx env
               (snd (pjsip_tsx_terminate env PJSIP_SC_SERVICE_UNAVAILABLE tsx)))) l)"

fun stop_loop :: "nat \<Rightarrow> tsx_env \<Rightarrow> nat pj_hash_iterator option \<Rightarrow> tsx_layer \<Rightarrow> tsx_layer" where
  "stop_loop 0 env it l = l"
| "stop_loop (Suc fuel) env None l = l"
| "stop_loop (Suc fuel) env (Some it) l =
     (let p = pj_hash_this (htable l) it; it' = pj_hash_next (htable l) it
      in stop_loop fuel env it' (stop_one env p l))"

definition mod_tsx_layer_stop :: "tsx_env \<Rightarrow> tsx_layer \<Rightarrow> tsx_layer" where
  "mod_tsx_layer_stop env l = stop_loop (pj_hash_count (htable l)) env (pj_hash_first (htable l)) l"

text \<open>
  Answering a request statefully, without further headers or body: a transaction, at \<open>p\<close>, takes the
  request and sends the response (whose creation may fail with a status). When sending fails the
  reference to the response is dropped here, otherwise by \<open>pjsip_tsx_send_msg\<close>.
\<close>

definition pjsip_endpt_respond ::
  "tsx_env \<Rightarrow> send_env \<Rightarrow> tsx_module option \<Rightarrow> pjsip_rx_data \<Rightarrow> pj_status_t + pjsip_tx_data
   \<Rightarrow> pj_status_t + nat option \<times> nat \<times> bool \<Rightarrow> nat \<Rightarrow> tsx_layer \<Rightarrow> (pj_status_t \<times> tsx_layer) option" where
  "pjsip_endpt_respond env se user rdata response res p l =
     (case response of
        Inl status \<Rightarrow> Some (status, l)
      | Inr tdata \<Rightarrow>
          (case pjsip_tsx_create_uas2 env user None rdata res p l of
             (status, _, l1) \<Rightarrow>
               if status \<noteq> PJ_SUCCESS then Some (status, l1)
               else (case layer_recv env se rdata p l1 of
                       None \<Rightarrow> None
                     | Some l2 \<Rightarrow>
                         map_option (\<lambda>(status, l3). (status,
                             if status \<noteq> PJ_SUCCESS
                             then l3\<lparr>tsx_of := (tsx_of l3)(p := map_option (add_tx_ref (td_ptr tdata) (-1)) (tsx_of l3 p))\<rparr>
                             else l3))
                           (layer_send env se (Some tdata) p l2))))"

end
