(* ===== verification/Sip_Layer_Props.thy ===== *)
theory Sip_Layer_Props
  imports Sip_Tsx_Props Sip_Tsx_Layer
begin

text \<open>
  Lemmas and properties of the transaction layer: the keys and their buffers, registration on the
  hash tables, the way of a received message to its transaction, and merged requests.
\<close>

section \<open>Bytes of keys\<close>

lemma key_method_length: "length (key_method m) \<le> length (meth_name m) + 1"
  by (simp add: key_method_def)

text \<open>The part of the method in a key: INVITE and ACK have the same, other methods their name.\<close>

definition method_class :: "pjsip_method \<Rightarrow> byte list option" where
  "method_class m = (if meth_id m = PJSIP_INVITE_METHOD \<or> meth_id m = PJSIP_ACK_METHOD then None
     else Some (norm True (meth_name m)))"

text \<open>The characters of a SIP token: not the separator, not zero.\<close>

definition token :: "byte list \<Rightarrow> bool" where
  "token bs \<longleftrightarrow> 36 \<notin> set bs \<and> 0 \<notin> set bs"

lemma token_norm: "token bs \<Longrightarrow> 36 \<notin> set (norm True bs)"
proof -
  assume t: "token bs"
  have "36 \<notin> pj_tolower ` set bs"
  proof
    assume "36 \<in> pj_tolower ` set bs"
    then obtain x where "x \<in> set bs" "pj_tolower x = 36" by force
    then show False using t by (simp add: token_def)
  qed
  then show "36 \<notin> set (norm True bs)" by (simp add: norm_def)
qed

lemma norm_simps [simp]:
  "norm True [] = []" "norm True (x # xs) = pj_tolower x # norm True xs" "norm True (xs @ ys) = norm True xs @ norm True ys"
  by (simp_all add: norm_def)

lemma lower_consts: "pj_tolower 36 = 36" "pj_tolower 99 = 99" "pj_tolower 115 = 115"
  by (simp_all add: pj_tolower_def)

lemma key_3261_norm:
  "norm True (create_tsx_key_3261 r m b) = role_char r # 36 #
     (case method_class m of None \<Rightarrow> norm True b | Some n \<Rightarrow> n @ 36 # norm True b)"
  by (simp add: create_tsx_key_3261_def key_method_def method_class_def role_char_def lower_consts)

lemma key_3261_ok: "token (meth_name m) \<Longrightarrow> token b \<Longrightarrow> key_ok True (create_tsx_key_3261 r m b)"
  by (auto simp: key_ok_def create_tsx_key_3261_def key_method_def role_char_def token_def dest!: in_set_butlastD)

section \<open>Properties of the keys\<close>

text \<open>C24: the key of a transaction identifies it: with tokens for branches and methods, the tables hold two
  RFC 3261 keys for the same, ignoring case, exactly when role and branch agree and the methods do or
  are INVITE and ACK; so an ACK finds its INVITE, while a CANCEL, which has the branch too, does not.\<close>

theorem tsx_key_identifies:
  assumes "token (meth_name m)" and "token (meth_name m')" and "token b" and "token b'"
  shows "norm True (create_tsx_key_3261 r m b) = norm True (create_tsx_key_3261 r' m' b') \<longleftrightarrow>
    r = r' \<and> norm True b = norm True b' \<and> method_class m = method_class m'"
proof -
  have n: "36 \<notin> set (norm True b)" "36 \<notin> set (norm True b')" using assms(3,4) by (simp_all add: token_norm)
  have nn: "x @ 36 # y \<noteq> norm True b" "x @ 36 # y \<noteq> norm True b'" for x y
    using n by (metis in_set_conv_decomp)+
  have c: "36 \<notin> set x" if "method_class m = Some x" for x
    using that assms(1) by (auto simp: method_class_def token_norm split: if_splits)
  have c': "36 \<notin> set x" if "method_class m' = Some x" for x
    using that assms(2) by (auto simp: method_class_def token_norm split: if_splits)
  have r: "role_char r = role_char r' \<longleftrightarrow> r = r'" by (cases r; cases r'; simp add: role_char_def)
  show ?thesis
    using n nn nn[symmetric] c c' separated[where s = "36 :: byte"] by (auto simp: key_3261_norm r split: option.split)
qed

text \<open>Keys fit the buffers that are allocated for them, the terminating zero of the RFC 2543 key
  included, for every sequence number and port of 32 bits.\<close>

theorem tsx_key_fits:
  assumes "rx_cseq rdata < 4294967296" and "rx_via_port rdata < 4294967296"
  shows "length (create_tsx_key_2543 r m rdata v) \<le> key_2543_len m rdata v \<and>
    length (create_tsx_key_3261 r m b) \<le> key_3261_len m b"
  using utoa_length[OF assms(1)] utoa_length[OF assms(2)] key_method_length[of m]
  by (auto simp: create_tsx_key_2543_def key_2543_len_def create_tsx_key_3261_def key_3261_len_def)

section \<open>Registration\<close>

definition layer_ok :: "tsx_layer \<Rightarrow> bool" where
  "layer_ok l \<longleftrightarrow> hash_inv True (htable l) \<and> hash_inv True (htable2 l)"

lemma get_lower_null:
  "hash_inv True ht \<Longrightarrow> key_ok True k \<Longrightarrow> pj_hash_get_lower ht (Key_Bytes k) None = pj_hash_get_lower ht (Key_Bytes k) (Some 0)"
  using get_view[of True ht "Key_Bytes k"] by (simp add: pj_hash_get_lower_def hval_ok_def)

definition keys_ok :: "pjsip_transaction \<Rightarrow> bool" where
  "keys_ok tsx \<longleftrightarrow> key_ok True (transaction_key tsx) \<and> (role tsx = PJSIP_ROLE_UAS \<longrightarrow> key_ok True (transaction_key2 tsx))"

lemma register_eq:
  assumes "layer_ok l" and "keys_ok tsx"
  shows "mod_tsx_layer_register_tsx p tsx l =
    (if view True (htable l) (norm True (transaction_key tsx)) \<noteq> None then (PJ_EEXISTS, l)
     else (PJ_SUCCESS, l\<lparr>htable := pj_hash_set_lower (htable l) (Key_Bytes (transaction_key tsx)) (hashed (transaction_key tsx)) (Some p),
       htable2 := if role tsx = PJSIP_ROLE_UAS
         then pj_hash_set_lower (htable2 l) (Key_Bytes (transaction_key2 tsx)) (hashed (transaction_key2 tsx)) (Some p) else htable2 l\<rparr>))"
  using assms lower_tbl.get_law[of "htable l" "transaction_key tsx"]
  by (simp add: mod_tsx_layer_register_tsx_def Let_def layer_ok_def keys_ok_def get_lower_null)

lemma set_lower_laws:
  assumes "hash_inv True ht" and "key_ok True k"
  shows "hash_inv True (pj_hash_set_lower ht (Key_Bytes k) (hashed k) v)"
    and "view True (pj_hash_set_lower ht (Key_Bytes k) (hashed k) v) = (view True ht)(norm True k := v)"
  using lower_tbl.put_inv[OF assms] lower_tbl.put_law[OF assms] by (simp_all add: hashed_def)

text \<open>What registering leaves in the tables.\<close>

lemma registered:
  assumes "layer_ok l" and "keys_ok tsx" and "mod_tsx_layer_register_tsx p tsx l = (PJ_SUCCESS, l')"
  shows "layer_ok l'" and "view True (htable l) (norm True (transaction_key tsx)) = None"
    and "view True (htable l') = (view True (htable l))(norm True (transaction_key tsx) \<mapsto> p)"
    and "view True (htable2 l') = (if role tsx = PJSIP_ROLE_UAS
           then (view True (htable2 l))(norm True (transaction_key2 tsx) \<mapsto> p) else view True (htable2 l))"
    and "tsx_of l' = tsx_of l"
  using assms(3) assms(1,2) unfolding register_eq[OF assms(1,2)]
  by (auto simp: layer_ok_def keys_ok_def set_lower_laws split: if_splits)

lemma unregistered:
  assumes "layer_ok l" and "keys_ok tsx"
  shows "layer_ok (unregister_tables tsx l)"
    and "view True (htable (unregister_tables tsx l)) = (view True (htable l))(norm True (transaction_key tsx) := None)"
    and "view True (htable2 (unregister_tables tsx l)) = (if role tsx = PJSIP_ROLE_UAS
           then (view True (htable2 l))(norm True (transaction_key2 tsx) := None) else view True (htable2 l))"
  using assms by (auto simp: unregister_tables_def Let_def layer_ok_def keys_ok_def set_lower_laws)

text \<open>C13: registering a transaction adds its key, unless the key exists; then every lookup answers as the
  map with the key added, the count grows by one, and unregistering it gives the old table back.\<close>

theorem tsx_register_refines:
  assumes "layer_ok l" and "keys_ok tsx" and "key_ok True k"
  defines "m \<equiv> view True (htable l)" and "key \<equiv> norm True (transaction_key tsx)"
  shows "if m key \<noteq> None then mod_tsx_layer_register_tsx p tsx l = (PJ_EEXISTS, l)
    else \<exists>l'. mod_tsx_layer_register_tsx p tsx l = (PJ_SUCCESS, l') \<and> layer_ok l' \<and>
      find_tsx k False l' = ((m(key \<mapsto> p)) (norm True k), l') \<and>
      pjsip_tsx_layer_get_tsx_count l' = pjsip_tsx_layer_get_tsx_count l + 1 \<and>
      view True (htable (unregister_tables tsx l')) = m"
proof (cases "m key = None")
  case False
  then show ?thesis by (simp add: register_eq[OF assms(1,2)] m_def key_def)
next
  case True
  then obtain l' where r: "mod_tsx_layer_register_tsx p tsx l = (PJ_SUCCESS, l')"
    by (simp add: register_eq[OF assms(1,2)] m_def key_def)
  note d = registered[OF assms(1,2) r]
  have i: "hash_inv True (htable l)" "hash_inv True (htable l')" using assms(1) d(1) by (simp_all add: layer_ok_def)
  have "finite (dom m)" unfolding m_def by (rule finite_dom_view[OF i(1)])
  then have "card (dom (m(key \<mapsto> p))) = card (dom m) + 1" using True by (simp add: domIff)
  then have "pjsip_tsx_layer_get_tsx_count l' = pjsip_tsx_layer_get_tsx_count l + 1"
    using count_view[OF i(1)] count_view[OF i(2)] d(3) by (simp add: pjsip_tsx_layer_get_tsx_count_def m_def key_def)
  moreover have "find_tsx k False l' = ((m(key \<mapsto> p)) (norm True k), l')"
    using lower_tbl.get_law[OF i(2) assms(3)] d(3)
    by (simp add: find_tsx_def m_def key_def split: option.split)
  moreover have "view True (htable (unregister_tables tsx l')) = m"
    using unregistered(2)[OF d(1) assms(2)] d(3) True by (simp add: m_def key_def fun_upd_idem)
  ultimately show ?thesis using True r d(1) by simp
qed

section \<open>The way of a request\<close>

text \<open>What a successful creation leaves: a registered server transaction with the keys of its request.\<close>

lemma create_uas2_result:
  assumes "pjsip_tsx_create_uas2 env user grp rdata res p l = (PJ_SUCCESS, Some tsx, l1)" and "res \<noteq> Inl PJ_SUCCESS"
  shows "\<exists>m l0. rx_msg rdata = Request_Msg m \<and> meth_id m \<noteq> PJSIP_ACK_METHOD \<and> role tsx = PJSIP_ROLE_UAS \<and> tsx_method tsx = m \<and>
    transaction_key tsx = pjsip_tsx_create_key PJSIP_ROLE_UAS m rdata \<and>
    transaction_key2 tsx = create_tsx_key_2543 PJSIP_ROLE_UAS m rdata False \<and>
    mod_tsx_layer_register_tsx p tsx l = (PJ_SUCCESS, l0) \<and> l1 = l0\<lparr>tsx_of := (tsx_of l0)(p \<mapsto> tsx)\<rparr>"
proof -
  obtain m where m: "rx_msg rdata = Request_Msg m" "meth_id m \<noteq> PJSIP_ACK_METHOD" "pjsip_method_eq m (rx_cseq_method rdata)"
    using assms(1) by (auto simp: pjsip_tsx_create_uas2_def split: pjsip_msg.splits if_splits)
  define t where "t = (tsx_create user grp)
    \<lparr>role := PJSIP_ROLE_UAS, tsx_method := m, tsx_cseq := rx_cseq rdata,
     transaction_key := pjsip_tsx_create_key PJSIP_ROLE_UAS m rdata,
     transaction_key2 := create_tsx_key_2543 PJSIP_ROLE_UAS m rdata False,
     branch := rx_branch rdata, state := PJSIP_TSX_STATE_NULL\<rparr>"
  note u = assms(1)[unfolded pjsip_tsx_create_uas2_def m(1) pjsip_msg.case if_not_P[OF m(2)] Let_def t_def[symmetric]]
  show ?thesis
  proof (cases res)
    case (Inl status)
    then show ?thesis using u m(3) assms(2) by (auto split: if_splits)
  next
    case (Inr r)
    obtain tp alen reliable where r: "r = (tp, alen, reliable)" by (cases r)
    define t1 where "t1 = (case tp of
        Some t' \<Rightarrow> (tsx_update_transport env (Some t') (t\<lparr>res_transport := tp\<rparr>))\<lparr>addr_len := alen, is_reliable := te_reliable env t'\<rparr>
      | None \<Rightarrow> t\<lparr>is_reliable := reliable\<rparr>)"
    have c: "core t1 = core t" by (auto simp: t1_def split: option.split)
    obtain st l0 where g: "mod_tsx_layer_register_tsx p t1 l = (st, l0)" by (rule prod.exhaust)
    have "st = PJ_SUCCESS \<and> tsx = t1 \<and> l1 = l0\<lparr>tsx_of := (tsx_of l0)(p \<mapsto> t1)\<rparr>"
      using u m(3) unfolding Inr r sum.case prod.case t1_def[symmetric] g by (auto split: if_splits)
    moreover have "role t1 = PJSIP_ROLE_UAS" "tsx_method t1 = m" "transaction_key t1 = pjsip_tsx_create_key PJSIP_ROLE_UAS m rdata"
      "transaction_key2 t1 = create_tsx_key_2543 PJSIP_ROLE_UAS m rdata False"
      using coreD[OF c] by (simp_all add: t_def)
    ultimately show ?thesis using m g by blast
  qed
qed

text \<open>Messages whose fields are free of the bytes that end them.\<close>

definition rdata_ok :: "pjsip_rx_data \<Rightarrow> bool" where
  "rdata_ok rdata \<longleftrightarrow> token (rx_branch rdata) \<and> token (meth_name (rx_cseq_method rdata)) \<and>
     0 \<notin> set (rx_from_tag rdata) \<and> 0 \<notin> set (rx_call_id rdata) \<and> 0 \<notin> set (rx_via_host rdata)"

lemma key_2543_ok:
  assumes "rdata_ok rdata" and "token (meth_name m)"
  shows "key_ok True (create_tsx_key_2543 r m rdata v)"
proof -
  have "x \<noteq> 0" if "x \<in> set (pj_utoa n)" for x n using utoa_bytes[OF that] by simp
  then show ?thesis using assms
    by (auto simp: key_ok_def create_tsx_key_2543_def rdata_ok_def token_def role_char_def key_method_def butlast_append
        split: if_splits)
qed

lemma key_ok_created:
  assumes "rdata_ok rdata" and "token (meth_name m)"
  shows "key_ok True (pjsip_tsx_create_key r m rdata)"
  using assms key_3261_ok[of m "rx_branch rdata" r] key_2543_ok[OF assms]
  by (auto simp: pjsip_tsx_create_key_def rdata_ok_def)

definition rfc3261 :: "pjsip_rx_data \<Rightarrow> bool" where
  "rfc3261 rdata \<longleftrightarrow> pj_strnicmp_eq (rx_branch rdata) PJSIP_RFC3261_BRANCH_ID 7"


section \<open>Merged requests\<close>

lemma create_key_class:
  assumes "rfc3261 rdata"
  shows "pjsip_tsx_create_key r m rdata = create_tsx_key_3261 r m (rx_branch rdata)"
  using assms by (simp add: pjsip_tsx_create_key_def rfc3261_def)

lemma detect_eq:
  assumes "layer_ok l" and "rdata_ok rdata" and "rx_msg rdata = Request_Msg m" and "rx_to_tag rdata = []"
  defines "k \<equiv> norm True (pjsip_tsx_create_key PJSIP_ROLE_UAS (rx_cseq_method rdata) rdata)"
    and "k2 \<equiv> norm True (create_tsx_key_2543 PJSIP_ROLE_UAS (rx_cseq_method rdata) rdata False)"
  shows "pjsip_tsx_detect_merged_requests rdata l = (if view True (htable l) k \<noteq> None then None else view True (htable2 l) k2)"
proof -
  have t: "token (meth_name (rx_cseq_method rdata))" using assms(2) by (simp add: rdata_ok_def)
  have h: "hash_inv True (htable l)" "hash_inv True (htable2 l)" using assms(1) by (simp_all add: layer_ok_def)
  note g = lower_tbl.get_law[OF h(1) key_ok_created[OF assms(2) t], of PJSIP_ROLE_UAS]
    lower_tbl.get_law[OF h(2) key_2543_ok[OF assms(2) t], of PJSIP_ROLE_UAS False]
  have "is_request (rx_msg rdata)" by (simp add: assms(3) is_request_def)
  then show ?thesis unfolding pjsip_tsx_detect_merged_requests_def g k_def k2_def by (simp add: assms(4))
qed

text \<open>C38: answering a merged request forgets the transaction it was merged with: the transaction of the answer takes
  over the entry of the secondary table, and removes it when it ends; the next copy of the request, with a
  third branch, is then not detected, while the first transaction is still there.\<close>

theorem merged_request_forgotten:
  assumes "layer_ok l" and "rdata_ok rdata" and "rx_msg rdata = Request_Msg (rx_cseq_method rdata)"
    and "rdata_ok rdata'" and "rx_msg rdata' = rx_msg rdata" and "rx_to_tag rdata' = []" and "rx_cseq_method rdata' = rx_cseq_method rdata"
    and "rx_from_tag rdata' = rx_from_tag rdata" and "rx_call_id rdata' = rx_call_id rdata" and "rx_cseq rdata' = rx_cseq rdata"
    and "pjsip_tsx_detect_merged_requests rdata' l = Some p" and "view True (htable l) key = Some p"
    and "pjsip_tsx_create_uas2 env user grp rdata res q l = (PJ_SUCCESS, Some tsx, l1)" and "res \<noteq> Inl PJ_SUCCESS"
  shows "layer_ok (unregister_tables tsx l1) \<and> view True (htable (unregister_tables tsx l1)) key = Some p \<and>
    pjsip_tsx_detect_merged_requests rdata' (unregister_tables tsx l1) = None"
proof -
  obtain l0 where c: "role tsx = PJSIP_ROLE_UAS" "transaction_key tsx = pjsip_tsx_create_key PJSIP_ROLE_UAS (rx_cseq_method rdata) rdata"
      "transaction_key2 tsx = create_tsx_key_2543 PJSIP_ROLE_UAS (rx_cseq_method rdata) rdata False"
      "mod_tsx_layer_register_tsx q tsx l = (PJ_SUCCESS, l0)" "l1 = l0\<lparr>tsx_of := (tsx_of l0)(q \<mapsto> tsx)\<rparr>"
    using create_uas2_result[OF assms(13,14)] assms(3) by auto
  have t: "token (meth_name (rx_cseq_method rdata))" using assms(2) by (simp add: rdata_ok_def)
  have k: "keys_ok tsx" using assms(2) t by (simp add: keys_ok_def c(2,3) key_ok_created key_2543_ok)
  note g = registered[OF assms(1) k c(4)]
  have l1: "layer_ok l1" "htable l1 = htable l0" using g(1) by (simp_all add: c(5) layer_ok_def)
  note u = unregistered[OF l1(1) k]
  have "view True (htable l1) key = Some p \<and> key \<noteq> norm True (transaction_key tsx)"
    using g(2,3) assms(12) l1(2) by auto
  then have "view True (htable (unregister_tables tsx l1)) key = Some p" using u(2) by simp
  moreover have "view True (htable2 (unregister_tables tsx l1))
      (norm True (create_tsx_key_2543 PJSIP_ROLE_UAS (rx_cseq_method rdata') rdata' False)) = None"
    using u(3) assms(7-10) c(1,3) by (simp add: create_tsx_key_2543_def)
  then have "pjsip_tsx_detect_merged_requests rdata' (unregister_tables tsx l1) = None"
    using detect_eq[OF u(1) assms(4) trans[OF assms(5,3)] assms(6)] by simp
  ultimately show ?thesis using u(1) by blast
qed

section \<open>Witnesses\<close>

definition byes :: pjsip_method where
  "byes = \<lparr>meth_id = PJSIP_BYE_METHOD, meth_name = [66, 89, 69]\<rparr>"

definition invites :: pjsip_method where
  "invites = \<lparr>meth_id = PJSIP_INVITE_METHOD, meth_name = [73]\<rparr>"

definition request :: "byte \<Rightarrow> pjsip_method \<Rightarrow> pjsip_rx_data" where
  "request b m = \<lparr>rx_msg = Request_Msg m, rx_branch = PJSIP_RFC3261_BRANCH_ID @ [b], rx_via_host = [104], rx_via_port = 5060,
     rx_cseq = 1, rx_cseq_method = m, rx_from_tag = [102], rx_to_tag = [], rx_call_id = [99]\<rparr>"

definition empty_layer :: tsx_layer where
  "empty_layer = (let t = \<lparr>table = replicate 16 [], ht_count = 0, rows = 15\<rparr>
     in \<lparr>htable = t, htable2 = t, tsx_of = Map.empty\<rparr>)"

lemma empty_layer_ok: "layer_ok empty_layer"
  by (simp add: layer_ok_def empty_layer_def hash_inv_def Let_def)

lemma empty_layer_view: "view True (htable empty_layer) k = None" "view True (htable2 empty_layer) k = None"
  by (simp_all add: view_def empty_layer_def Let_def)

lemma request_ok:
  assumes "b \<noteq> 0" and "b \<noteq> 36" and "m = invites \<or> m = byes"
  shows "rdata_ok (request b m)" and "rfc3261 (request b m)"
proof -
  show "rdata_ok (request b m)" using assms
    by (auto simp: rdata_ok_def token_def request_def PJSIP_RFC3261_BRANCH_ID_def invites_def byes_def)
  have "pj_ansi_strnicmp_eq (length PJSIP_RFC3261_BRANCH_ID) PJSIP_RFC3261_BRANCH_ID PJSIP_RFC3261_BRANCH_ID"
    by (subst strnicmp_norm) (simp_all add: PJSIP_RFC3261_BRANCH_ID_def)
  moreover have "length PJSIP_RFC3261_BRANCH_ID = 7" "PJSIP_RFC3261_BRANCH_ID \<noteq> []" by (simp_all add: PJSIP_RFC3261_BRANCH_ID_def)
  ultimately show "rfc3261 (request b m)" by (simp add: rfc3261_def pj_strnicmp_eq_def pj_stricmp_eq_def request_def)
qed

lemma tsx_key_identifies_witness:
  "norm True (create_tsx_key_3261 PJSIP_ROLE_UAS invites [65]) \<noteq> norm True (create_tsx_key_3261 PJSIP_ROLE_UAS byes [65])"
  using tsx_key_identifies[of invites byes "[65]" "[65]" PJSIP_ROLE_UAS PJSIP_ROLE_UAS]
  by (simp add: token_def invites_def byes_def method_class_def)

lemma tsx_key_fits_witness:
  "length (create_tsx_key_2543 PJSIP_ROLE_UAS byes (request 1 byes) True) \<le> key_2543_len byes (request 1 byes) True"
  using tsx_key_fits[of "request 1 byes" PJSIP_ROLE_UAS byes True "[]"] by (simp add: request_def)

definition sample_server :: pjsip_transaction where
  "sample_server = (tsx_create None None)\<lparr>role := PJSIP_ROLE_UAS, transaction_key := [97], transaction_key2 := [98, 0]\<rparr>"

lemma tsx_register_refines_witness:
  "\<exists>l'. mod_tsx_layer_register_tsx 5 sample_server empty_layer = (PJ_SUCCESS, l') \<and> find_tsx [65] False l' = (Some 5, l')"
  using tsx_register_refines[OF empty_layer_ok, of sample_server "[65]" 5]
  by (auto simp: keys_ok_def key_ok_def sample_server_def tsx_create_def empty_layer_view norm_def pj_tolower_def)

text \<open>Creating the transaction of a sample request.\<close>

definition sample_create :: "byte \<Rightarrow> nat \<Rightarrow> tsx_layer \<Rightarrow> pj_status_t \<times> pjsip_transaction option \<times> tsx_layer" where
  "sample_create b p l = pjsip_tsx_create_uas2 sample_env None None (request b invites) (Inr (None, 0, False)) p l"

lemma sample_created:
  assumes "layer_ok l" and "b \<noteq> 0" and "b \<noteq> 36"
    and "view True (htable l) (norm True (create_tsx_key_3261 PJSIP_ROLE_UAS invites (PJSIP_RFC3261_BRANCH_ID @ [b]))) = None"
  shows "\<exists>tsx l1. sample_create b p l = (PJ_SUCCESS, Some tsx, l1) \<and> state tsx = PJSIP_TSX_STATE_NULL \<and> status_code tsx = 0 \<and>
    layer_ok l1 \<and> tsx_of l1 p = Some tsx \<and>
    view True (htable l1) = (view True (htable l))(norm True (create_tsx_key_3261 PJSIP_ROLE_UAS invites (PJSIP_RFC3261_BRANCH_ID @ [b])) \<mapsto> p) \<and>
    view True (htable2 l1) = (view True (htable2 l))(norm True (create_tsx_key_2543 PJSIP_ROLE_UAS invites (request b invites) False) \<mapsto> p)"
proof -
  let ?r = "request b invites"
  define t where "t = (tsx_create None None)
    \<lparr>role := PJSIP_ROLE_UAS, tsx_method := invites, tsx_cseq := rx_cseq ?r,
     transaction_key := pjsip_tsx_create_key PJSIP_ROLE_UAS invites ?r,
     transaction_key2 := create_tsx_key_2543 PJSIP_ROLE_UAS invites ?r False,
     branch := rx_branch ?r, state := PJSIP_TSX_STATE_NULL, is_reliable := False\<rparr>"
  have ok: "rdata_ok ?r" "rfc3261 ?r" "token (meth_name invites)"
    using request_ok[OF assms(2,3)] by (auto simp: invites_def token_def)
  have kk: "pjsip_tsx_create_key PJSIP_ROLE_UAS invites ?r = create_tsx_key_3261 PJSIP_ROLE_UAS invites (PJSIP_RFC3261_BRANCH_ID @ [b])"
    using create_key_class[OF ok(2)] by (simp add: request_def)
  have k: "keys_ok t" using ok by (simp add: keys_ok_def t_def key_ok_created key_2543_ok)
  have "view True (htable l) (norm True (transaction_key t)) = None" using assms(4) by (simp add: t_def kk)
  then obtain l0 where r: "mod_tsx_layer_register_tsx p t l = (PJ_SUCCESS, l0)"
    by (simp add: register_eq[OF assms(1) k])
  note g = registered[OF assms(1) k r]
  have "sample_create b p l = (PJ_SUCCESS, Some t, l0\<lparr>tsx_of := (tsx_of l0)(p \<mapsto> t)\<rparr>)"
    unfolding sample_create_def pjsip_tsx_create_uas2_def Let_def
    using r by (simp add: t_def request_def invites_def pjsip_method_eq_def)
  moreover have "state t = PJSIP_TSX_STATE_NULL" "status_code t = 0" "role t = PJSIP_ROLE_UAS" by (simp_all add: t_def tsx_create_def)
  moreover have "transaction_key t = create_tsx_key_3261 PJSIP_ROLE_UAS invites (PJSIP_RFC3261_BRANCH_ID @ [b])"
    "transaction_key2 t = create_tsx_key_2543 PJSIP_ROLE_UAS invites ?r False" by (simp_all add: t_def kk)
  ultimately show ?thesis using g by (simp add: layer_ok_def)
qed

definition acks :: pjsip_method where
  "acks = \<lparr>meth_id = PJSIP_ACK_METHOD, meth_name = [65]\<rparr>"


lemma merged_request_forgotten_witness:
  "\<exists>l p tsx l1. pjsip_tsx_detect_merged_requests (request 3 invites) l = Some p \<and>
    sample_create 2 6 l = (PJ_SUCCESS, Some tsx, l1) \<and>
    pjsip_tsx_detect_merged_requests (request 3 invites) (unregister_tables tsx l1) = None"
proof -
  let ?k = "\<lambda>b. norm True (create_tsx_key_3261 PJSIP_ROLE_UAS invites (PJSIP_RFC3261_BRANCH_ID @ [b]))"
  obtain t l where l: "layer_ok l" "view True (htable l) = [?k 1 \<mapsto> 5]"
      "view True (htable2 l) = [norm True (create_tsx_key_2543 PJSIP_ROLE_UAS invites (request 1 invites) False) \<mapsto> 5]"
    using sample_created[OF empty_layer_ok, of 1 5] empty_layer_view by (auto simp: fun_eq_iff)
  have d: "?k 1 \<noteq> ?k 2" "?k 1 \<noteq> ?k 3"
    by (simp_all add: key_3261_norm method_class_def invites_def pj_tolower_def)
  then obtain tsx l1 where c: "sample_create 2 6 l = (PJ_SUCCESS, Some tsx, l1)"
    using sample_created[OF l(1), of 2 6] l(2) by auto
  have m: "rx_cseq_method (request b invites) = invites" "rx_msg (request b invites) = Request_Msg invites" "rx_to_tag (request b invites) = []"
    "rx_branch (request b invites) = PJSIP_RFC3261_BRANCH_ID @ [b]" for b
    by (simp_all add: request_def)
  have k2: "create_tsx_key_2543 PJSIP_ROLE_UAS invites (request 3 invites) False = create_tsx_key_2543 PJSIP_ROLE_UAS invites (request 1 invites) False"
    by (simp add: create_tsx_key_2543_def request_def)
  have "pjsip_tsx_create_key PJSIP_ROLE_UAS invites (request 3 invites) = create_tsx_key_3261 PJSIP_ROLE_UAS invites (PJSIP_RFC3261_BRANCH_ID @ [3])"
    using create_key_class[OF request_ok(2)[of 3 invites]] by (simp add: m)
  then have e: "pjsip_tsx_detect_merged_requests (request 3 invites) l = Some 5"
    using detect_eq[OF l(1) request_ok(1)[of 3 invites] m(2,3)] d k2 by (simp add: m l(2,3))
  have "pjsip_tsx_detect_merged_requests (request 3 invites) (unregister_tables tsx l1) = None"
    using merged_request_forgotten[OF l(1) request_ok(1)[of 2 invites] _ request_ok(1)[of 3 invites] _ _ _ _ _ _ e _ c[unfolded sample_create_def],
        of "?k 1"] l(2)
    by (simp add: m) (simp add: request_def)
  then show ?thesis using e c by blast
qed

end
