(* ===== verification/Sdp.thy ===== *)
theory Sdp
  imports Pj_String
begin

unbundle bit_operations_syntax

text \<open>
  Session descriptions: the data of \<^verbatim>\<open>pjmedia/include/pjmedia/sdp.h\<close> and the operations of
  \<^verbatim>\<open>pjmedia/src/pjmedia/sdp.c\<close> and \<^verbatim>\<open>sdp_cmp.c\<close> that the negotiator uses, with the part of the scanner of
  PJLIB-UTIL that reads an \<^verbatim>\<open>rtpmap\<close>. An array with its count is a list; a \<^verbatim>\<open>clone\<close> is the value itself, since
  no two descriptions share anything that is written to; an attribute is named by its index where the code has
  its pointer.
\<close>

section \<open>Status codes\<close>

abbreviation (input) "PJMEDIA_SDP_EINORIGIN \<equiv> (220022 :: pj_status_t)"
abbreviation (input) "PJMEDIA_SDP_EINNAME \<equiv> (220024 :: pj_status_t)"
abbreviation (input) "PJMEDIA_SDP_EINCONN \<equiv> (220025 :: pj_status_t)"
abbreviation (input) "PJMEDIA_SDP_EMISSINGCONN \<equiv> (220026 :: pj_status_t)"
abbreviation (input) "PJMEDIA_SDP_EINATTR \<equiv> (220027 :: pj_status_t)"
abbreviation (input) "PJMEDIA_SDP_EINRTPMAP \<equiv> (220028 :: pj_status_t)"
abbreviation (input) "PJMEDIA_SDP_ERTPMAPTOOLONG \<equiv> (220029 :: pj_status_t)"
abbreviation (input) "PJMEDIA_SDP_EMISSINGRTPMAP \<equiv> (220030 :: pj_status_t)"
abbreviation (input) "PJMEDIA_SDP_EINMEDIA \<equiv> (220031 :: pj_status_t)"
abbreviation (input) "PJMEDIA_SDP_ENOFMT \<equiv> (220032 :: pj_status_t)"
abbreviation (input) "PJMEDIA_SDP_EINPT \<equiv> (220033 :: pj_status_t)"
abbreviation (input) "PJMEDIA_SDP_EINFMTP \<equiv> (220034 :: pj_status_t)"
abbreviation (input) "PJMEDIA_SDP_EMEDIANOTEQUAL \<equiv> (220060 :: pj_status_t)"
abbreviation (input) "PJMEDIA_SDP_EPORTNOTEQUAL \<equiv> (220061 :: pj_status_t)"
abbreviation (input) "PJMEDIA_SDP_ETPORTNOTEQUAL \<equiv> (220062 :: pj_status_t)"
abbreviation (input) "PJMEDIA_SDP_EFORMATNOTEQUAL \<equiv> (220063 :: pj_status_t)"
abbreviation (input) "PJMEDIA_SDP_ECONNNOTEQUAL \<equiv> (220064 :: pj_status_t)"
abbreviation (input) "PJMEDIA_SDP_EDIRNOTEQUAL \<equiv> (220066 :: pj_status_t)"
abbreviation (input) "PJMEDIA_SDP_EFMTPNOTEQUAL \<equiv> (220067 :: pj_status_t)"
abbreviation (input) "PJMEDIA_SDP_ERTPMAPNOTEQUAL \<equiv> (220068 :: pj_status_t)"
abbreviation (input) "PJMEDIA_SDP_EORIGINNOTEQUAL \<equiv> (220070 :: pj_status_t)"
abbreviation (input) "PJMEDIA_SDP_ENAMENOTEQUAL \<equiv> (220071 :: pj_status_t)"
abbreviation (input) "PJMEDIA_SDP_ETIMENOTEQUAL \<equiv> (220072 :: pj_status_t)"

section \<open>Data\<close>

type_synonym pj_str_t = "byte list"

record pjmedia_sdp_attr =
  attr_name :: pj_str_t
  attr_value :: pj_str_t

record pjmedia_sdp_rtpmap =
  rm_pt :: pj_str_t
  rm_enc_name :: pj_str_t
  rm_clock_rate :: nat
  rm_param :: pj_str_t

record pjmedia_sdp_fmtp =
  fmtp_fmt :: pj_str_t
  fmtp_param :: pj_str_t

record pjmedia_sdp_conn =
  conn_net_type :: pj_str_t
  conn_addr_type :: pj_str_t
  conn_addr :: pj_str_t

record pjmedia_sdp_bandw =
  bandw_modifier :: pj_str_t
  bandw_value :: nat

record pjmedia_sdp_media =
  m_media :: pj_str_t
  m_port :: nat
  m_port_count :: nat
  m_transport :: pj_str_t
  m_fmt :: "pj_str_t list"
  m_conn :: "pjmedia_sdp_conn option"
  m_bandw :: "pjmedia_sdp_bandw list"
  m_attr :: "pjmedia_sdp_attr list"

record pjmedia_sdp_session =
  origin_user :: pj_str_t
  origin_id :: nat
  origin_version :: nat
  origin_net_type :: pj_str_t
  origin_addr_type :: pj_str_t
  origin_addr :: pj_str_t
  s_name :: pj_str_t
  s_conn :: "pjmedia_sdp_conn option"
  s_bandw :: "pjmedia_sdp_bandw list"
  time_start :: nat
  time_stop :: nat
  s_attr :: "pjmedia_sdp_attr list"
  s_media :: "pjmedia_sdp_media list"

definition PJMEDIA_MAX_SDP_FMT :: nat where "PJMEDIA_MAX_SDP_FMT = 32"
definition PJMEDIA_MAX_SDP_ATTR :: nat where "PJMEDIA_MAX_SDP_ATTR = PJMEDIA_MAX_SDP_FMT * 2 + 4"
definition PJMEDIA_MAX_SDP_MEDIA :: nat where "PJMEDIA_MAX_SDP_MEDIA = 16"

section \<open>Attributes\<close>

definition pjmedia_sdp_attr_create :: "pj_str_t \<Rightarrow> pj_str_t option \<Rightarrow> pjmedia_sdp_attr" where
  "pjmedia_sdp_attr_create name value_opt =
     \<lparr>attr_name = name, attr_value = (case value_opt of None \<Rightarrow> [] | Some v \<Rightarrow> v)\<rparr>"

text \<open>
  Whether the loop of \<^verbatim>\<open>pjmedia_sdp_attr_find\<close> takes an attribute: by its name and, with a format, by the number
  that its value starts with.
\<close>

definition attr_matches :: "pj_str_t \<Rightarrow> nat option \<Rightarrow> pjmedia_sdp_attr \<Rightarrow> bool" where
  "attr_matches name c_pt a \<longleftrightarrow>
     attr_name a = name \<and>
     (case c_pt of
        None \<Rightarrow> True
      | Some n \<Rightarrow> (let (pt, endptr) = pj_strtoul2 (attr_value a) in endptr \<noteq> attr_value a \<and> pt = n))"

fun find_index :: "('a \<Rightarrow> bool) \<Rightarrow> 'a list \<Rightarrow> nat option" where
  "find_index P [] = None"
| "find_index P (x # xs) = (if P x then Some 0 else map_option Suc (find_index P xs))"

definition pjmedia_sdp_attr_find :: "pjmedia_sdp_attr list \<Rightarrow> pj_str_t \<Rightarrow> pj_str_t option \<Rightarrow> nat option" where
  "pjmedia_sdp_attr_find attrs name c_fmt =
     (if length attrs > PJMEDIA_MAX_SDP_ATTR then None
      else case c_fmt of
             None \<Rightarrow> find_index (attr_matches name None) attrs
           | Some fmt \<Rightarrow>
               (case pj_strtoul3 fmt of
                  Inl _ \<Rightarrow> None
                | Inr ul \<Rightarrow> find_index (attr_matches name (Some ul)) attrs))"

definition pjmedia_sdp_attr_add :: "pjmedia_sdp_attr list \<Rightarrow> pjmedia_sdp_attr \<Rightarrow> pj_status_t \<times> pjmedia_sdp_attr list" where
  "pjmedia_sdp_attr_add attrs a =
     (if length attrs \<ge> PJMEDIA_MAX_SDP_ATTR then (PJ_ETOOMANY, attrs) else (PJ_SUCCESS, attrs @ [a]))"

definition pjmedia_sdp_attr_remove_all :: "pjmedia_sdp_attr list \<Rightarrow> pj_str_t \<Rightarrow> pjmedia_sdp_attr list" where
  "pjmedia_sdp_attr_remove_all attrs name =
     (if length attrs > PJMEDIA_MAX_SDP_ATTR then attrs else filter (\<lambda>a. attr_name a \<noteq> name) attrs)"

definition pjmedia_sdp_attr_remove :: "pjmedia_sdp_attr list \<Rightarrow> nat \<Rightarrow> pjmedia_sdp_attr list" where
  "pjmedia_sdp_attr_remove attrs i =
     (if length attrs > PJMEDIA_MAX_SDP_ATTR then attrs else take i attrs @ drop (Suc i) attrs)"

definition pjmedia_sdp_media_find_attr :: "pjmedia_sdp_media \<Rightarrow> pj_str_t \<Rightarrow> pj_str_t option \<Rightarrow> pjmedia_sdp_attr option" where
  "pjmedia_sdp_media_find_attr m name fmt =
     map_option (\<lambda>i. m_attr m ! i) (pjmedia_sdp_attr_find (m_attr m) name fmt)"

definition pjmedia_sdp_media_add_attr :: "pjmedia_sdp_media \<Rightarrow> pjmedia_sdp_attr \<Rightarrow> pj_status_t \<times> pjmedia_sdp_media" where
  "pjmedia_sdp_media_add_attr m a =
     (let (status, attrs) = pjmedia_sdp_attr_add (m_attr m) a in (status, m\<lparr>m_attr := attrs\<rparr>))"

definition pjmedia_sdp_media_remove_all_attr :: "pjmedia_sdp_media \<Rightarrow> pj_str_t \<Rightarrow> pjmedia_sdp_media" where
  "pjmedia_sdp_media_remove_all_attr m name = m\<lparr>m_attr := pjmedia_sdp_attr_remove_all (m_attr m) name\<rparr>"

text \<open>Finding an attribute of a format and, if there is one, removing it.\<close>

definition remove_found :: "pjmedia_sdp_media \<Rightarrow> pj_str_t \<Rightarrow> pj_str_t \<Rightarrow> pjmedia_sdp_media" where
  "remove_found m name fmt =
     (case pjmedia_sdp_attr_find (m_attr m) name (Some fmt) of
        None \<Rightarrow> m
      | Some i \<Rightarrow> m\<lparr>m_attr := pjmedia_sdp_attr_remove (m_attr m) i\<rparr>)"

section \<open>Reading attributes\<close>

text \<open>
  The scanner with the option \<^verbatim>\<open>PJ_SCAN_AUTOSKIP_WS\<close>: its state is what is left of the buffer. \<open>None\<close> is the
  exception that \<^verbatim>\<open>on_scanner_error\<close> throws.
\<close>

definition pj_scan_skip_whitespace :: "pj_str_t \<Rightarrow> pj_str_t" where
  "pj_scan_skip_whitespace s = dropWhile (\<lambda>c. c = 32 \<or> c = 9) s"

definition pj_scan_get :: "(byte \<Rightarrow> bool) \<Rightarrow> pj_str_t \<Rightarrow> (pj_str_t \<times> pj_str_t) option" where
  "pj_scan_get spec s =
     (if s = [] \<or> \<not> spec (hd s) then None
      else Some (takeWhile spec s, pj_scan_skip_whitespace (dropWhile spec s)))"

definition pj_scan_get_char :: "pj_str_t \<Rightarrow> (byte \<times> pj_str_t) option" where
  "pj_scan_get_char s = (if s = [] \<or> hd s = 0 then None else Some (hd s, pj_scan_skip_whitespace (tl s)))"

text \<open>The characters of \<^verbatim>\<open>TOKEN\<close>, with letters and digits.\<close>

definition cs_token :: "byte \<Rightarrow> bool" where
  "cs_token c \<longleftrightarrow> (97 \<le> c \<and> c \<le> 122) \<or> (65 \<le> c \<and> c \<le> 90) \<or> (48 \<le> c \<and> c \<le> 57) \<or>
     c \<in> set [33, 35, 36, 37, 38, 39, 42, 43, 45, 46, 94, 95, 96, 123, 124, 125, 126]"

definition cs_digit :: "byte \<Rightarrow> bool" where
  "cs_digit c \<longleftrightarrow> 48 \<le> c \<and> c \<le> 57"

abbreviation (input) "SLASH \<equiv> (47 :: byte)"

definition empty_rtpmap :: pjmedia_sdp_rtpmap where
  "empty_rtpmap = \<lparr>rm_pt = [], rm_enc_name = [], rm_clock_rate = 0, rm_param = []\<rparr>"

text \<open>The status, and what has been written to the \<^verbatim>\<open>rtpmap\<close> by then, which some callers use in any case.\<close>

definition pjmedia_sdp_attr_get_rtpmap :: "pjmedia_sdp_attr \<Rightarrow> pj_status_t \<times> pjmedia_sdp_rtpmap" where
  "pjmedia_sdp_attr_get_rtpmap a =
     (if attr_name a \<noteq> ascii ''rtpmap'' then (PJ_EINVALIDOP, empty_rtpmap)
      else if attr_value a = [] then (PJMEDIA_SDP_EINATTR, empty_rtpmap)
      else case pj_scan_get cs_token (pj_scan_skip_whitespace (attr_value a)) of
        None \<Rightarrow> (PJMEDIA_SDP_EINRTPMAP, empty_rtpmap)
      | Some (pt, s1) \<Rightarrow>
          let r1 = empty_rtpmap\<lparr>rm_pt := pt\<rparr>
          in case pj_scan_get cs_token s1 of
               None \<Rightarrow> (PJMEDIA_SDP_EINRTPMAP, r1)
             | Some (enc, s2) \<Rightarrow>
                 let r2 = r1\<lparr>rm_enc_name := enc\<rparr>
                 in case pj_scan_get_char s2 of
                      None \<Rightarrow> (PJMEDIA_SDP_EINRTPMAP, r2)
                    | Some (c, s3) \<Rightarrow>
                        if c \<noteq> SLASH then (PJMEDIA_SDP_EINRTPMAP, r2)
                        else case pj_scan_get cs_digit s3 of
                               None \<Rightarrow> (PJMEDIA_SDP_EINRTPMAP, r2)
                             | Some (tok, s4) \<Rightarrow>
                                 let r3 = r2\<lparr>rm_clock_rate := pj_strtoul tok\<rparr>
                                 in if s4 \<noteq> [] \<and> hd s4 = SLASH then
                                      case pj_scan_get_char s4 of
                                        None \<Rightarrow> (PJMEDIA_SDP_EINRTPMAP, r3)
                                      | Some (_, s5) \<Rightarrow>
                                          (case pj_scan_get cs_token s5 of
                                             None \<Rightarrow> (PJMEDIA_SDP_EINRTPMAP, r3)
                                           | Some (param, _) \<Rightarrow> (PJ_SUCCESS, r3\<lparr>rm_param := param\<rparr>))
                                    else (PJ_SUCCESS, r3))"

definition pjmedia_sdp_rtpmap_to_attr :: "pjmedia_sdp_rtpmap \<Rightarrow> pj_status_t + pjmedia_sdp_attr" where
  "pjmedia_sdp_rtpmap_to_attr r =
     (if rm_pt r = [] \<or> rm_enc_name r = [] \<or> rm_clock_rate r = 0 then Inl PJMEDIA_SDP_EINRTPMAP
      else let tempbuf = rm_pt r @ [32] @ rm_enc_name r @ [SLASH] @ pj_utoa (rm_clock_rate r) @
                         (if rm_param r \<noteq> [] then [SLASH] else []) @ rm_param r
           in if length tempbuf \<ge> 128 then Inl PJMEDIA_SDP_ERTPMAPTOOLONG
              else Inr \<lparr>attr_name = ascii ''rtpmap'', attr_value = tempbuf\<rparr>)"

definition pjmedia_sdp_attr_get_fmtp :: "pjmedia_sdp_attr \<Rightarrow> pj_status_t + pjmedia_sdp_fmtp" where
  "pjmedia_sdp_attr_get_fmtp a =
     (if attr_name a \<noteq> ascii ''fmtp'' then Inl PJ_EINVALIDOP
      else if attr_value a = [] then Inl PJMEDIA_SDP_EINATTR
      else let token = takeWhile pj_isdigit (attr_value a); p = dropWhile pj_isdigit (attr_value a)
           in if token = [] then Inl PJMEDIA_SDP_EINFMTP
              else if p = [] \<or> hd p \<noteq> 32 then Inl PJMEDIA_SDP_EINFMTP
              else Inr \<lparr>fmtp_fmt = token, fmtp_param = tl p\<rparr>)"

section \<open>Validation\<close>

text \<open>A sequence of checks that return at the first failure.\<close>

fun first_error :: "pj_status_t list \<Rightarrow> pj_status_t" where
  "first_error [] = PJ_SUCCESS"
| "first_error (s # ss) = (if s \<noteq> PJ_SUCCESS then s else first_error ss)"

definition CHECK :: "bool \<Rightarrow> pj_status_t \<Rightarrow> pj_status_t" where
  "CHECK e ret = (if e then PJ_SUCCESS else ret)"

definition valid_addr_type :: "pj_str_t \<Rightarrow> bool" where
  "valid_addr_type t \<longleftrightarrow> t = ascii ''IP4'' \<or> t = ascii ''IP6''"

definition validate_sdp_conn :: "pjmedia_sdp_conn \<Rightarrow> pj_status_t" where
  "validate_sdp_conn c = first_error
     [CHECK (conn_net_type c = ascii ''IN'') PJMEDIA_SDP_EINCONN,
      CHECK (valid_addr_type (conn_addr_type c)) PJMEDIA_SDP_EINCONN,
      CHECK (conn_addr c \<noteq> []) PJMEDIA_SDP_EINCONN]"

text \<open>A payload type; one that is not a number passes.\<close>

definition validate_fmt :: "pjmedia_sdp_media \<Rightarrow> pj_str_t \<Rightarrow> pj_status_t" where
  "validate_fmt m fmt =
     (if fmt \<noteq> [] \<and> pj_isdigit (hd fmt) then
        case pj_strtoul3 fmt of
          Inl _ \<Rightarrow> PJMEDIA_SDP_EINPT
        | Inr pt \<Rightarrow>
            if pt > 127 then PJMEDIA_SDP_EINPT
            else if m_port m \<noteq> 0 \<and> pt \<ge> 96
            then CHECK (pjmedia_sdp_media_find_attr m (ascii ''rtpmap'') (Some fmt) \<noteq> None) PJMEDIA_SDP_EMISSINGRTPMAP
            else PJ_SUCCESS
      else PJ_SUCCESS)"

definition validate_media :: "bool \<Rightarrow> pjmedia_sdp_session \<Rightarrow> pjmedia_sdp_media \<Rightarrow> pj_status_t" where
  "validate_media strict sdp m = first_error
     ([CHECK (m_media m \<noteq> []) PJMEDIA_SDP_EINMEDIA,
       CHECK (m_transport m \<noteq> []) PJMEDIA_SDP_EINMEDIA,
       CHECK (m_fmt m \<noteq> [] \<or> m_port m = 0) PJMEDIA_SDP_ENOFMT,
       (case m_conn m of
          Some c \<Rightarrow> validate_sdp_conn c
        | None \<Rightarrow> CHECK (\<not> (s_conn sdp = None \<and> (strict \<or> m_port m \<noteq> 0))) PJMEDIA_SDP_EMISSINGCONN)] @
      map (validate_fmt m) (m_fmt m))"

definition pjmedia_sdp_validate2 :: "pjmedia_sdp_session \<Rightarrow> bool \<Rightarrow> pj_status_t" where
  "pjmedia_sdp_validate2 sdp strict = first_error
     ([CHECK (origin_user sdp \<noteq> []) PJMEDIA_SDP_EINORIGIN,
       CHECK (origin_net_type sdp = ascii ''IN'') PJMEDIA_SDP_EINORIGIN,
       CHECK (valid_addr_type (origin_addr_type sdp)) PJMEDIA_SDP_EINORIGIN,
       CHECK (origin_addr sdp \<noteq> []) PJMEDIA_SDP_EINORIGIN,
       CHECK (s_name sdp \<noteq> []) PJMEDIA_SDP_EINNAME,
       (case s_conn sdp of Some c \<Rightarrow> validate_sdp_conn c | None \<Rightarrow> PJ_SUCCESS)] @
      map (validate_media strict sdp) (s_media sdp))"

definition pjmedia_sdp_validate :: "pjmedia_sdp_session \<Rightarrow> pj_status_t" where
  "pjmedia_sdp_validate sdp = pjmedia_sdp_validate2 sdp True"

section \<open>Transports\<close>

definition PJMEDIA_TP_PROTO_UNKNOWN :: "32 word" where "PJMEDIA_TP_PROTO_UNKNOWN = 1"
definition PJMEDIA_TP_PROTO_UDP :: "32 word" where "PJMEDIA_TP_PROTO_UDP = 2"
definition PJMEDIA_TP_PROFILE_RTCP_FB :: "32 word" where "PJMEDIA_TP_PROFILE_RTCP_FB = 0x2000"
definition PJMEDIA_TP_PROTO_RTP_AVP :: "32 word" where "PJMEDIA_TP_PROTO_RTP_AVP = 4 OR 0x8000"
definition PJMEDIA_TP_PROTO_RTP_SAVP :: "32 word" where "PJMEDIA_TP_PROTO_RTP_SAVP = PJMEDIA_TP_PROTO_RTP_AVP OR 0x4000"
definition PJMEDIA_TP_PROTO_DTLS_SRTP :: "32 word" where "PJMEDIA_TP_PROTO_DTLS_SRTP = 8 OR PJMEDIA_TP_PROTO_RTP_SAVP"

text \<open>\<^verbatim>\<open>pj_strtok2\<close> from the start with the delimiter \<open>/\<close>; with the rest of the string as its caller takes it.\<close>

definition transport_token :: "pj_str_t \<Rightarrow> pj_str_t \<times> pj_str_t" where
  "transport_token tp =
     (let s = dropWhile (\<lambda>c. c = SLASH) tp
      in if s = [] then (tp, [])
         else let token = takeWhile (\<lambda>c. c \<noteq> SLASH) s
              in (token, if length tp \<noteq> length token then drop (length token + 1) tp else []))"

definition pjmedia_sdp_transport_get_proto :: "pj_str_t \<Rightarrow> 32 word" where
  "pjmedia_sdp_transport_get_proto tp =
     (let (token, others) = transport_token tp
      in if pj_stricmp_eq token (ascii ''RTP'') then
           if pj_stricmp_eq others (ascii ''AVP'') then PJMEDIA_TP_PROTO_RTP_AVP
           else if pj_stricmp_eq others (ascii ''SAVP'') then PJMEDIA_TP_PROTO_RTP_SAVP
           else if pj_stricmp_eq others (ascii ''AVPF'') then PJMEDIA_TP_PROTO_RTP_AVP OR PJMEDIA_TP_PROFILE_RTCP_FB
           else if pj_stricmp_eq others (ascii ''SAVPF'') then PJMEDIA_TP_PROTO_RTP_SAVP OR PJMEDIA_TP_PROFILE_RTCP_FB
           else PJMEDIA_TP_PROTO_UNKNOWN
         else if pj_stricmp_eq token (ascii ''UDP'') then
           if others = [] then PJMEDIA_TP_PROTO_UDP
           else if pj_stricmp_eq others (ascii ''TLS/RTP/SAVP'') then PJMEDIA_TP_PROTO_DTLS_SRTP
           else if pj_stricmp_eq others (ascii ''TLS/RTP/SAVPF'') then PJMEDIA_TP_PROTO_DTLS_SRTP OR PJMEDIA_TP_PROFILE_RTCP_FB
           else PJMEDIA_TP_PROTO_UNKNOWN
         else PJMEDIA_TP_PROTO_UNKNOWN)"

definition tp_has_flag :: "32 word \<Rightarrow> 32 word \<Rightarrow> bool" where
  "tp_has_flag tp flags \<longleftrightarrow> tp AND flags = flags"

definition tp_trim_flag :: "32 word \<Rightarrow> 32 word \<Rightarrow> 32 word" where
  "tp_trim_flag tp flags = tp AND NOT flags"

definition pjmedia_sdp_transport_cmp :: "pj_str_t \<Rightarrow> pj_str_t \<Rightarrow> pj_status_t" where
  "pjmedia_sdp_transport_cmp t1 t2 =
     (if pj_stricmp_eq t1 t2 then PJ_SUCCESS
      else if tp_has_flag (pjmedia_sdp_transport_get_proto t1) PJMEDIA_TP_PROTO_RTP_AVP \<and>
              tp_has_flag (pjmedia_sdp_transport_get_proto t2) PJMEDIA_TP_PROTO_RTP_AVP then PJ_SUCCESS
      else PJMEDIA_SDP_ETPORTNOTEQUAL)"

section \<open>Deactivating a media\<close>

definition pjmedia_sdp_media_deactivate :: "pjmedia_sdp_media \<Rightarrow> pjmedia_sdp_media" where
  "pjmedia_sdp_media_deactivate m = m\<lparr>m_port := 0, m_attr := []\<rparr>"

definition pjmedia_sdp_media_clone_deactivate :: "pjmedia_sdp_media \<Rightarrow> pjmedia_sdp_media" where
  "pjmedia_sdp_media_clone_deactivate rhs = pjmedia_sdp_media_deactivate rhs"

section \<open>Comparison\<close>

definition compare_conn :: "pjmedia_sdp_conn \<Rightarrow> pjmedia_sdp_conn \<Rightarrow> pj_status_t" where
  "compare_conn c1 c2 = first_error
     [CHECK (conn_net_type c1 = conn_net_type c2) PJMEDIA_SDP_ECONNNOTEQUAL,
      CHECK (conn_addr_type c1 = conn_addr_type c2) PJMEDIA_SDP_ECONNNOTEQUAL,
      CHECK (conn_addr c1 = conn_addr c2) PJMEDIA_SDP_ECONNNOTEQUAL]"

text \<open>The connection lines of two parts, which both have one or neither.\<close>

definition compare_conns :: "pj_status_t \<Rightarrow> pjmedia_sdp_conn option \<Rightarrow> pjmedia_sdp_conn option \<Rightarrow> pj_status_t" where
  "compare_conns missing c1 c2 =
     (case c1 of
        Some x \<Rightarrow> (case c2 of None \<Rightarrow> missing | Some y \<Rightarrow> compare_conn x y)
      | None \<Rightarrow> CHECK (c2 = None) missing)"

definition is_direction :: "pj_str_t \<Rightarrow> bool" where
  "is_direction n \<longleftrightarrow> n = ascii ''inactive'' \<or> n = ascii ''sendrecv'' \<or> n = ascii ''sendonly'' \<or> n = ascii ''recvonly''"

text \<open>One round of the loop of \<^verbatim>\<open>compare_attr_imp\<close>: \<open>a1\<close> against the other list.\<close>

definition compare_one_attr :: "pjmedia_sdp_attr list \<Rightarrow> pjmedia_sdp_attr \<Rightarrow> pj_status_t" where
  "compare_one_attr attr2 a1 =
     (if is_direction (attr_name a1) then
        CHECK (pjmedia_sdp_attr_find attr2 (attr_name a1) None \<noteq> None) PJMEDIA_SDP_EDIRNOTEQUAL
      else if attr_name a1 = ascii ''fmtp'' then
        case pjmedia_sdp_attr_get_fmtp a1 of
          Inl _ \<Rightarrow> PJMEDIA_SDP_EFMTPNOTEQUAL
        | Inr f1 \<Rightarrow>
            (case pjmedia_sdp_attr_find attr2 (attr_name a1) (Some (fmtp_fmt f1)) of
               None \<Rightarrow> PJMEDIA_SDP_EFMTPNOTEQUAL
             | Some i \<Rightarrow>
                 (case pjmedia_sdp_attr_get_fmtp (attr2 ! i) of
                    Inl _ \<Rightarrow> PJMEDIA_SDP_EFMTPNOTEQUAL
                  | Inr f2 \<Rightarrow> CHECK (fmtp_param f1 = fmtp_param f2) PJMEDIA_SDP_EFMTPNOTEQUAL))
      else if attr_name a1 = ascii ''rtpmap'' then
        let (status1, r1) = pjmedia_sdp_attr_get_rtpmap a1
        in if status1 \<noteq> PJ_SUCCESS then PJMEDIA_SDP_ERTPMAPNOTEQUAL
           else case pjmedia_sdp_attr_find attr2 (attr_name a1) (Some (rm_pt r1)) of
                  None \<Rightarrow> PJMEDIA_SDP_ERTPMAPNOTEQUAL
                | Some i \<Rightarrow>
                    let (status2, r2) = pjmedia_sdp_attr_get_rtpmap (attr2 ! i)
                    in CHECK (status2 = PJ_SUCCESS \<and> r1 = r2) PJMEDIA_SDP_ERTPMAPNOTEQUAL
      else PJ_SUCCESS)"

definition compare_attr_imp :: "pjmedia_sdp_attr list \<Rightarrow> pjmedia_sdp_attr list \<Rightarrow> pj_status_t" where
  "compare_attr_imp attr1 attr2 = first_error (map (compare_one_attr attr2) attr1)"

definition compare_attr :: "pjmedia_sdp_attr list \<Rightarrow> pjmedia_sdp_attr list \<Rightarrow> pj_status_t" where
  "compare_attr attr1 attr2 = first_error [compare_attr_imp attr1 attr2, compare_attr_imp attr2 attr1]"

definition pjmedia_sdp_media_cmp :: "pjmedia_sdp_media \<Rightarrow> pjmedia_sdp_media \<Rightarrow> pj_status_t" where
  "pjmedia_sdp_media_cmp sd1 sd2 = first_error
     ([CHECK (m_media sd1 = m_media sd2) PJMEDIA_SDP_EMEDIANOTEQUAL,
       CHECK (m_port sd1 = m_port sd2) PJMEDIA_SDP_EPORTNOTEQUAL,
       CHECK (m_port_count sd1 = m_port_count sd2) PJMEDIA_SDP_EPORTNOTEQUAL,
       CHECK (m_transport sd1 = m_transport sd2) PJMEDIA_SDP_ETPORTNOTEQUAL] @
      (if m_port sd1 = 0 then []
       else [CHECK (m_fmt sd1 = m_fmt sd2) PJMEDIA_SDP_EFORMATNOTEQUAL,
             compare_conns PJMEDIA_SDP_EMEDIANOTEQUAL (m_conn sd1) (m_conn sd2),
             compare_attr (m_attr sd1) (m_attr sd2)]))"

definition pjmedia_sdp_session_cmp :: "pjmedia_sdp_session \<Rightarrow> pjmedia_sdp_session \<Rightarrow> pj_status_t" where
  "pjmedia_sdp_session_cmp sd1 sd2 = first_error
     ([CHECK (origin_user sd1 = origin_user sd2) PJMEDIA_SDP_EORIGINNOTEQUAL,
       CHECK (origin_id sd1 = origin_id sd2) PJMEDIA_SDP_EORIGINNOTEQUAL,
       CHECK (origin_version sd1 = origin_version sd2) PJMEDIA_SDP_EORIGINNOTEQUAL,
       CHECK (origin_net_type sd1 = origin_net_type sd2) PJMEDIA_SDP_EORIGINNOTEQUAL,
       CHECK (origin_addr_type sd1 = origin_addr_type sd2) PJMEDIA_SDP_EORIGINNOTEQUAL,
       CHECK (origin_addr sd1 = origin_addr sd2) PJMEDIA_SDP_EORIGINNOTEQUAL,
       CHECK (s_name sd1 = s_name sd2) PJMEDIA_SDP_ENAMENOTEQUAL,
       compare_conns PJMEDIA_SDP_ECONNNOTEQUAL (s_conn sd1) (s_conn sd2),
       CHECK (time_start sd1 = time_start sd2) PJMEDIA_SDP_ETIMENOTEQUAL,
       CHECK (time_stop sd1 = time_stop sd2) PJMEDIA_SDP_ETIMENOTEQUAL,
       compare_attr (s_attr sd1) (s_attr sd2),
       CHECK (length (s_media sd1) = length (s_media sd2)) PJMEDIA_SDP_EMEDIANOTEQUAL] @
      map (\<lambda>(m1, m2). pjmedia_sdp_media_cmp m1 m2) (zip (s_media sd1) (s_media sd2)))"

section \<open>Codec names\<close>

datatype pjmedia_type =
  PJMEDIA_TYPE_NONE | PJMEDIA_TYPE_AUDIO | PJMEDIA_TYPE_VIDEO | PJMEDIA_TYPE_APPLICATION | PJMEDIA_TYPE_UNKNOWN

definition pjmedia_get_type :: "pj_str_t \<Rightarrow> pjmedia_type" where
  "pjmedia_get_type name =
     (if pj_stricmp_eq name (ascii ''none'') then PJMEDIA_TYPE_NONE
      else if pj_stricmp_eq name (ascii ''audio'') then PJMEDIA_TYPE_AUDIO
      else if pj_stricmp_eq name (ascii ''video'') then PJMEDIA_TYPE_VIDEO
      else if pj_stricmp_eq name (ascii ''application'') then PJMEDIA_TYPE_APPLICATION
      else PJMEDIA_TYPE_UNKNOWN)"

text \<open>\<^verbatim>\<open>pjmedia_codec_info_to_id\<close> with a buffer of 32 bytes, which is left empty when the name does not fit.\<close>

definition pjmedia_codec_info_to_id :: "pj_str_t \<Rightarrow> nat \<Rightarrow> nat \<Rightarrow> pj_str_t" where
  "pjmedia_codec_info_to_id encoding_name clock_rate channel_cnt =
     (let s = encoding_name @ [SLASH] @ pj_utoa clock_rate @ [SLASH] @ pj_utoa channel_cnt
      in if length s \<ge> 32 then [] else s)"

text \<open>The binary search, answering \<open>-1\<close> when the codec is not there, as with \<^verbatim>\<open>found\<close> \<open>NULL\<close>.\<close>

function find_codec_loop :: "pj_str_t list \<Rightarrow> pj_str_t \<Rightarrow> int \<Rightarrow> int \<Rightarrow> int" where
  "find_codec_loop dyn_codecs codec start stop =
     (if start \<le> stop then
        let mid = start + cdiv (stop - start) 2; cmp = pj_stricmp (dyn_codecs ! nat mid) codec
        in if cmp = 0 then mid
           else if cmp < 0 then find_codec_loop dyn_codecs codec (mid + 1) stop
           else find_codec_loop dyn_codecs codec start (mid - 1)
      else -1)"
  by pat_completeness auto
termination
  by (relation "measure (\<lambda>(_, _, start, stop). nat (stop - start + 1))") auto

declare find_codec_loop.simps [simp del]

definition pjmedia_codec_mgr_find_codec :: "pj_str_t list \<Rightarrow> pj_str_t \<Rightarrow> int" where
  "pjmedia_codec_mgr_find_codec dyn_codecs codec =
     find_codec_loop dyn_codecs codec 0 (int (length dyn_codecs) - 1)"

end
