(* ===== verification/Sdp_Neg.thy ===== *)
theory Sdp_Neg
  imports Sdp
begin

text \<open>
  The negotiator of session descriptions, \<^verbatim>\<open>pjmedia/src/pjmedia/sdp_neg.c\<close>: the offer and answer states, the
  numbers of dynamic payload types, the processing of an answer and the making of one. It is configured as in
  \<^verbatim>\<open>config.h\<close> (symmetric payload types in answers, no map of the remote's numbers). The callbacks that match
  formats and the names of codecs with dynamic payload types come from the codecs, and are an argument; a
  callback that may modify the answer gives it back. Payload types of attributes are below 128, as those of formats
  are by validation.
\<close>

section \<open>Status codes\<close>

abbreviation (input) "PJMEDIA_SDPNEG_EINSTATE \<equiv> (220040 :: pj_status_t)"
abbreviation (input) "PJMEDIA_SDPNEG_ENOACTIVE \<equiv> (220042 :: pj_status_t)"
abbreviation (input) "PJMEDIA_SDPNEG_ENONEG \<equiv> (220043 :: pj_status_t)"
abbreviation (input) "PJMEDIA_SDPNEG_EINVANSMEDIA \<equiv> (220045 :: pj_status_t)"
abbreviation (input) "PJMEDIA_SDPNEG_EINVANSTP \<equiv> (220046 :: pj_status_t)"
abbreviation (input) "PJMEDIA_SDPNEG_EANSNOMEDIA \<equiv> (220047 :: pj_status_t)"
abbreviation (input) "PJMEDIA_SDPNEG_ENOMEDIA \<equiv> (220048 :: pj_status_t)"
abbreviation (input) "PJMEDIA_SDPNEG_NOANSCODEC \<equiv> (220049 :: pj_status_t)"
abbreviation (input) "PJMEDIA_SDPNEG_NOANSUNKNOWN \<equiv> (220051 :: pj_status_t)"

section \<open>State\<close>

datatype pjmedia_sdp_neg_state =
  PJMEDIA_SDP_NEG_STATE_NULL | PJMEDIA_SDP_NEG_STATE_LOCAL_OFFER | PJMEDIA_SDP_NEG_STATE_REMOTE_OFFER
| PJMEDIA_SDP_NEG_STATE_WAIT_NEGO | PJMEDIA_SDP_NEG_STATE_DONE

text \<open>The maps of payload types: by media, and by number less 96 or index of the codec.\<close>

record pjmedia_sdp_neg =
  neg_state :: pjmedia_sdp_neg_state
  prefer_remote_codec_order :: bool
  answer_with_multiple_codecs :: bool
  has_remote_answer :: bool
  answer_was_remote :: bool
  pt_to_codec :: "nat \<Rightarrow> nat \<Rightarrow> int"
  codec_to_pt :: "nat \<Rightarrow> nat \<Rightarrow> nat"
  aud_dyn_codecs :: "pj_str_t list"
  vid_dyn_codecs :: "pj_str_t list"
  initial_sdp :: "pjmedia_sdp_session option"
  initial_sdp_tmp :: "pjmedia_sdp_session option"
  active_local_sdp :: "pjmedia_sdp_session option"
  active_remote_sdp :: "pjmedia_sdp_session option"
  neg_local_sdp :: "pjmedia_sdp_session option"
  neg_remote_sdp :: "pjmedia_sdp_session option"
  last_sent :: "pjmedia_sdp_session option"

text \<open>
  What the codecs provide: the sorted names for \<open>pjmedia_codec_mgr_find_codec\<close>, the table of registered format
  callbacks, and the effect of a callback on the offer, the answer, their formats and whether it may modify.
\<close>

type_synonym fmt_match_fn =
  "pjmedia_sdp_media \<Rightarrow> nat \<Rightarrow> pjmedia_sdp_media \<Rightarrow> nat \<Rightarrow> bool \<Rightarrow> pj_status_t \<times> pjmedia_sdp_media"

record neg_env =
  ne_aud_codecs :: "pj_str_t list"
  ne_vid_codecs :: "pj_str_t list"
  ne_fmt_match_cb :: "(pj_str_t \<times> nat) list"
  ne_call :: "nat \<Rightarrow> fmt_match_fn"

definition init_mapping :: "neg_env \<Rightarrow> pjmedia_sdp_neg \<Rightarrow> pjmedia_sdp_neg" where
  "init_mapping env neg =
     neg\<lparr>aud_dyn_codecs := ne_aud_codecs env, vid_dyn_codecs := ne_vid_codecs env,
         pt_to_codec := (\<lambda>_ _. -1), codec_to_pt := (\<lambda>_ _. 0)\<rparr>"

text \<open>A negotiator from the pool: zeroed memory, with the configured preferences.\<close>

definition zero_neg :: pjmedia_sdp_neg where
  "zero_neg =
     \<lparr>neg_state = PJMEDIA_SDP_NEG_STATE_NULL, prefer_remote_codec_order = True, answer_with_multiple_codecs = False,
      has_remote_answer = False, answer_was_remote = False, pt_to_codec = (\<lambda>_ _. 0), codec_to_pt = (\<lambda>_ _. 0),
      aud_dyn_codecs = [], vid_dyn_codecs = [], initial_sdp = None, initial_sdp_tmp = None, active_local_sdp = None,
      active_remote_sdp = None, neg_local_sdp = None, neg_remote_sdp = None, last_sent = None\<rparr>"

definition pjmedia_sdp_neg_create_w_local_offer ::
  "neg_env \<Rightarrow> pjmedia_sdp_session \<Rightarrow> pj_status_t + pjmedia_sdp_neg" where
  "pjmedia_sdp_neg_create_w_local_offer env local =
     (let status = pjmedia_sdp_validate local
      in if status \<noteq> PJ_SUCCESS then Inl status
         else Inr (init_mapping env
                (zero_neg\<lparr>neg_state := PJMEDIA_SDP_NEG_STATE_LOCAL_OFFER, initial_sdp := Some local,
                          neg_local_sdp := Some local, last_sent := Some local\<rparr>)))"

definition pjmedia_sdp_neg_create_w_remote_offer ::
  "neg_env \<Rightarrow> pjmedia_sdp_session option \<Rightarrow> pjmedia_sdp_session \<Rightarrow> pj_status_t + pjmedia_sdp_neg" where
  "pjmedia_sdp_neg_create_w_remote_offer env initial remote =
     (let status = pjmedia_sdp_validate2 remote False; neg = zero_neg\<lparr>neg_remote_sdp := Some remote\<rparr>
      in if status \<noteq> PJ_SUCCESS then Inl status
         else case initial of
                None \<Rightarrow> Inr (init_mapping env (neg\<lparr>neg_state := PJMEDIA_SDP_NEG_STATE_REMOTE_OFFER\<rparr>))
              | Some init \<Rightarrow>
                  if pjmedia_sdp_validate init \<noteq> PJ_SUCCESS then Inl (pjmedia_sdp_validate init)
                  else Inr (init_mapping env
                         (neg\<lparr>initial_sdp := Some init, neg_local_sdp := Some init,
                              neg_state := PJMEDIA_SDP_NEG_STATE_WAIT_NEGO\<rparr>)))"

definition pjmedia_sdp_neg_set_prefer_remote_codec_order :: "bool \<Rightarrow> pjmedia_sdp_neg \<Rightarrow> pjmedia_sdp_neg" where
  "pjmedia_sdp_neg_set_prefer_remote_codec_order prefer neg = neg\<lparr>prefer_remote_codec_order := prefer\<rparr>"

definition pjmedia_sdp_neg_set_answer_multiple_codecs :: "bool \<Rightarrow> pjmedia_sdp_neg \<Rightarrow> pjmedia_sdp_neg" where
  "pjmedia_sdp_neg_set_answer_multiple_codecs multiple neg = neg\<lparr>answer_with_multiple_codecs := multiple\<rparr>"

definition pjmedia_sdp_neg_get_active_local :: "pjmedia_sdp_neg \<Rightarrow> pj_status_t + pjmedia_sdp_session" where
  "pjmedia_sdp_neg_get_active_local neg =
     (case active_local_sdp neg of None \<Rightarrow> Inl PJMEDIA_SDPNEG_ENOACTIVE | Some s \<Rightarrow> Inr s)"

definition pjmedia_sdp_neg_get_active_remote :: "pjmedia_sdp_neg \<Rightarrow> pj_status_t + pjmedia_sdp_session" where
  "pjmedia_sdp_neg_get_active_remote neg =
     (case active_remote_sdp neg of None \<Rightarrow> Inl PJMEDIA_SDPNEG_ENOACTIVE | Some s \<Rightarrow> Inr s)"

definition pjmedia_sdp_neg_get_neg_remote :: "pjmedia_sdp_neg \<Rightarrow> pj_status_t + pjmedia_sdp_session" where
  "pjmedia_sdp_neg_get_neg_remote neg =
     (case neg_remote_sdp neg of None \<Rightarrow> Inl PJMEDIA_SDPNEG_ENONEG | Some s \<Rightarrow> Inr s)"

definition pjmedia_sdp_neg_get_neg_local :: "pjmedia_sdp_neg \<Rightarrow> pj_status_t + pjmedia_sdp_session" where
  "pjmedia_sdp_neg_get_neg_local neg =
     (case neg_local_sdp neg of None \<Rightarrow> Inl PJMEDIA_SDPNEG_ENONEG | Some s \<Rightarrow> Inr s)"

section \<open>Format callbacks\<close>

definition custom_fmt_match ::
  "neg_env \<Rightarrow> pj_str_t \<Rightarrow> pjmedia_sdp_media \<Rightarrow> nat \<Rightarrow> pjmedia_sdp_media \<Rightarrow> nat \<Rightarrow> bool \<Rightarrow> pj_status_t \<times> pjmedia_sdp_media" where
  "custom_fmt_match env fmt_name offer o_fmt_idx answer a_fmt_idx modify =
     (case find (\<lambda>(n, _). pj_stricmp_eq fmt_name n) (ne_fmt_match_cb env) of
        None \<Rightarrow> (PJ_SUCCESS, answer)
      | Some (_, cb) \<Rightarrow> ne_call env cb offer o_fmt_idx answer a_fmt_idx modify)"

text \<open>The table after registering \<open>cb\<close> for a name, or unregistering it with \<^verbatim>\<open>NULL\<close>.\<close>

definition pjmedia_sdp_neg_register_fmt_match_cb ::
  "pj_str_t \<Rightarrow> nat option \<Rightarrow> (pj_str_t \<times> nat) list \<Rightarrow> pj_status_t \<times> (pj_str_t \<times> nat) list" where
  "pjmedia_sdp_neg_register_fmt_match_cb fmt_name cb tbl =
     (let found = find_index (\<lambda>(n, _). pj_stricmp_eq fmt_name n) tbl
      in case cb of
           None \<Rightarrow> (case found of None \<Rightarrow> (PJ_ENOTFOUND, tbl) | Some i \<Rightarrow> (PJ_SUCCESS, take i tbl @ drop (Suc i) tbl))
         | Some f \<Rightarrow>
             (case found of
                Some i \<Rightarrow> (if f \<noteq> snd (tbl ! i) then PJ_EEXISTS else PJ_SUCCESS, tbl)
              | None \<Rightarrow> if length tbl \<ge> 8 then (PJ_ETOOMANY, tbl) else (PJ_SUCCESS, tbl @ [(fmt_name, f)])))"

text \<open>The channel counts of two \<^verbatim>\<open>rtpmap\<close>s agree, where one may leave out a count of one.\<close>

definition params_match :: "pj_str_t \<Rightarrow> pj_str_t \<Rightarrow> bool" where
  "params_match p q \<longleftrightarrow> pj_stricmp_eq p q \<or> (q = [] \<and> p = ascii ''1'') \<or> (p = [] \<and> q = ascii ''1'')"

definition pjmedia_sdp_neg_fmt_match ::
  "neg_env \<Rightarrow> pjmedia_sdp_media \<Rightarrow> nat \<Rightarrow> pjmedia_sdp_media \<Rightarrow> nat \<Rightarrow> bool \<Rightarrow> pj_status_t \<times> pjmedia_sdp_media" where
  "pjmedia_sdp_neg_fmt_match env offer oi answer ai modify =
     (let o_pt = pj_strtoul (m_fmt offer ! oi); a_pt = pj_strtoul (m_fmt answer ! ai)
      in if o_pt < 96 \<or> a_pt < 96 then ((if o_pt = a_pt then PJ_SUCCESS else PJMEDIA_SDP_EFORMATNOTEQUAL), answer)
         else case pjmedia_sdp_media_find_attr offer (ascii ''rtpmap'') (Some (m_fmt offer ! oi)) of
                None \<Rightarrow> (PJ_EBUG, answer)
              | Some oa \<Rightarrow>
                  (case pjmedia_sdp_media_find_attr answer (ascii ''rtpmap'') (Some (m_fmt answer ! ai)) of
                     None \<Rightarrow> (PJ_EBUG, answer)
                   | Some aa \<Rightarrow>
                       let orm = snd (pjmedia_sdp_attr_get_rtpmap oa); arm = snd (pjmedia_sdp_attr_get_rtpmap aa)
                       in if \<not> pj_stricmp_eq (rm_enc_name orm) (rm_enc_name arm) \<or> rm_clock_rate orm \<noteq> rm_clock_rate arm \<or>
                             \<not> params_match (rm_param orm) (rm_param arm)
                          then (PJMEDIA_SDP_EFORMATNOTEQUAL, answer)
                          else custom_fmt_match env (rm_enc_name orm) offer oi answer ai modify))"

section \<open>Directions\<close>

text \<open>The directions a media may have: \<^verbatim>\<open>NONE\<close>, \<^verbatim>\<open>ENCODING\<close> (it sends), \<^verbatim>\<open>DECODING\<close>, and both.\<close>

datatype pjmedia_dir =
  PJMEDIA_DIR_NONE | PJMEDIA_DIR_ENCODING | PJMEDIA_DIR_DECODING | PJMEDIA_DIR_ENCODING_DECODING

definition has_attr :: "pjmedia_sdp_media \<Rightarrow> pj_str_t \<Rightarrow> bool" where
  "has_attr m name \<longleftrightarrow> pjmedia_sdp_media_find_attr m name None \<noteq> None"

definition local_dir :: "pjmedia_sdp_media \<Rightarrow> pjmedia_dir" where
  "local_dir m =
     (if has_attr m (ascii ''sendonly'') then PJMEDIA_DIR_ENCODING
      else if has_attr m (ascii ''recvonly'') then PJMEDIA_DIR_DECODING
      else if has_attr m (ascii ''inactive'') then PJMEDIA_DIR_NONE
      else PJMEDIA_DIR_ENCODING_DECODING)"

definition adjusted_dir :: "pjmedia_sdp_media \<Rightarrow> pjmedia_dir \<Rightarrow> pjmedia_dir" where
  "adjusted_dir remote old_dir =
     (if has_attr remote (ascii ''inactive'') then PJMEDIA_DIR_NONE
      else if has_attr remote (ascii ''sendonly'') then
        (case old_dir of
           PJMEDIA_DIR_ENCODING_DECODING \<Rightarrow> PJMEDIA_DIR_DECODING
         | PJMEDIA_DIR_DECODING \<Rightarrow> old_dir
         | _ \<Rightarrow> PJMEDIA_DIR_NONE)
      else if has_attr remote (ascii ''recvonly'') then
        (case old_dir of
           PJMEDIA_DIR_ENCODING_DECODING \<Rightarrow> PJMEDIA_DIR_ENCODING
         | PJMEDIA_DIR_ENCODING \<Rightarrow> old_dir
         | _ \<Rightarrow> PJMEDIA_DIR_NONE)
      else old_dir)"

definition remove_all_media_directions :: "pjmedia_sdp_media \<Rightarrow> pjmedia_sdp_media" where
  "remove_all_media_directions m =
     foldl pjmedia_sdp_media_remove_all_attr m
       [ascii ''inactive'', ascii ''sendrecv'', ascii ''sendonly'', ascii ''recvonly'']"

definition update_media_direction :: "pjmedia_sdp_media \<Rightarrow> pjmedia_sdp_media \<Rightarrow> pjmedia_sdp_media" where
  "update_media_direction remote m =
     (let old_dir = local_dir m; new_dir = adjusted_dir remote old_dir
      in if new_dir = old_dir then m
         else let m1 = remove_all_media_directions m;
                  a = (case new_dir of
                         PJMEDIA_DIR_NONE \<Rightarrow> Some (pjmedia_sdp_attr_create (ascii ''inactive'') None)
                       | PJMEDIA_DIR_ENCODING \<Rightarrow> Some (pjmedia_sdp_attr_create (ascii ''sendonly'') None)
                       | PJMEDIA_DIR_DECODING \<Rightarrow> Some (pjmedia_sdp_attr_create (ascii ''recvonly'') None)
                       | PJMEDIA_DIR_ENCODING_DECODING \<Rightarrow> None)
              in case a of None \<Rightarrow> m1 | Some x \<Rightarrow> snd (pjmedia_sdp_media_add_attr m1 x))"

section \<open>Processing an answer\<close>

text \<open>The test of one format of the answer against a dynamic payload type of the offer.\<close>

definition answer_fmt_matches ::
  "neg_env \<Rightarrow> pjmedia_sdp_rtpmap \<Rightarrow> pjmedia_sdp_media \<Rightarrow> nat \<Rightarrow> pjmedia_sdp_media \<Rightarrow> nat \<Rightarrow> bool" where
  "answer_fmt_matches env orm offer i answer j \<longleftrightarrow>
     (case pjmedia_sdp_media_find_attr answer (ascii ''rtpmap'') (Some (m_fmt answer ! j)) of
        None \<Rightarrow> False
      | Some a \<Rightarrow>
          let arm = snd (pjmedia_sdp_attr_get_rtpmap a)
          in pj_stricmp_eq (rm_enc_name orm) (rm_enc_name arm) \<and> rm_clock_rate orm = rm_clock_rate arm \<and>
             (pj_stricmp_eq (rm_param orm) (rm_param arm) \<or> rm_param arm = ascii ''1'') \<and>
             fst (custom_fmt_match env (rm_enc_name orm) offer i answer j False) = PJ_SUCCESS)"

text \<open>The index of the answer's format for format \<open>i\<close> of the offer; \<open>None\<close> where the loop runs to the end.\<close>

definition find_answer_fmt ::
  "neg_env \<Rightarrow> pjmedia_sdp_media \<Rightarrow> pjmedia_sdp_media \<Rightarrow> nat \<Rightarrow> pj_status_t + nat option" where
  "find_answer_fmt env offer answer i =
     (let fmt = m_fmt offer ! i
      in if pj_strtoul fmt < 96 then Inr (find_index (\<lambda>f. fmt = f) (m_fmt answer))
         else case pjmedia_sdp_media_find_attr offer (ascii ''rtpmap'') (Some fmt) of
                None \<Rightarrow> Inl PJ_EBUG
              | Some a \<Rightarrow>
                  Inr (find_index (answer_fmt_matches env (snd (pjmedia_sdp_attr_get_rtpmap a)) offer i answer)
                         [0..<length (m_fmt answer)]))"

text \<open>Removing a format with its attributes.\<close>

definition remove_fmt :: "pjmedia_sdp_media \<Rightarrow> nat \<Rightarrow> pjmedia_sdp_media" where
  "remove_fmt m i =
     (let fmt = m_fmt m ! i; m1 = remove_found m (ascii ''rtpmap'') fmt; m2 = remove_found m1 (ascii ''fmtp'') fmt
      in m2\<lparr>m_fmt := take i (m_fmt m2) @ drop (Suc i) (m_fmt m2)\<rparr>)"

lemma remove_found_fmt [simp]: "m_fmt (remove_found m n f) = m_fmt m"
  by (simp add: remove_found_def split: option.splits)

lemma remove_fmt_fmts: "m_fmt (remove_fmt m i) = take i (m_fmt m) @ drop (Suc i) (m_fmt m)"
  by (simp add: remove_fmt_def Let_def)

text \<open>
  The loop that removes the formats of the offer without a match; \<open>prior\<close> is \<^verbatim>\<open>offer_fmt_prior\<close>, the index of
  the match of each format kept.
\<close>

function match_formats ::
  "neg_env \<Rightarrow> pjmedia_sdp_media \<Rightarrow> pjmedia_sdp_media \<Rightarrow> nat \<Rightarrow> nat list \<Rightarrow> pj_status_t + pjmedia_sdp_media \<times> nat list" where
  "match_formats env offer answer i prior =
     (if i < length (m_fmt offer) then
        case find_answer_fmt env offer answer i of
          Inl status \<Rightarrow> Inl status
        | Inr None \<Rightarrow> match_formats env (remove_fmt offer i) answer i prior
        | Inr (Some j) \<Rightarrow> match_formats env offer answer (i + 1) (prior @ [j])
      else Inr (offer, prior))"
  by pat_completeness auto
termination
  by (relation "measure (\<lambda>(_, offer, _, i, _). length (m_fmt offer) - i)") (auto simp: remove_fmt_fmts)

declare match_formats.simps [simp del]

text \<open>
  Sorting the formats by the index of their match, by exchanges: each position in turn is compared with
  every later one.
\<close>

fun exchange_min :: "nat \<times> 'a \<Rightarrow> (nat \<times> 'a) list \<Rightarrow> (nat \<times> 'a) \<times> (nat \<times> 'a) list" where
  "exchange_min x [] = (x, [])"
| "exchange_min x (y # ys) =
     (if fst x > fst y then (let (m, zs) = exchange_min y ys in (m, x # zs))
      else (let (m, zs) = exchange_min x ys in (m, y # zs)))"

lemma exchange_min_length: "(m, zs) = exchange_min x ys \<Longrightarrow> length zs = length ys"
  by (induction x ys arbitrary: m zs rule: exchange_min.induct) (auto split: prod.splits if_splits)

function exchange_sort :: "(nat \<times> 'a) list \<Rightarrow> (nat \<times> 'a) list" where
  "exchange_sort [] = []"
| "exchange_sort (x # xs) = (let (m, zs) = exchange_min x xs in m # exchange_sort zs)"
  by pat_completeness auto
termination
  by (relation "measure length") (simp_all add: exchange_min_length)

text \<open>The loop that removes the formats of the answer without a match; \<open>p\<close> is the sorted \<^verbatim>\<open>offer_fmt_prior\<close>.\<close>

function trim_answer :: "nat list \<Rightarrow> pjmedia_sdp_media \<Rightarrow> nat \<Rightarrow> nat \<Rightarrow> pjmedia_sdp_media" where
  "trim_answer p answer i del_cnt =
     (if i < length (m_fmt answer) then
        if i \<ge> length p \<or> u32 (int (p ! i) - int del_cnt) \<noteq> i
        then trim_answer p (remove_fmt answer i) i (del_cnt + 1)
        else trim_answer p answer (i + 1) del_cnt
      else answer)"
  by pat_completeness auto
termination
  by (relation "measure (\<lambda>(_, answer, i, _). length (m_fmt answer) - i)") (auto simp: remove_fmt_fmts)

declare trim_answer.simps [simp del]

text \<open>
  The search for a common format when asymmetric media is allowed. It compares the answer with itself; an index
  past the formats of the answer is not reached, since the first comparison succeeds.
\<close>

definition asym_match :: "pjmedia_sdp_media \<Rightarrow> pjmedia_sdp_media \<Rightarrow> bool" where
  "asym_match offer answer \<longleftrightarrow>
     list_ex (\<lambda>rem_fmt. list_ex (\<lambda>j. j < length (m_fmt answer) \<and> rem_fmt = m_fmt answer ! j) [0..<length (m_fmt offer)])
       (m_fmt answer)"

text \<open>The offer and the answer as they are left; after an error the caller drops or deactivates them.\<close>

definition process_m_answer ::
  "neg_env \<Rightarrow> bool \<Rightarrow> pjmedia_sdp_media \<Rightarrow> pjmedia_sdp_media \<Rightarrow> pj_status_t \<times> pjmedia_sdp_media \<times> pjmedia_sdp_media" where
  "process_m_answer env allow_asym offer answer =
     (if m_media answer \<noteq> m_media offer then (PJMEDIA_SDPNEG_EINVANSMEDIA, offer, answer)
      else if m_port answer = 0 then (PJ_SUCCESS, pjmedia_sdp_media_deactivate offer, answer)
      else if pjmedia_sdp_transport_cmp (m_transport answer) (m_transport offer) \<noteq> PJ_SUCCESS
      then (PJMEDIA_SDPNEG_EINVANSTP, offer, answer)
      else if m_port offer = 0 then (PJ_SUCCESS, offer, answer)
      else let offer1 = update_media_direction answer offer
           in if allow_asym then
                (if asym_match offer1 answer then (PJ_SUCCESS, offer1, answer)
                 else (PJMEDIA_SDPNEG_EANSNOMEDIA, offer1, answer))
              else case match_formats env offer1 answer 0 [] of
                     Inl status \<Rightarrow> (status, offer1, answer)
                   | Inr (offer2, prior) \<Rightarrow>
                       if m_fmt offer2 = [] then (PJMEDIA_SDPNEG_EANSNOMEDIA, offer2, answer)
                       else let sorted_fmts = exchange_sort (zip prior (m_fmt offer2))
                            in (PJ_SUCCESS, offer2\<lparr>m_fmt := map snd sorted_fmts\<rparr>,
                                trim_answer (map fst sorted_fmts) answer 0 0))"

text \<open>A rejected media line; a connection line is added where neither the media nor its session has one.\<close>

definition sdp_media_clone_deactivate ::
  "pjmedia_sdp_media \<Rightarrow> pjmedia_sdp_media \<Rightarrow> pjmedia_sdp_session \<Rightarrow> pjmedia_sdp_media" where
  "sdp_media_clone_deactivate rem_med local_med local_sess =
     (let res = pjmedia_sdp_media_clone_deactivate rem_med
      in if m_conn res = None \<and> s_conn local_sess = None then
           res\<lparr>m_conn := (case m_conn local_med of
                            Some c \<Rightarrow> Some c
                          | None \<Rightarrow> Some \<lparr>conn_net_type = ascii ''IN'', conn_addr_type = ascii ''IP4'',
                                         conn_addr = ascii ''127.0.0.1''\<rparr>)\<rparr>
         else res)"

text \<open>
  The loop over the media of the offer: the updated media of the offer and of the answer, and whether any is
  active. \<open>answers\<close> is what is left of the answer; a media of another type is not taken from it.
\<close>

fun process_media ::
  "neg_env \<Rightarrow> bool \<Rightarrow> pjmedia_sdp_session \<Rightarrow> pjmedia_sdp_media list \<Rightarrow> pjmedia_sdp_media list
   \<Rightarrow> pj_status_t + pjmedia_sdp_media list \<times> pjmedia_sdp_media list \<times> bool" where
  "process_media env allow_asym sess [] answers = Inr ([], answers, False)"
| "process_media env allow_asym sess (om # oms) [] =
     (case process_media env allow_asym sess oms [] of
        Inl status \<Rightarrow> Inl status
      | Inr (os, as, active) \<Rightarrow>
          Inr (pjmedia_sdp_media_deactivate om # os, sdp_media_clone_deactivate om om sess # as, active))"
| "process_media env allow_asym sess (om # oms) (am # ams) =
     (case process_m_answer env allow_asym om am of
        (status, om1, am1) \<Rightarrow>
          if status = PJMEDIA_SDPNEG_EINVANSMEDIA then
            (case process_media env allow_asym sess oms (am # ams) of
               Inl s \<Rightarrow> Inl s
             | Inr (os, as, active) \<Rightarrow> Inr (pjmedia_sdp_media_deactivate om1 # os, as, active))
          else if status \<noteq> PJMEDIA_SDPNEG_EANSNOMEDIA \<and> status \<noteq> PJ_SUCCESS then Inl status
          else let (om2, am2) = (if status = PJMEDIA_SDPNEG_EANSNOMEDIA
                                 then (pjmedia_sdp_media_deactivate om1, pjmedia_sdp_media_deactivate am1)
                                 else (om1, am1))
               in case process_media env allow_asym sess oms ams of
                    Inl s \<Rightarrow> Inl s
                  | Inr (os, as, active) \<Rightarrow> Inr (om2 # os, am2 # as, m_port om2 \<noteq> 0 \<or> active))"

text \<open>The active local description and the answer with the changes made to it.\<close>

definition process_answer ::
  "neg_env \<Rightarrow> bool \<Rightarrow> pjmedia_sdp_session \<Rightarrow> pjmedia_sdp_session
   \<Rightarrow> pj_status_t + pjmedia_sdp_session \<times> pjmedia_sdp_session" where
  "process_answer env allow_asym local_offer answer =
     (case process_media env allow_asym local_offer (s_media local_offer) (s_media answer) of
        Inl status \<Rightarrow> Inl status
      | Inr (os, as, has_active) \<Rightarrow>
          if has_active then Inr (local_offer\<lparr>s_media := os\<rparr>, answer\<lparr>s_media := as\<rparr>) else Inl PJMEDIA_SDPNEG_ENOMEDIA)"

section \<open>Matching an offer\<close>

text \<open>
  Writing a new payload type over the one that the value of an attribute starts with, \<open>len\<close> bytes long; the
  length changes by the difference.
\<close>

definition rewrite_pt :: "pj_str_t \<Rightarrow> nat \<Rightarrow> pj_str_t \<Rightarrow> pj_str_t" where
  "rewrite_pt attr_val old_len new_pt =
     take (length attr_val + length new_pt - old_len) (new_pt @ drop old_len attr_val)"

text \<open>
  The local variables of \<^verbatim>\<open>match_offer\<close>: the media of the local side, which callbacks may modify; the pairs of
  \<^verbatim>\<open>pt_offer\<close> and \<^verbatim>\<open>pt_answer\<close>; the clock rates of codecs and of telephone events; the flags.
\<close>

record match_state =
  ms_pre :: pjmedia_sdp_media
  ms_pairs :: "(pj_str_t \<times> pj_str_t) list"
  ms_clockrate :: "nat list"
  ms_tel_clockrate :: "nat list"
  master_has_codec :: bool
  master_has_other :: bool
  found_matching_codec :: bool
  found_matching_tel :: bool
  found_matching_other :: bool

definition ms_master :: "bool \<Rightarrow> pjmedia_sdp_media \<Rightarrow> match_state \<Rightarrow> pjmedia_sdp_media" where
  "ms_master prefer offer st = (if prefer then offer else ms_pre st)"

definition ms_slave :: "bool \<Rightarrow> pjmedia_sdp_media \<Rightarrow> match_state \<Rightarrow> pjmedia_sdp_media" where
  "ms_slave prefer offer st = (if prefer then ms_pre st else offer)"

definition note_clock :: "nat \<Rightarrow> nat list \<Rightarrow> nat list" where
  "note_clock c cs = (if c \<in> set cs then cs else cs @ [c])"

text \<open>Format \<open>i\<close> of the master matches format \<open>j\<close> of the slave: the pair is noted.\<close>

definition push_pair :: "bool \<Rightarrow> pjmedia_sdp_media \<Rightarrow> nat \<Rightarrow> nat \<Rightarrow> match_state \<Rightarrow> match_state" where
  "push_pair prefer offer i j st =
     st\<lparr>ms_pairs := ms_pairs st @
         [if prefer then (m_fmt offer ! i, m_fmt (ms_pre st) ! j) else (m_fmt offer ! j, m_fmt (ms_pre st) ! i)]\<rparr>"

definition is_telephone_event :: "pjmedia_sdp_rtpmap \<Rightarrow> bool" where
  "is_telephone_event r \<longleftrightarrow> pj_stricmp_eq (rm_enc_name r) (ascii ''telephone-event'')"

text \<open>The search among the formats of the slave for a dynamic payload type with the \<^verbatim>\<open>rtpmap\<close> \<open>orm\<close>.\<close>

primrec match_dynamic ::
  "neg_env \<Rightarrow> bool \<Rightarrow> pjmedia_sdp_media \<Rightarrow> nat \<Rightarrow> pjmedia_sdp_rtpmap \<Rightarrow> match_state \<Rightarrow> nat list \<Rightarrow> match_state" where
  "match_dynamic env prefer offer i orm st [] = st"
| "match_dynamic env prefer offer i orm st (j # js) =
     (let slave = ms_slave prefer offer st
      in case pjmedia_sdp_media_find_attr slave (ascii ''rtpmap'') (Some (m_fmt slave ! j)) of
           None \<Rightarrow> match_dynamic env prefer offer i orm st js
         | Some a \<Rightarrow>
             let lrm = snd (pjmedia_sdp_attr_get_rtpmap a)
             in if \<not> (pj_stricmp_eq (rm_enc_name orm) (rm_enc_name lrm) \<and> rm_clock_rate orm = rm_clock_rate lrm \<and>
                      params_match (rm_param orm) (rm_param lrm))
                then match_dynamic env prefer offer i orm st js
                else if \<not> is_telephone_event orm then
                  (case custom_fmt_match env (rm_enc_name orm) offer (if prefer then i else j)
                          (ms_pre st) (if prefer then j else i) True of
                     (status, pre) \<Rightarrow>
                       let st1 = st\<lparr>ms_pre := pre\<rparr>
                       in if status \<noteq> PJ_SUCCESS then match_dynamic env prefer offer i orm st1 js
                          else push_pair prefer offer i j
                                 (st1\<lparr>found_matching_codec := True,
                                      ms_clockrate := note_clock (rm_clock_rate orm) (ms_clockrate st1)\<rparr>))
                else if rm_clock_rate orm \<in> set (ms_tel_clockrate st)
                then match_dynamic env prefer offer i orm st js
                else push_pair prefer offer i j
                       (st\<lparr>ms_tel_clockrate := ms_tel_clockrate st @ [rm_clock_rate orm], found_matching_tel := True\<rparr>))"

definition is_numeric :: "pj_str_t \<Rightarrow> bool" where
  "is_numeric fmt \<longleftrightarrow> fmt \<noteq> [] \<and> pj_isdigit (hd fmt)"

text \<open>A static payload type of the master.\<close>

definition match_static :: "bool \<Rightarrow> bool \<Rightarrow> pjmedia_sdp_media \<Rightarrow> nat \<Rightarrow> match_state \<Rightarrow> match_state" where
  "match_static prefer multiple offer pt st =
     (let st1 = st\<lparr>master_has_codec := True\<rparr>; slave = ms_slave prefer offer st
      in if \<not> multiple \<and> found_matching_codec st then st1
         else case find_index (\<lambda>f. pj_strtoul f = pt \<and> is_numeric f) (m_fmt slave) of
                None \<Rightarrow> st1
              | Some j \<Rightarrow>
                  st1\<lparr>found_matching_codec := True, ms_pairs := ms_pairs st @ [(m_fmt slave ! j, m_fmt slave ! j)],
                      ms_clockrate := note_clock 8000 (ms_clockrate st)\<rparr>)"

text \<open>A format that is not a number.\<close>

definition match_other :: "bool \<Rightarrow> pjmedia_sdp_media \<Rightarrow> nat \<Rightarrow> match_state \<Rightarrow> match_state" where
  "match_other prefer offer i st =
     (let st1 = st\<lparr>master_has_other := True\<rparr>; master = ms_master prefer offer st; slave = ms_slave prefer offer st
      in if found_matching_other st then st1
         else case find_index (\<lambda>f. m_fmt master ! i = f) (m_fmt slave) of
                None \<Rightarrow> st1
              | Some j \<Rightarrow> push_pair prefer offer i j (st1\<lparr>found_matching_other := True\<rparr>))"

text \<open>One round of the loop over the formats of the master.\<close>

definition match_fmt ::
  "neg_env \<Rightarrow> bool \<Rightarrow> bool \<Rightarrow> pjmedia_sdp_media \<Rightarrow> nat \<Rightarrow> match_state \<Rightarrow> pj_status_t + match_state" where
  "match_fmt env prefer multiple offer i st =
     (let master = ms_master prefer offer st; fmt = m_fmt master ! i
      in if is_numeric fmt then
           if pj_strtoul fmt < 96 then Inr (match_static prefer multiple offer (pj_strtoul fmt) st)
           else case pjmedia_sdp_media_find_attr master (ascii ''rtpmap'') (Some fmt) of
                  None \<Rightarrow> Inl PJMEDIA_SDP_EMISSINGRTPMAP
                | Some a \<Rightarrow>
                    let orm = snd (pjmedia_sdp_attr_get_rtpmap a); is_codec = (\<not> is_telephone_event orm);
                        st1 = (if is_codec then st\<lparr>master_has_codec := True\<rparr> else st)
                    in if is_codec \<and> \<not> multiple \<and> found_matching_codec st then Inr st1
                       else Inr (match_dynamic env prefer offer i orm st1 [0..<length (m_fmt (ms_slave prefer offer st1))])
         else Inr (match_other prefer offer i st))"

fun match_fmts ::
  "neg_env \<Rightarrow> bool \<Rightarrow> bool \<Rightarrow> pjmedia_sdp_media \<Rightarrow> nat list \<Rightarrow> match_state
   \<Rightarrow> (pj_status_t \<times> match_state) + match_state" where
  "match_fmts env prefer multiple offer [] st = Inr st"
| "match_fmts env prefer multiple offer (i # is) st =
     (case match_fmt env prefer multiple offer i st of
        Inl status \<Rightarrow> Inl (status, st)
      | Inr st1 \<Rightarrow> match_fmts env prefer multiple offer is st1)"

text \<open>
  Removing the telephone events whose clock rate is not that of a codec: the pairs kept, the first pair
  of a telephone event, and the number of those kept.
\<close>

fun filter_tel ::
  "pjmedia_sdp_media \<Rightarrow> nat list \<Rightarrow> (pj_str_t \<times> pj_str_t) list
   \<Rightarrow> (pj_str_t \<times> pj_str_t) list \<times> (pj_str_t \<times> pj_str_t) option \<times> nat" where
  "filter_tel pre clocks [] = ([], None, 0)"
| "filter_tel pre clocks ((po, pa) # ps) =
     (let (kept, first, n) = filter_tel pre clocks ps
      in if \<not> is_numeric pa \<or> pj_strtoul pa < 96 then ((po, pa) # kept, first, n)
         else let r = (case pjmedia_sdp_media_find_attr pre (ascii ''rtpmap'') (Some pa) of
                         None \<Rightarrow> empty_rtpmap | Some a \<Rightarrow> snd (pjmedia_sdp_attr_get_rtpmap a))
              in if \<not> is_telephone_event r then ((po, pa) # kept, first, n)
                 else if rm_clock_rate r \<in> set clocks then ((po, pa) # kept, Some (po, pa), n + 1)
                 else (kept, Some (po, pa), n))"

definition wanted_pairs :: "match_state \<Rightarrow> (pj_str_t \<times> pj_str_t) list" where
  "wanted_pairs st =
     (if found_matching_tel st then
        let (kept, first, n) = filter_tel (ms_pre st) (ms_clockrate st) (ms_pairs st)
        in if n = 0 then kept @ (case first of None \<Rightarrow> [] | Some p \<Rightarrow> [p]) else kept
      else ms_pairs st)"

text \<open>
  Moving the chosen formats to the front, in order. \<open>None\<close> where a format is not found, which
  an assertion excludes; without assertions the code would swap with what lies past the formats.
\<close>

fun place_formats :: "nat \<Rightarrow> pj_str_t list \<Rightarrow> pj_str_t list \<Rightarrow> pj_str_t list option" where
  "place_formats i [] fmts = Some fmts"
| "place_formats i (pt # pts) fmts =
     (case find_index (\<lambda>f. f = pt) (drop i fmts) of
        None \<Rightarrow> None
      | Some k \<Rightarrow> place_formats (i + 1) pts (fmts[i := fmts ! (i + k), i + k := fmts ! i]))"

definition remove_fmt_attrs :: "pjmedia_sdp_media \<Rightarrow> pj_str_t \<Rightarrow> pjmedia_sdp_media" where
  "remove_fmt_attrs m fmt = remove_found (remove_found m (ascii ''rtpmap'') fmt) (ascii ''fmtp'') fmt"

text \<open>Taking the attribute of a payload type out of the media, with its number rewritten.\<close>

definition take_rewritten ::
  "pjmedia_sdp_media \<Rightarrow> pj_str_t \<Rightarrow> pj_str_t \<Rightarrow> pj_str_t \<Rightarrow> pjmedia_sdp_media \<times> pjmedia_sdp_attr list" where
  "take_rewritten m name old_pt new_pt =
     (case pjmedia_sdp_attr_find (m_attr m) name (Some old_pt) of
        None \<Rightarrow> (m, [])
      | Some k \<Rightarrow>
          (m\<lparr>m_attr := pjmedia_sdp_attr_remove (m_attr m) k\<rparr>,
           [(m_attr m ! k)\<lparr>attr_value := rewrite_pt (attr_value (m_attr m ! k)) (length old_pt) new_pt\<rparr>]))"

fun symmetric_pts ::
  "nat \<Rightarrow> (pj_str_t \<times> pj_str_t) list \<Rightarrow> pjmedia_sdp_media \<Rightarrow> pjmedia_sdp_attr list
   \<Rightarrow> pjmedia_sdp_media \<times> pjmedia_sdp_attr list" where
  "symmetric_pts i [] answer a_tmp = (answer, a_tmp)"
| "symmetric_pts i ((po, pa) # ps) answer a_tmp =
     (if pa = po then symmetric_pts (i + 1) ps answer a_tmp
      else let answer1 = answer\<lparr>m_fmt := (m_fmt answer)[i := po]\<rparr>;
               (answer2, a2) = take_rewritten answer1 (ascii ''rtpmap'') pa po;
               (answer3, a3) = take_rewritten answer2 (ascii ''fmtp'') pa po
           in symmetric_pts (i + 1) ps answer3 (a_tmp @ a2 @ a3))"

definition apply_answer_symmetric_pt :: "(pj_str_t \<times> pj_str_t) list \<Rightarrow> pjmedia_sdp_media \<Rightarrow> pjmedia_sdp_media" where
  "apply_answer_symmetric_pt pairs answer =
     (let (answer1, a_tmp) = symmetric_pts 0 pairs answer []
      in foldl (\<lambda>m a. snd (pjmedia_sdp_media_add_attr m a)) answer1 a_tmp)"

text \<open>Building the answer from the local media and the chosen pairs.\<close>

definition build_answer ::
  "pjmedia_sdp_media \<Rightarrow> pjmedia_sdp_media \<Rightarrow> (pj_str_t \<times> pj_str_t) list \<Rightarrow> pjmedia_sdp_media option" where
  "build_answer offer pre pairs =
     (case place_formats 0 (map snd pairs) (m_fmt pre) of
        None \<Rightarrow> None
      | Some fmts \<Rightarrow>
          let answer1 = foldl remove_fmt_attrs (pre\<lparr>m_fmt := fmts\<rparr>) (drop (length pairs) fmts);
              answer2 = answer1\<lparr>m_fmt := take (length pairs) fmts\<rparr>;
              answer3 = apply_answer_symmetric_pt pairs answer2
          in Some (update_media_direction offer answer3))"

definition initial_match :: "pjmedia_sdp_media \<Rightarrow> match_state" where
  "initial_match pre =
     \<lparr>ms_pre = pre, ms_pairs = [], ms_clockrate = [], ms_tel_clockrate = [], master_has_codec = False,
      master_has_other = False, found_matching_codec = False, found_matching_tel = False, found_matching_other = False\<rparr>"

text \<open>The status or the answer, with the local media as callbacks leave it; \<open>None\<close> as in \<open>place_formats\<close>.\<close>

definition match_offer ::
  "neg_env \<Rightarrow> bool \<Rightarrow> bool \<Rightarrow> pjmedia_sdp_media \<Rightarrow> pjmedia_sdp_media \<Rightarrow> pjmedia_sdp_session
   \<Rightarrow> ((pj_status_t + pjmedia_sdp_media) \<times> pjmedia_sdp_media) option" where
  "match_offer env prefer multiple offer preanswer preanswer_sdp =
     (if m_port offer = 0 then Some (Inr (sdp_media_clone_deactivate offer preanswer preanswer_sdp), preanswer)
      else if m_port preanswer = 0 then Some (Inr preanswer, preanswer)
      else let master = (if prefer then offer else preanswer)
           in case match_fmts env prefer multiple offer [0..<length (m_fmt master)] (initial_match preanswer) of
                Inl (status, st) \<Rightarrow> Some (Inl status, ms_pre st)
              | Inr st \<Rightarrow>
                  if master_has_codec st \<and> \<not> found_matching_codec st then Some (Inl PJMEDIA_SDPNEG_NOANSCODEC, ms_pre st)
                  else if master_has_other st \<and> \<not> found_matching_other st then Some (Inl PJMEDIA_SDPNEG_NOANSUNKNOWN, ms_pre st)
                  else map_option (\<lambda>answer. (Inr answer, ms_pre st)) (build_answer offer (ms_pre st) (wanted_pairs st)))"

section \<open>Creating an answer\<close>

definition media_proto :: "pjmedia_sdp_media \<Rightarrow> 32 word" where
  "media_proto m = tp_trim_flag (pjmedia_sdp_transport_get_proto (m_transport m)) PJMEDIA_TP_PROFILE_RTCP_FB"

text \<open>
  The search for a local media, from index \<open>j\<close>, that answers the offered one: the answer if there is one, the local media
  as they are left with their marks of use, and the last status of a media that did not match.
\<close>

fun find_local_media ::
  "neg_env \<Rightarrow> bool \<Rightarrow> bool \<Rightarrow> pjmedia_sdp_session \<Rightarrow> pjmedia_sdp_media \<Rightarrow> pj_status_t \<Rightarrow> (pjmedia_sdp_media \<times> bool) list
   \<Rightarrow> (pjmedia_sdp_media option \<times> (pjmedia_sdp_media \<times> bool) list \<times> pj_status_t) option" where
  "find_local_media env prefer multiple initial om status [] = Some (None, [], status)"
| "find_local_media env prefer multiple initial om status ((im, used) # ims) =
     (if m_media om = m_media im \<and> media_proto om = media_proto im \<and> \<not> used then
        case match_offer env prefer multiple om im initial of
          None \<Rightarrow> None
        | Some (Inr am, im1) \<Rightarrow> Some (Some am, (im1, True) # ims, status)
        | Some (Inl status2, im1) \<Rightarrow>
            map_option (\<lambda>(r, ims1, s). (r, (im1, used) # ims1, s))
              (find_local_media env prefer multiple initial om status2 ims)
      else map_option (\<lambda>(r, ims1, s). (r, (im, used) # ims1, s))
             (find_local_media env prefer multiple initial om status ims))"

fun answer_media ::
  "neg_env \<Rightarrow> bool \<Rightarrow> bool \<Rightarrow> pjmedia_sdp_session \<Rightarrow> pj_status_t \<Rightarrow> (pjmedia_sdp_media \<times> bool) list \<Rightarrow> pjmedia_sdp_media list
   \<Rightarrow> (pjmedia_sdp_media list \<times> pj_status_t) option" where
  "answer_media env prefer multiple initial status ims [] = Some ([], status)"
| "answer_media env prefer multiple initial status ims (om # oms) =
     (case find_local_media env prefer multiple initial om status ims of
        None \<Rightarrow> None
      | Some (r, ims1, status1) \<Rightarrow>
          let am = (case r of None \<Rightarrow> sdp_media_clone_deactivate om om initial | Some m \<Rightarrow> m)
          in map_option (\<lambda>(ams, s). (am # ams, s)) (answer_media env prefer multiple initial status1 ims1 oms))"

text \<open>The status starts as that of the validation, which has succeeded.\<close>

definition create_answer ::
  "neg_env \<Rightarrow> bool \<Rightarrow> bool \<Rightarrow> pjmedia_sdp_session \<Rightarrow> pjmedia_sdp_session
   \<Rightarrow> (pj_status_t \<times> pjmedia_sdp_session option) option" where
  "create_answer env prefer multiple initial offer =
     (let status = pjmedia_sdp_validate offer
      in if status \<noteq> PJ_SUCCESS then Some (status, None)
         else case answer_media env prefer multiple initial status (map (\<lambda>m. (m, False)) (s_media initial)) (s_media offer) of
                None \<Rightarrow> None
              | Some (ams, status1) \<Rightarrow>
                  Some (if list_ex (\<lambda>m. m_port m \<noteq> 0) ams then PJ_SUCCESS else status1,
                        Some (initial\<lparr>s_media := ams\<rparr>)))"

section \<open>Numbers of dynamic payload types\<close>

definition START_DYNAMIC_PT :: nat where "START_DYNAMIC_PT = 96"
definition DYNAMIC_PT_SIZE :: nat where "DYNAMIC_PT_SIZE = 127 - START_DYNAMIC_PT + 1"
definition UNKNOWN_CODEC :: int where "UNKNOWN_CODEC = 99"

text \<open>
  The two loops of \<^verbatim>\<open>find_new_pt\<close> are one over their indices; an unused number mapped to the codec ends them, and
  \<open>result\<close> is the best so far: unmapped if possible.
\<close>

fun find_pt_loop :: "(nat \<Rightarrow> int) \<Rightarrow> (nat \<Rightarrow> bool) \<Rightarrow> int \<Rightarrow> int \<Rightarrow> nat list \<Rightarrow> int" where
  "find_pt_loop p2c used codec_idx result [] = result"
| "find_pt_loop p2c used codec_idx result (idx # is) =
     (if used idx then find_pt_loop p2c used codec_idx result is
      else if p2c idx = codec_idx then int idx
      else if p2c idx = -1 \<and> (result = -1 \<or> p2c (nat result) \<noteq> -1)
      then find_pt_loop p2c used codec_idx (int idx) is
      else if result = -1 then find_pt_loop p2c used codec_idx (int idx) is
      else find_pt_loop p2c used codec_idx result is)"

definition find_new_pt :: "(nat \<Rightarrow> int) \<Rightarrow> (nat \<Rightarrow> bool) \<Rightarrow> pj_str_t \<Rightarrow> int \<Rightarrow> nat" where
  "find_new_pt p2c used codec codec_idx =
     (let start = (if pj_strnicmp_eq codec (ascii ''telephone-event'') 15 then 120 - START_DYNAMIC_PT else 0)
      in nat (int START_DYNAMIC_PT +
              find_pt_loop p2c used codec_idx (-1) ([start..<DYNAMIC_PT_SIZE] @ [0..<start])))"

definition rewrite_pt2 :: "pj_str_t \<Rightarrow> nat \<Rightarrow> nat \<Rightarrow> pj_str_t" where
  "rewrite_pt2 attr_val pt new_pt = rewrite_pt attr_val (if pt \<ge> 100 then 3 else 2) (pj_utoa new_pt)"

text \<open>The maps of one media while its attributes are read, with the numbers used and the changes made.\<close>

record pt_maps =
  p2c :: "nat \<Rightarrow> int"
  c2p :: "nat \<Rightarrow> nat"
  pt_used :: "nat \<Rightarrow> bool"
  pt_change :: "nat \<Rightarrow> nat"

text \<open>The number for a codec whose payload type is \<open>pt\<close>: the same, the one it had before, or a new one.\<close>

definition choose_pt :: "bool \<Rightarrow> pt_maps \<Rightarrow> nat \<Rightarrow> pj_str_t \<Rightarrow> int \<Rightarrow> nat" where
  "choose_pt is_offer st pt codec codec_idx =
     (let mapped = p2c st (pt - START_DYNAMIC_PT);
          old = (if codec_idx \<noteq> UNKNOWN_CODEC then c2p st (nat codec_idx) else 0);
          need_new_pt = ((mapped \<noteq> -1 \<and> mapped \<noteq> codec_idx) \<or> pt_used st (pt - START_DYNAMIC_PT));
          new0 = (if old \<noteq> 0 \<and> \<not> pt_used st (old - START_DYNAMIC_PT) \<and> (need_new_pt \<or> is_offer) then old else 0);
          new1 = (if need_new_pt \<and> new0 = 0 then find_new_pt (p2c st) (pt_used st) codec codec_idx else new0)
      in if new1 \<noteq> 0 \<and> new1 \<noteq> pt then new1 else pt)"

text \<open>The name that a codec is looked up by.\<close>

definition codec_name :: "pjmedia_type \<Rightarrow> pjmedia_sdp_rtpmap \<Rightarrow> pj_str_t" where
  "codec_name ty r =
     (if ty = PJMEDIA_TYPE_AUDIO
      then pjmedia_codec_info_to_id (rm_enc_name r) (rm_clock_rate r) (if rm_param r \<noteq> [] then pj_strtoul (rm_param r) else 1)
      else rm_enc_name r)"

definition assign_attr ::
  "pjmedia_type \<Rightarrow> pj_str_t list \<Rightarrow> bool \<Rightarrow> pt_maps \<Rightarrow> pjmedia_sdp_attr \<Rightarrow> pjmedia_sdp_attr \<times> pt_maps" where
  "assign_attr ty dyn_codecs is_offer st a =
     (if attr_name a \<noteq> ascii ''rtpmap'' \<or> fst (pjmedia_sdp_attr_get_rtpmap a) \<noteq> PJ_SUCCESS then (a, st)
      else let r = snd (pjmedia_sdp_attr_get_rtpmap a); pt = pj_strtoul (rm_pt r)
           in if pt < START_DYNAMIC_PT then (a, st)
              else let codec = codec_name ty r; idx = pjmedia_codec_mgr_find_codec dyn_codecs codec;
                       codec_idx = (if idx < 0 then UNKNOWN_CODEC else idx);
                       new_pt = choose_pt is_offer st pt codec codec_idx
                   in ((if new_pt \<noteq> pt then a\<lparr>attr_value := rewrite_pt2 (attr_value a) pt new_pt\<rparr> else a),
                       st\<lparr>pt_used := (pt_used st)(new_pt - START_DYNAMIC_PT := True),
                          pt_change := (pt_change st)(pt - START_DYNAMIC_PT := new_pt),
                          p2c := (p2c st)(new_pt - START_DYNAMIC_PT := codec_idx),
                          c2p := (if codec_idx \<noteq> UNKNOWN_CODEC then (c2p st)(nat codec_idx := new_pt) else c2p st)\<rparr>))"

fun assign_attrs ::
  "pjmedia_type \<Rightarrow> pj_str_t list \<Rightarrow> bool \<Rightarrow> pt_maps \<Rightarrow> pjmedia_sdp_attr list \<Rightarrow> pjmedia_sdp_attr list \<times> pt_maps" where
  "assign_attrs ty dyn_codecs is_offer st [] = ([], st)"
| "assign_attrs ty dyn_codecs is_offer st (a # as) =
     (let (a1, st1) = assign_attr ty dyn_codecs is_offer st a; (as1, st2) = assign_attrs ty dyn_codecs is_offer st1 as
      in (a1 # as1, st2))"

text \<open>A number that has changed is rewritten in the formats and in the \<^verbatim>\<open>fmtp\<close> attributes.\<close>

definition changed_pt :: "(nat \<Rightarrow> nat) \<Rightarrow> nat \<Rightarrow> bool" where
  "changed_pt change pt \<longleftrightarrow>
     pt \<ge> START_DYNAMIC_PT \<and> change (pt - START_DYNAMIC_PT) \<noteq> 0 \<and> change (pt - START_DYNAMIC_PT) \<noteq> pt"

definition modify_fmtp :: "(nat \<Rightarrow> nat) \<Rightarrow> pjmedia_sdp_attr \<Rightarrow> pjmedia_sdp_attr" where
  "modify_fmtp change a =
     (if attr_name a \<noteq> ascii ''fmtp'' then a
      else case pjmedia_sdp_attr_get_fmtp a of
             Inl _ \<Rightarrow> a
           | Inr f \<Rightarrow>
               let pt = pj_strtoul (fmtp_fmt f)
               in if changed_pt change pt
                  then a\<lparr>attr_value := rewrite_pt2 (attr_value a) pt (change (pt - START_DYNAMIC_PT))\<rparr> else a)"

definition modify_fmt :: "(nat \<Rightarrow> nat) \<Rightarrow> pj_str_t \<Rightarrow> pj_str_t" where
  "modify_fmt change fmt =
     (let pt = pj_strtoul fmt
      in if changed_pt change pt then rewrite_pt2 fmt pt (change (pt - START_DYNAMIC_PT)) else fmt)"

text \<open>Media \<open>i\<close> of a description.\<close>

definition assign_media ::
  "bool \<Rightarrow> nat \<Rightarrow> pjmedia_sdp_media \<Rightarrow> pjmedia_sdp_neg \<Rightarrow> pjmedia_sdp_media \<times> pjmedia_sdp_neg" where
  "assign_media is_offer i m neg =
     (if m_port m = 0 then
        (m, neg\<lparr>pt_to_codec := (pt_to_codec neg)(i := (\<lambda>_. -1)), codec_to_pt := (codec_to_pt neg)(i := (\<lambda>_. 0))\<rparr>)
      else let ty = pjmedia_get_type (m_media m)
           in if ty \<noteq> PJMEDIA_TYPE_AUDIO \<and> ty \<noteq> PJMEDIA_TYPE_VIDEO then (m, neg)
              else let dyn_codecs = (if ty = PJMEDIA_TYPE_AUDIO then aud_dyn_codecs neg else vid_dyn_codecs neg);
                       (attrs, st) = assign_attrs ty dyn_codecs is_offer
                          \<lparr>p2c = pt_to_codec neg i, c2p = codec_to_pt neg i, pt_used = (\<lambda>_. False), pt_change = (\<lambda>_. 0)\<rparr>
                          (m_attr m)
                   in (m\<lparr>m_attr := map (modify_fmtp (pt_change st)) attrs,
                         m_fmt := map (modify_fmt (pt_change st)) (m_fmt m)\<rparr>,
                       neg\<lparr>pt_to_codec := (pt_to_codec neg)(i := p2c st),
                           codec_to_pt := (codec_to_pt neg)(i := c2p st)\<rparr>))"

fun assign_medias ::
  "bool \<Rightarrow> nat \<Rightarrow> pjmedia_sdp_media list \<Rightarrow> pjmedia_sdp_neg \<Rightarrow> pjmedia_sdp_media list \<times> pjmedia_sdp_neg" where
  "assign_medias is_offer i [] neg = ([], neg)"
| "assign_medias is_offer i (m # ms) neg =
     (let (m1, neg1) = assign_media is_offer i m neg; (ms1, neg2) = assign_medias is_offer (i + 1) ms neg1
      in (m1 # ms1, neg2))"

text \<open>With \<^verbatim>\<open>update_only\<close> off, as the configuration has it.\<close>

definition assign_pt_and_update_map ::
  "bool \<Rightarrow> pjmedia_sdp_session \<Rightarrow> pjmedia_sdp_neg \<Rightarrow> pjmedia_sdp_session \<times> pjmedia_sdp_neg" where
  "assign_pt_and_update_map is_offer sess neg =
     (let (ms, neg1) = assign_medias is_offer 0 (s_media sess) neg in (sess\<lparr>s_media := ms\<rparr>, neg1))"

section \<open>Offers and answers\<close>

definition bump_version :: "pjmedia_sdp_session \<Rightarrow> pjmedia_sdp_session" where
  "bump_version s = s\<lparr>origin_version := u32 (int (origin_version s) + 1)\<rparr>"

text \<open>
  Ordering the media of a new offer by those of the old one: each is moved to the place of the first old one of its
  type that is still to be placed, and a rejected copy stands for one that is missing.
\<close>

fun fix_media ::
  "pjmedia_sdp_session \<Rightarrow> pjmedia_sdp_media list \<Rightarrow> nat \<Rightarrow> pjmedia_sdp_media list \<Rightarrow> pjmedia_sdp_media list" where
  "fix_media local [] oi news = news"
| "fix_media local (om # oms) oi news =
     (case find_index (\<lambda>nm. m_media nm = m_media om) (drop oi news) of
        Some k \<Rightarrow>
          fix_media local oms (oi + 1) (take oi news @ (news ! (oi + k)) # take k (drop oi news) @ drop (oi + k + 1) news)
      | None \<Rightarrow>
          fix_media local oms (oi + 1) (take oi news @ sdp_media_clone_deactivate om om local # drop oi news))"

text \<open>With \<^verbatim>\<open>PJMEDIA_SDP_NEG_ALLOW_MEDIA_CHANGE\<close> only the missing media at the end are added.\<close>

definition add_missing_media ::
  "pjmedia_sdp_session \<Rightarrow> pjmedia_sdp_media list \<Rightarrow> pjmedia_sdp_media list \<Rightarrow> pjmedia_sdp_media list" where
  "add_missing_media local olds news =
     news @ map (\<lambda>om. sdp_media_clone_deactivate om om local) (drop (length news) olds)"

definition not_equal :: "pjmedia_sdp_session option \<Rightarrow> pjmedia_sdp_session \<Rightarrow> bool" where
  "not_equal s1 s2 \<longleftrightarrow> (case s1 of None \<Rightarrow> True | Some s \<Rightarrow> pjmedia_sdp_session_cmp s s2 \<noteq> PJ_SUCCESS)"

definition pjmedia_sdp_neg_modify_local_offer2 ::
  "bool \<Rightarrow> pjmedia_sdp_session \<Rightarrow> pjmedia_sdp_neg \<Rightarrow> pj_status_t \<times> pjmedia_sdp_neg" where
  "pjmedia_sdp_neg_modify_local_offer2 allow_media_change local neg =
     (if neg_state neg \<noteq> PJMEDIA_SDP_NEG_STATE_DONE then (PJMEDIA_SDPNEG_EINSTATE, neg)
      else if pjmedia_sdp_validate local \<noteq> PJ_SUCCESS then (pjmedia_sdp_validate local, neg)
      else let neg1 = neg\<lparr>neg_state := PJMEDIA_SDP_NEG_STATE_LOCAL_OFFER\<rparr>
           in case active_local_sdp neg1 of
                None \<Rightarrow>
                  let (init, neg2) = assign_pt_and_update_map True local neg1;
                      offer = (if not_equal (last_sent neg2) init then bump_version init else init)
                  in (PJ_SUCCESS, neg2\<lparr>initial_sdp_tmp := None, initial_sdp := Some init,
                                       neg_local_sdp := Some offer, last_sent := Some offer\<rparr>)
              | Some old_offer \<Rightarrow>
                  let medias = (if allow_media_change then add_missing_media local (s_media old_offer) (s_media local)
                                else fix_media local (s_media old_offer) 0 (s_media local));
                      new1 = local\<lparr>origin_user := origin_user old_offer, origin_id := origin_id old_offer,
                                   origin_net_type := origin_net_type old_offer,
                                   origin_addr_type := origin_addr_type old_offer,
                                   origin_addr := origin_addr old_offer, s_media := medias,
                                   origin_version := origin_version old_offer\<rparr>;
                      (new2, neg2) = assign_pt_and_update_map True new1 neg1;
                      new3 = (if not_equal (last_sent neg2) new2 then bump_version new2 else new2)
                  in (PJ_SUCCESS, neg2\<lparr>initial_sdp_tmp := initial_sdp neg2, initial_sdp := Some new3,
                                       neg_local_sdp := Some new3, last_sent := Some new3\<rparr>))"

definition pjmedia_sdp_neg_modify_local_offer ::
  "pjmedia_sdp_session \<Rightarrow> pjmedia_sdp_neg \<Rightarrow> pj_status_t \<times> pjmedia_sdp_neg" where
  "pjmedia_sdp_neg_modify_local_offer local neg = pjmedia_sdp_neg_modify_local_offer2 False local neg"

text \<open>The last component is the offer to send.\<close>

definition pjmedia_sdp_neg_send_local_offer ::
  "pjmedia_sdp_neg \<Rightarrow> pj_status_t \<times> pjmedia_sdp_neg \<times> pjmedia_sdp_session option" where
  "pjmedia_sdp_neg_send_local_offer neg =
     (if neg_state neg = PJMEDIA_SDP_NEG_STATE_DONE then
        (case active_local_sdp neg of
           None \<Rightarrow> (PJMEDIA_SDPNEG_ENOACTIVE, neg, None)
         | Some active \<Rightarrow>
             if last_sent neg = None then (PJMEDIA_SDPNEG_ENOACTIVE, neg, None)
             else let neg1 = (if initial_sdp neg \<noteq> None then neg\<lparr>initial_sdp_tmp := initial_sdp neg\<rparr> else neg);
                      new_offer = (if not_equal (last_sent neg) active then bump_version active else active)
                  in (PJ_SUCCESS,
                      neg1\<lparr>neg_state := PJMEDIA_SDP_NEG_STATE_LOCAL_OFFER, neg_local_sdp := Some new_offer,
                           last_sent := Some new_offer\<rparr>, Some new_offer))
      else if neg_state neg = PJMEDIA_SDP_NEG_STATE_LOCAL_OFFER then (PJ_SUCCESS, neg, neg_local_sdp neg)
      else (PJMEDIA_SDPNEG_EINSTATE, neg, None))"

definition pjmedia_sdp_neg_set_remote_answer :: "pjmedia_sdp_session \<Rightarrow> pjmedia_sdp_neg \<Rightarrow> pj_status_t \<times> pjmedia_sdp_neg" where
  "pjmedia_sdp_neg_set_remote_answer remote neg =
     (if neg_state neg \<noteq> PJMEDIA_SDP_NEG_STATE_LOCAL_OFFER then (PJMEDIA_SDPNEG_EINSTATE, neg)
      else (PJ_SUCCESS, neg\<lparr>neg_state := PJMEDIA_SDP_NEG_STATE_WAIT_NEGO, has_remote_answer := True,
                            neg_remote_sdp := Some remote\<rparr>))"

definition pjmedia_sdp_neg_set_remote_offer :: "pjmedia_sdp_session \<Rightarrow> pjmedia_sdp_neg \<Rightarrow> pj_status_t \<times> pjmedia_sdp_neg" where
  "pjmedia_sdp_neg_set_remote_offer remote neg =
     (if neg_state neg \<noteq> PJMEDIA_SDP_NEG_STATE_DONE then (PJMEDIA_SDPNEG_EINSTATE, neg)
      else (PJ_SUCCESS, neg\<lparr>neg_state := PJMEDIA_SDP_NEG_STATE_REMOTE_OFFER, neg_remote_sdp := Some remote\<rparr>))"

definition pjmedia_sdp_neg_set_local_answer :: "pjmedia_sdp_session \<Rightarrow> pjmedia_sdp_neg \<Rightarrow> pj_status_t \<times> pjmedia_sdp_neg" where
  "pjmedia_sdp_neg_set_local_answer local neg =
     (if neg_state neg \<noteq> PJMEDIA_SDP_NEG_STATE_REMOTE_OFFER \<and> neg_state neg \<noteq> PJMEDIA_SDP_NEG_STATE_WAIT_NEGO
      then (PJMEDIA_SDPNEG_EINSTATE, neg)
      else let neg1 = neg\<lparr>neg_state := PJMEDIA_SDP_NEG_STATE_WAIT_NEGO, neg_local_sdp := Some local\<rparr>
           in (PJ_SUCCESS,
               case initial_sdp neg of
                 Some init \<Rightarrow> neg1\<lparr>initial_sdp_tmp := Some init, neg_local_sdp := Some (local\<lparr>origin_id := origin_id init\<rparr>)\<rparr>
               | None \<Rightarrow> neg1\<lparr>initial_sdp := Some local\<rparr>))"

definition pjmedia_sdp_neg_has_local_answer :: "pjmedia_sdp_neg \<Rightarrow> bool" where
  "pjmedia_sdp_neg_has_local_answer neg = (\<not> has_remote_answer neg)"

definition pjmedia_sdp_neg_cancel_offer :: "pjmedia_sdp_neg \<Rightarrow> pj_status_t \<times> pjmedia_sdp_neg" where
  "pjmedia_sdp_neg_cancel_offer neg =
     (if neg_state neg \<noteq> PJMEDIA_SDP_NEG_STATE_LOCAL_OFFER \<and> neg_state neg \<noteq> PJMEDIA_SDP_NEG_STATE_REMOTE_OFFER
      then (PJMEDIA_SDPNEG_EINSTATE, neg)
      else let neg1 = (if neg_state neg = PJMEDIA_SDP_NEG_STATE_LOCAL_OFFER
                       then neg\<lparr>initial_sdp := initial_sdp_tmp neg\<rparr> else neg)
           in (PJ_SUCCESS, neg1\<lparr>initial_sdp_tmp := None, neg_local_sdp := None, neg_remote_sdp := None,
                                has_remote_answer := False, neg_state := PJMEDIA_SDP_NEG_STATE_DONE\<rparr>))"

text \<open>What \<^verbatim>\<open>pjmedia_sdp_neg_negotiate\<close> does whatever the outcome.\<close>

definition finish_negotiation :: "pj_status_t \<Rightarrow> pjmedia_sdp_neg \<Rightarrow> pjmedia_sdp_neg" where
  "finish_negotiation status neg =
     (let neg1 = neg\<lparr>neg_state := PJMEDIA_SDP_NEG_STATE_DONE, answer_was_remote := has_remote_answer neg\<rparr>;
          neg2 = (if status \<noteq> PJ_SUCCESS then neg1\<lparr>initial_sdp := initial_sdp_tmp neg1\<rparr> else neg1)
      in neg2\<lparr>initial_sdp_tmp := None, neg_local_sdp := None, neg_remote_sdp := None, has_remote_answer := False\<rparr>)"

text \<open>
  \<open>None\<close> as in \<open>place_formats\<close>. Without a local description, which the states exclude, the parts it is passed to
  return an error. On failure the last description sent is copied, which keeps its value.
\<close>

definition pjmedia_sdp_neg_negotiate :: "neg_env \<Rightarrow> bool \<Rightarrow> pjmedia_sdp_neg \<Rightarrow> (pj_status_t \<times> pjmedia_sdp_neg) option" where
  "pjmedia_sdp_neg_negotiate env allow_asym neg =
     (if neg_state neg \<noteq> PJMEDIA_SDP_NEG_STATE_WAIT_NEGO then Some (PJMEDIA_SDPNEG_EINSTATE, neg)
      else case neg_remote_sdp neg of
        None \<Rightarrow> Some (PJ_EBUG, neg)
      | Some remote \<Rightarrow>
          (case neg_local_sdp neg of
             None \<Rightarrow>
               let status = (if has_remote_answer neg then PJ_EINVAL
                             else if pjmedia_sdp_validate remote \<noteq> PJ_SUCCESS then pjmedia_sdp_validate remote else PJ_ENOMEM)
               in Some (status, finish_negotiation status neg)
           | Some local \<Rightarrow>
               if has_remote_answer neg then
                 (case process_answer env allow_asym local remote of
                    Inr (active, remote1) \<Rightarrow>
                      Some (PJ_SUCCESS, finish_negotiation PJ_SUCCESS
                        (neg\<lparr>active_local_sdp := Some active, active_remote_sdp := Some remote1\<rparr>))
                  | Inl status \<Rightarrow> Some (status, finish_negotiation status neg))
               else
                 (case create_answer env (prefer_remote_codec_order neg) (answer_with_multiple_codecs neg) local remote of
                    None \<Rightarrow> None
                  | Some (status, answer_opt) \<Rightarrow>
                      (case answer_opt of
                         None \<Rightarrow> Some (status, finish_negotiation status neg)
                       | Some answer \<Rightarrow>
                           if status \<noteq> PJ_SUCCESS then Some (status, finish_negotiation status neg)
                           else let (answer1, neg1) = assign_pt_and_update_map False answer neg;
                                    answer2 = (case last_sent neg of
                                                 Some l \<Rightarrow> answer1\<lparr>origin_version := origin_version l\<rparr> | None \<Rightarrow> answer1);
                                    answer3 = (if not_equal (last_sent neg) answer2 then bump_version answer2 else answer2)
                                in Some (PJ_SUCCESS, finish_negotiation PJ_SUCCESS
                                     (neg1\<lparr>active_local_sdp := Some answer3, active_remote_sdp := Some remote,
                                           last_sent := Some answer3\<rparr>))))))"

end
