(* ===== verification/Sdp_Props.thy ===== *)
theory Sdp_Props
  imports Sdp_Neg "HOL-Library.List_Lexorder" "HOL-Library.Sublist" "HOL-Library.Multiset" "HOL-Library.Code_Target_Nat"
begin

text \<open>
  Correctness of the session descriptions and of their negotiation: reading back what is printed, the search
  for codecs, directions, and what an answer that is processed leaves of the two descriptions.
\<close>

section \<open>Searching and reading\<close>

lemma find_index_Some:
  "find_index P xs = Some i \<Longrightarrow> i < length xs \<and> P (xs ! i) \<and> (\<forall>k<i. \<not> P (xs ! k))"
proof (induction xs arbitrary: i)
  case (Cons x xs)
  show ?case
  proof (cases "P x")
    case False
    then obtain k where "find_index P xs = Some k" "i = Suc k" using Cons.prems by auto
    then show ?thesis using Cons.IH False by (auto simp: nth_Cons split: nat.splits)
  qed (use Cons.prems in auto)
qed simp

lemma find_index_None [simp]: "find_index P xs = None \<longleftrightarrow> (\<forall>x\<in>set xs. \<not> P x)"
  by (induction xs) auto

lemma find_index_eqI:
  "i < length xs \<Longrightarrow> P (xs ! i) \<Longrightarrow> (\<And>k. k < i \<Longrightarrow> \<not> P (xs ! k)) \<Longrightarrow> find_index P xs = Some i"
proof (induction xs arbitrary: i)
  case (Cons x xs)
  show ?case
  proof (cases i)
    case (Suc k)
    have "\<not> P x" using Cons.prems(3)[of 0] Suc by simp
    moreover have "find_index P xs = Some k" using Cons.prems Suc by (intro Cons.IH) force+
    ultimately show ?thesis using Suc by simp
  qed (use Cons.prems in simp)
qed simp

lemma find_index_cong: "(\<And>x. x \<in> set xs \<Longrightarrow> P x = Q x) \<Longrightarrow> find_index P xs = find_index Q xs"
  by (induction xs) auto

lemma find_index_upt:
  "find_index P [0..<n] = Some j \<Longrightarrow> j < n \<and> P j"
  using find_index_Some[of P "[0..<n]" j] by auto

lemma cs_token_not [simp]: "\<not> cs_token 32" "\<not> cs_token 9" "\<not> cs_token 47" "\<not> cs_digit 47" "\<not> cs_digit 32"
  by (simp_all add: cs_token_def cs_digit_def)

lemma scan_get_token:
  assumes "\<forall>c\<in>set t. spec c" and "t \<noteq> []" and "s \<noteq> [] \<longrightarrow> \<not> spec (hd s)"
  shows "pj_scan_get spec (t @ s) = Some (t, pj_scan_skip_whitespace s)"
proof -
  have "takeWhile spec (t @ s) = t" "dropWhile spec (t @ s) = s"
    using assms by (cases s; simp add: takeWhile_append dropWhile_append)+
  moreover have "spec (hd (t @ s))" using assms(1,2) by (simp add: hd_append)
  ultimately show ?thesis using assms(2) by (simp add: pj_scan_get_def)
qed

lemma skip_nothing: "s = [] \<or> (hd s \<noteq> 32 \<and> hd s \<noteq> 9) \<Longrightarrow> pj_scan_skip_whitespace s = s"
  by (cases s) (auto simp: pj_scan_skip_whitespace_def)

lemma digit_of: "d < 10 \<Longrightarrow> pj_isdigit (word_of_nat (d + 48)) \<and> digit_val (word_of_nat (d + 48)) = d"
proof -
  assume "d < 10"
  then have "d \<in> {0, 1, 2, 3, 4, 5, 6, 7, 8, 9}" by auto
  then show ?thesis by (auto simp: pj_isdigit_def digit_val_def)
qed

lemma utoa_snoc: "pj_utoa n = (if n div 10 > 0 then pj_utoa (n div 10) else []) @ [word_of_nat (n mod 10 + 48)]"
  unfolding pj_utoa_def by (subst utoa_digits.simps) simp

lemma utoa_not_empty [simp]: "pj_utoa n \<noteq> []"
  by (subst utoa_snoc) simp

lemma utoa_isdigit: "c \<in> set (pj_utoa n) \<Longrightarrow> pj_isdigit c"
  using utoa_digits_range[of c n] digit_of by (auto simp: pj_utoa_def)

lemma strtoul_append:
  "\<forall>c\<in>set xs. pj_isdigit c \<Longrightarrow> strtoul_loop v (xs @ ys) = strtoul_loop (strtoul_loop v xs) ys"
  by (induction xs arbitrary: v) auto

lemma strtoul_utoa: "n < 4294967296 \<Longrightarrow> pj_strtoul (pj_utoa n) = n"
proof (induction n rule: less_induct)
  case (less n)
  have d: "pj_isdigit (word_of_nat (n mod 10 + 48))" "digit_val (word_of_nat (n mod 10 + 48)) = n mod 10"
    using digit_of[of "n mod 10"] by simp_all
  show ?case
  proof (cases "n div 10 > 0")
    case True
    then have "pj_strtoul (pj_utoa (n div 10)) = n div 10" using less by auto
    then have "pj_strtoul (pj_utoa n) = u32 (int (n div 10) * 10 + int (n mod 10))"
      using True d utoa_isdigit by (subst utoa_snoc) (simp add: pj_strtoul_def strtoul_append)
    also have "int (n div 10) * 10 + int (n mod 10) = int n"
      by (metis div_mult_mod_eq of_nat_add of_nat_mult of_nat_numeral)
    finally show ?thesis using less.prems by simp
  next
    case False
    then show ?thesis using d by (subst utoa_snoc) (simp add: pj_strtoul_def)
  qed
qed

text \<open>C30: an \<^verbatim>\<open>rtpmap\<close> attribute reads back as what it was made from, for tokens and every clock rate of 32 bits.\<close>

theorem sdp_rtpmap_roundtrip:
  assumes "pjmedia_sdp_rtpmap_to_attr r = Inr a" and "rm_clock_rate r < 4294967296"
    and "\<forall>c\<in>set (rm_pt r) \<union> set (rm_enc_name r) \<union> set (rm_param r). cs_token c"
  shows "pjmedia_sdp_attr_get_rtpmap a = (PJ_SUCCESS, r)"
proof -
  define s4 where "s4 = (if rm_param r \<noteq> [] then [SLASH] else []) @ rm_param r"
  define s3 where "s3 = pj_utoa (rm_clock_rate r) @ s4"
  have ne: "rm_pt r \<noteq> []" "rm_enc_name r \<noteq> []" and v: "attr_name a = ascii ''rtpmap''"
    "attr_value a = rm_pt r @ 32 # rm_enc_name r @ SLASH # s3"
    using assms(1) by (auto simp: pjmedia_sdp_rtpmap_to_attr_def Let_def s3_def s4_def split: if_splits)
  have blank: "c \<noteq> 32 \<and> c \<noteq> 9" if "cs_token c" for c using that cs_token_not by metis
  have dig: "cs_digit c \<and> c \<noteq> 32 \<and> c \<noteq> 9" if "c \<in> set (pj_utoa n)" for c n
  proof -
    have "cs_digit c" using utoa_isdigit[OF that] by (simp add: cs_digit_def pj_isdigit_def)
    then show ?thesis by (auto simp: cs_digit_def)
  qed
  have hd3: "hd s3 \<in> set (pj_utoa (rm_clock_rate r))" "s3 \<noteq> []" by (simp_all add: s3_def hd_append)
  have skip0: "pj_scan_skip_whitespace (rm_pt r @ t) = rm_pt r @ t" for t
    using ne(1) assms(3) blank by (intro skip_nothing) (simp add: hd_append)
  have skip1: "pj_scan_skip_whitespace (32 # rm_enc_name r @ t) = rm_enc_name r @ t" for t
    using ne(2) assms(3) blank skip_nothing[of "rm_enc_name r @ t"]
    by (simp add: pj_scan_skip_whitespace_def hd_append)
  have skip2: "pj_scan_skip_whitespace (SLASH # t) = SLASH # t" for t by (simp add: pj_scan_skip_whitespace_def)
  have skip3: "pj_scan_skip_whitespace s3 = s3" using dig[OF hd3(1)] by (intro skip_nothing) simp
  have skip4: "pj_scan_skip_whitespace s4 = s4" by (cases "rm_param r = []") (simp_all add: s4_def skip2 skip_nothing)
  have skip5: "pj_scan_skip_whitespace (rm_param r) = rm_param r"
    using assms(3) blank by (intro skip_nothing) (cases "rm_param r", auto)
  have g1: "pj_scan_get cs_token (rm_pt r @ 32 # rm_enc_name r @ t) = Some (rm_pt r, rm_enc_name r @ t)" for t
    using scan_get_token[of "rm_pt r" cs_token "32 # rm_enc_name r @ t"] ne(1) assms(3) skip1 by simp
  have g2: "pj_scan_get cs_token (rm_enc_name r @ SLASH # t) = Some (rm_enc_name r, SLASH # t)" for t
    using scan_get_token[of "rm_enc_name r" cs_token "SLASH # t"] ne(2) assms(3) skip2 by simp
  have g3: "pj_scan_get cs_digit s3 = Some (pj_utoa (rm_clock_rate r), s4)"
    unfolding s3_def using dig skip4 by (subst scan_get_token) (auto simp: s4_def)
  have g4: "pj_scan_get cs_token (rm_param r) = Some (rm_param r, [])" if "rm_param r \<noteq> []"
    using scan_get_token[of "rm_param r" cs_token "[]"] that assms(3) skip_nothing[of "[]"] by simp
  show ?thesis
    unfolding pjmedia_sdp_attr_get_rtpmap_def v skip0 g1
    using ne(1) v strtoul_utoa[OF assms(2)]
    by (cases "rm_param r = []")
       (simp_all add: g2 g3 g4 pj_scan_get_char_def skip3 skip5 s4_def empty_rtpmap_def Let_def)
qed

section \<open>Codec names\<close>

definition name_key :: "pj_str_t \<Rightarrow> nat list" where
  "name_key s = map (\<lambda>c. unat (pj_tolower c)) s"

lemma stricmp_Nil [simp]: "pj_stricmp [] t = (if t = [] then 0 else -1)" "pj_stricmp s [] = (if s = [] then 0 else 1)"
  by (simp_all add: pj_stricmp_def)

lemma stricmp_Cons:
  assumes "a \<noteq> 0" and "b \<noteq> 0"
  shows "sgn (pj_stricmp (a # s) (b # t)) =
    (if pj_tolower a \<noteq> pj_tolower b then sgn (int (unat (pj_tolower a)) - int (unat (pj_tolower b)))
     else sgn (pj_stricmp s t))"
  using assms by (cases s; cases t) (auto simp: pj_stricmp_def Let_def word_uint_eq_iff)

lemma stricmp_key:
  "0 \<notin> set s \<Longrightarrow> 0 \<notin> set t \<Longrightarrow>
   sgn (pj_stricmp s t) = (if name_key s < name_key t then -1 else if name_key s = name_key t then 0 else 1)"
proof (induction s arbitrary: t)
  case Nil
  then show ?case by (cases t) (simp_all add: name_key_def)
next
  case (Cons a s)
  show ?case
  proof (cases t)
    case (Cons b t')
    define x y where "x = unat (pj_tolower a)" and "y = unat (pj_tolower b)"
    have k: "name_key (a # s) = x # name_key s" "name_key t = y # name_key t'"
      by (simp_all add: name_key_def x_def y_def Cons)
    have e: "pj_tolower a = pj_tolower b \<longleftrightarrow> x = y" by (simp add: x_def y_def word_unat_eq_iff)
    have s: "sgn (pj_stricmp (a # s) t) = (if x \<noteq> y then sgn (int x - int y) else sgn (pj_stricmp s t'))"
      using stricmp_Cons[of a b s t'] Cons.prems Cons e by (auto simp: x_def y_def)
    have "sgn (pj_stricmp s t') = (if name_key s < name_key t' then -1 else if name_key s = name_key t' then 0 else 1)"
      using Cons.IH[of t'] Cons.prems Cons by simp
    then show ?thesis unfolding s k by (cases x y rule: linorder_cases) simp_all
  qed (simp add: name_key_def)
qed

lemma stricmp_less: "0 \<notin> set s \<Longrightarrow> 0 \<notin> set t \<Longrightarrow> pj_stricmp s t < 0 \<longleftrightarrow> name_key s < name_key t"
  using stricmp_key[of s t] by (auto simp: sgn_if split: if_splits)

lemma stricmp_zero: "0 \<notin> set s \<Longrightarrow> 0 \<notin> set t \<Longrightarrow> pj_stricmp s t = 0 \<longleftrightarrow> name_key s = name_key t"
  using stricmp_key[of s t] by (auto simp: sgn_if split: if_splits)

text \<open>The names that the codec managers keep: sorted without regard to case, without zeros.\<close>

definition codecs_ok :: "pj_str_t list \<Rightarrow> bool" where
  "codecs_ok cs \<longleftrightarrow> (\<forall>c\<in>set cs. 0 \<notin> set c) \<and> sorted_wrt (\<lambda>c d. pj_stricmp c d < 0) cs"

lemma codecs_key: "codecs_ok cs \<Longrightarrow> i < j \<Longrightarrow> j < length cs \<Longrightarrow> name_key (cs ! i) < name_key (cs ! j)"
proof -
  assume a: "codecs_ok cs" "i < j" "j < length cs"
  then have "pj_stricmp (cs ! i) (cs ! j) < 0" by (auto simp: codecs_ok_def sorted_wrt_iff_nth_less)
  moreover have "0 \<notin> set (cs ! i)" "0 \<notin> set (cs ! j)" using a by (simp_all add: codecs_ok_def)
  ultimately show ?thesis by (simp add: stricmp_less)
qed

lemma find_codec_loop_spec:
  assumes "codecs_ok cs" and "0 \<notin> set c" and "0 \<le> start" and "stop < int (length cs)"
    and "\<And>i. i < length cs \<Longrightarrow> name_key (cs ! i) = name_key c \<Longrightarrow> start \<le> int i \<and> int i \<le> stop"
  shows "find_codec_loop cs c start stop =
    (case find_index (\<lambda>d. name_key d = name_key c) cs of None \<Rightarrow> -1 | Some i \<Rightarrow> int i)"
  using assms
proof (induction cs c start stop rule: find_codec_loop.induct)
  case (1 cs c start stop)
  show ?case
  proof (cases "start \<le> stop")
    case True
    define mid where "mid = start + cdiv (stop - start) 2"
    have mid: "start \<le> mid" "mid \<le> stop" "nat mid < length cs" using True "1.prems" by (auto simp: mid_def)
    have nz: "0 \<notin> set (cs ! nat mid)" using "1.prems"(1) mid by (simp add: codecs_ok_def)
    note less = stricmp_less[OF nz "1.prems"(2)] and zero = stricmp_zero[OF nz "1.prems"(2)]
    have below: "name_key (cs ! i) < name_key c" if "int i \<le> mid" "pj_stricmp (cs ! nat mid) c < 0" for i
    proof (cases "int i = mid")
      case False
      then have "i < nat mid" using that by linarith
      then show ?thesis using codecs_key[OF "1.prems"(1), of i "nat mid"] that less mid by (meson order.strict_trans)
    qed (use that less in auto)
    have above: "name_key c < name_key (cs ! i)"
      if "mid \<le> int i" "i < length cs" "\<not> pj_stricmp (cs ! nat mid) c < 0" "pj_stricmp (cs ! nat mid) c \<noteq> 0" for i
    proof -
      have "name_key c < name_key (cs ! nat mid)" using that less zero by (metis linorder_neqE)
      moreover have "name_key (cs ! nat mid) \<le> name_key (cs ! i)"
        using codecs_key[OF "1.prems"(1), of "nat mid" i] that by (cases "nat mid = i") (auto intro: order.strict_implies_order)
      ultimately show ?thesis by (rule order.strict_trans2)
    qed
    have step: "find_codec_loop cs c start stop =
      (if pj_stricmp (cs ! nat mid) c = 0 then mid
       else if pj_stricmp (cs ! nat mid) c < 0 then find_codec_loop cs c (mid + 1) stop
       else find_codec_loop cs c start (mid - 1))"
      using True by (subst find_codec_loop.simps) (simp only: mid_def Let_def if_True)
    have "0 \<le> mid" using mid "1.prems"(3) by linarith
    consider "pj_stricmp (cs ! nat mid) c = 0" | "pj_stricmp (cs ! nat mid) c < 0"
      | "\<not> pj_stricmp (cs ! nat mid) c < 0" "pj_stricmp (cs ! nat mid) c \<noteq> 0" by blast
    then show ?thesis
    proof cases
      case 1
      have "find_index (\<lambda>d. name_key d = name_key c) cs = Some (nat mid)"
        using codecs_key[OF "1.prems"(1), of _ "nat mid"] mid 1 zero by (intro find_index_eqI) fastforce+
      then show ?thesis using 1 step \<open>0 \<le> mid\<close> by simp
    next
      case 2
      have "find_codec_loop cs c (mid + 1) stop = (case find_index (\<lambda>d. name_key d = name_key c) cs of None \<Rightarrow> -1 | Some i \<Rightarrow> int i)"
      proof (rule "1.IH"(1)[OF True mid_def refl])
        show "mid + 1 \<le> int i \<and> int i \<le> stop" if "i < length cs" "name_key (cs ! i) = name_key c" for i
          using "1.prems"(5)[OF that] below[of i] that 2 by (cases "int i \<le> mid") auto
      qed (use "1.prems" 2 mid in auto)
      then show ?thesis using 2 step by simp
    next
      case 3
      have "find_codec_loop cs c start (mid - 1) = (case find_index (\<lambda>d. name_key d = name_key c) cs of None \<Rightarrow> -1 | Some i \<Rightarrow> int i)"
      proof (rule "1.IH"(2)[OF True mid_def refl])
        show "start \<le> int i \<and> int i \<le> mid - 1" if "i < length cs" "name_key (cs ! i) = name_key c" for i
          using "1.prems"(5)[OF that] above[of i] that 3 by (cases "mid \<le> int i") auto
      qed (use "1.prems" 3 mid in auto)
      then show ?thesis using 3 step by simp
    qed
  next
    case False
    then have "find_index (\<lambda>d. name_key d = name_key c) cs = None"
      using "1.prems"(5) by (auto simp: in_set_conv_nth) (metis order.trans)
    then show ?thesis using False by (subst find_codec_loop.simps) (simp del: find_index_None)
  qed
qed

lemma stricmp_eq_key:
  "0 \<notin> set s \<Longrightarrow> 0 \<notin> set t \<Longrightarrow> pj_stricmp_eq s t \<longleftrightarrow> name_key s = name_key t"
proof -
  assume nz: "0 \<notin> set s" "0 \<notin> set t"
  have "name_key s = name_key t \<longleftrightarrow> map pj_tolower s = map pj_tolower t"
  proof -
    have "name_key u = map unat (map pj_tolower u)" for u by (simp add: name_key_def)
    moreover have "inj (unat :: byte \<Rightarrow> nat)" by (rule injI) (simp add: word_unat_eq_iff)
    ultimately show ?thesis by (simp only: inj_map_eq_map)
  qed
  moreover have "pj_stricmp_eq s t \<longleftrightarrow> map pj_tolower s = map pj_tolower t"
  proof (cases "length s = length t")
    case True
    then show ?thesis using strnicmp_norm[of s t] nz in_set_butlastD[of 0 s]
      by (cases "s = []") (auto simp: pj_stricmp_eq_def)
  next
    case False
    then show ?thesis by (auto simp: pj_stricmp_eq_def dest: map_eq_imp_length_eq)
  qed
  ultimately show ?thesis by simp
qed

text \<open>C29: over names in order, the binary search gives what a search from the start gives: the index of the codec
  whose name is the same but for case, or \<open>-1\<close> when there is none.\<close>

theorem sdp_codec_search:
  assumes "codecs_ok cs" and "0 \<notin> set c"
  shows "pjmedia_codec_mgr_find_codec cs c =
    (case find_index (\<lambda>d. pj_stricmp_eq d c) cs of None \<Rightarrow> -1 | Some i \<Rightarrow> int i)"
proof -
  have "find_index (\<lambda>d. pj_stricmp_eq d c) cs = find_index (\<lambda>d. name_key d = name_key c) cs"
    using assms stricmp_eq_key by (intro find_index_cong) (auto simp: codecs_ok_def)
  then show ?thesis
    unfolding pjmedia_codec_mgr_find_codec_def using assms by (subst find_codec_loop_spec) auto
qed

section \<open>Directions\<close>

lemma has_attr_iff:
  "has_attr m n \<longleftrightarrow> length (m_attr m) \<le> PJMEDIA_MAX_SDP_ATTR \<and> (\<exists>a\<in>set (m_attr m). attr_name a = n)"
  by (simp add: has_attr_def pjmedia_sdp_media_find_attr_def pjmedia_sdp_attr_find_def attr_matches_def del: not_None_eq)

lemma ascii_directions:
  "ascii ''inactive'' \<noteq> ascii ''sendonly''" "ascii ''inactive'' \<noteq> ascii ''recvonly''" "ascii ''sendonly'' \<noteq> ascii ''recvonly''"
  "ascii ''sendrecv'' \<noteq> ascii ''sendonly''" "ascii ''sendrecv'' \<noteq> ascii ''recvonly''" "ascii ''sendrecv'' \<noteq> ascii ''inactive''"
  "ascii ''rtpmap'' \<noteq> ascii ''fmtp''"
  "ascii ''rtpmap'' \<noteq> ascii ''inactive''" "ascii ''rtpmap'' \<noteq> ascii ''sendonly''" "ascii ''rtpmap'' \<noteq> ascii ''recvonly''"
  "ascii ''rtpmap'' \<noteq> ascii ''sendrecv''"
  by (simp_all add: ascii_def)

lemma remove_all_attr:
  assumes "length (m_attr m) \<le> PJMEDIA_MAX_SDP_ATTR"
  shows "m_attr (pjmedia_sdp_media_remove_all_attr m n) = filter (\<lambda>a. attr_name a \<noteq> n) (m_attr m)"
    and "length (m_attr (pjmedia_sdp_media_remove_all_attr m n)) \<le> PJMEDIA_MAX_SDP_ATTR"
  using assms order.trans[OF length_filter_le assms]
  by (simp_all add: pjmedia_sdp_media_remove_all_attr_def pjmedia_sdp_attr_remove_all_def)

lemma remove_directions:
  assumes "length (m_attr m) \<le> PJMEDIA_MAX_SDP_ATTR"
  shows "m_attr (remove_all_media_directions m) = filter (\<lambda>a. \<not> is_direction (attr_name a)) (m_attr m)"
proof -
  note step = remove_all_attr(1) and bound = remove_all_attr(2)
  show ?thesis
    unfolding remove_all_media_directions_def foldl.simps
    by (simp only: step[OF assms] step[OF bound[OF assms]] step[OF bound[OF bound[OF assms]]]
        step[OF bound[OF bound[OF bound[OF assms]]]] filter_filter) (auto simp: is_direction_def intro!: filter_cong)
qed

text \<open>What a direction lets the media do.\<close>

definition dir_sends :: "pjmedia_dir \<Rightarrow> bool" where
  "dir_sends d \<longleftrightarrow> d = PJMEDIA_DIR_ENCODING \<or> d = PJMEDIA_DIR_ENCODING_DECODING"

definition dir_receives :: "pjmedia_dir \<Rightarrow> bool" where
  "dir_receives d \<longleftrightarrow> d = PJMEDIA_DIR_DECODING \<or> d = PJMEDIA_DIR_ENCODING_DECODING"

text \<open>A media line has at most one of the attributes, as RFC 3264 requires.\<close>

definition one_direction :: "pjmedia_sdp_media \<Rightarrow> bool" where
  "one_direction m \<longleftrightarrow> \<not> (has_attr m (ascii ''inactive'') \<and> (has_attr m (ascii ''sendonly'') \<or> has_attr m (ascii ''recvonly''))) \<and>
     \<not> (has_attr m (ascii ''sendonly'') \<and> has_attr m (ascii ''recvonly''))"

lemma adjusted_dir_meets:
  assumes "one_direction remote"
  shows "dir_sends (adjusted_dir remote d) \<longleftrightarrow> dir_sends d \<and> dir_receives (local_dir remote)"
    and "dir_receives (adjusted_dir remote d) \<longleftrightarrow> dir_receives d \<and> dir_sends (local_dir remote)"
  using assms by (cases d; auto simp: adjusted_dir_def local_dir_def one_direction_def dir_sends_def dir_receives_def)+

lemma local_dir_added:
  assumes "length (m_attr m) < PJMEDIA_MAX_SDP_ATTR" and "adjusted_dir remote (local_dir m) \<noteq> local_dir m"
  shows "local_dir (update_media_direction remote m) = adjusted_dir remote (local_dir m)"
proof -
  define m1 where "m1 = remove_all_media_directions m"
  have m1: "m_attr m1 = filter (\<lambda>a. \<not> is_direction (attr_name a)) (m_attr m)"
    unfolding m1_def using assms(1) by (intro remove_directions) simp
  have l: "length (m_attr m1) < PJMEDIA_MAX_SDP_ATTR"
    using assms(1) length_filter_le[of _ "m_attr m"] unfolding m1 by (metis order.strict_trans1)
  have none: "\<not> has_attr m1 n" if "is_direction n" for n using that by (auto simp: has_attr_iff m1)
  have some: "has_attr (snd (pjmedia_sdp_media_add_attr m1 (pjmedia_sdp_attr_create n None))) n' \<longleftrightarrow> n' = n \<or> has_attr m1 n'" for n n'
    using l by (auto simp: has_attr_iff pjmedia_sdp_media_add_attr_def pjmedia_sdp_attr_add_def pjmedia_sdp_attr_create_def)
  show ?thesis
    using assms(2) none
    by (cases "adjusted_dir remote (local_dir m)")
       (simp_all add: update_media_direction_def Let_def some local_dir_def[of m1] local_dir_def[of "snd _"]
         is_direction_def ascii_directions ascii_directions[symmetric] flip: m1_def)
qed

text \<open>C28: after its direction is updated against the other side's, a media sends exactly when it did and the other side
  receives, and receives exactly when it did and the other side sends.\<close>

theorem sdp_direction_meets:
  assumes "length (m_attr m) < PJMEDIA_MAX_SDP_ATTR" and "one_direction remote"
  shows "(dir_sends (local_dir (update_media_direction remote m)) \<longleftrightarrow> dir_sends (local_dir m) \<and> dir_receives (local_dir remote)) \<and>
    (dir_receives (local_dir (update_media_direction remote m)) \<longleftrightarrow> dir_receives (local_dir m) \<and> dir_sends (local_dir remote))"
proof (cases "adjusted_dir remote (local_dir m) = local_dir m")
  case True
  then have "update_media_direction remote m = m" by (simp add: update_media_direction_def)
  then show ?thesis using adjusted_dir_meets[OF assms(2), of "local_dir m"] True by simp
next
  case False
  then show ?thesis using adjusted_dir_meets[OF assms(2), of "local_dir m"] local_dir_added[OF assms(1) False] by simp
qed

section \<open>Processing an answer\<close>

text \<open>An attribute that describes a format of a media.\<close>

definition describes :: "pjmedia_sdp_attr \<Rightarrow> pj_str_t \<Rightarrow> bool" where
  "describes a fmt \<longleftrightarrow> (case pj_strtoul3 fmt of Inl _ \<Rightarrow> False | Inr n \<Rightarrow> attr_matches (ascii ''rtpmap'') (Some n) a)"

text \<open>
  A format of the offer and one of the answer are the same codec: the same static number, or \<^verbatim>\<open>rtpmap\<close>s that agree
  in name, clock rate and parameter (an answer with one channel is taken for any number of channels).
\<close>

definition same_codec :: "pjmedia_sdp_rtpmap \<Rightarrow> pjmedia_sdp_rtpmap \<Rightarrow> bool" where
  "same_codec r s \<longleftrightarrow> pj_stricmp_eq (rm_enc_name r) (rm_enc_name s) \<and> rm_clock_rate r = rm_clock_rate s \<and>
     (pj_stricmp_eq (rm_param r) (rm_param s) \<or> rm_param s = ascii ''1'')"

definition fmt_agrees :: "pjmedia_sdp_media \<Rightarrow> pjmedia_sdp_media \<Rightarrow> pj_str_t \<Rightarrow> pj_str_t \<Rightarrow> bool" where
  "fmt_agrees offer answer f g \<longleftrightarrow>
     (if pj_strtoul f < 96 then f = g
      else \<exists>a\<in>set (m_attr offer). \<exists>b\<in>set (m_attr answer). describes a f \<and> describes b g \<and>
             same_codec (snd (pjmedia_sdp_attr_get_rtpmap a)) (snd (pjmedia_sdp_attr_get_rtpmap b)))"

lemma find_attr_describes:
  "pjmedia_sdp_media_find_attr m (ascii ''rtpmap'') (Some f) = Some a \<Longrightarrow> a \<in> set (m_attr m) \<and> describes a f"
  by (auto simp: pjmedia_sdp_media_find_attr_def pjmedia_sdp_attr_find_def describes_def split: if_splits sum.splits
      dest!: find_index_Some)

lemma find_answer_fmt_agrees:
  assumes "find_answer_fmt env offer answer i = Inr (Some j)"
  shows "j < length (m_fmt answer) \<and> fmt_agrees offer answer (m_fmt offer ! i) (m_fmt answer ! j)"
proof (cases "pj_strtoul (m_fmt offer ! i) < 96")
  case True
  then show ?thesis using assms by (auto simp: find_answer_fmt_def Let_def fmt_agrees_def dest!: find_index_Some)
next
  case False
  then obtain a where a: "pjmedia_sdp_media_find_attr offer (ascii ''rtpmap'') (Some (m_fmt offer ! i)) = Some a"
    and j: "find_index (answer_fmt_matches env (snd (pjmedia_sdp_attr_get_rtpmap a)) offer i answer) [0..<length (m_fmt answer)] = Some j"
    using assms by (auto simp: find_answer_fmt_def Let_def split: option.splits)
  from find_index_upt[OF j] have l: "j < length (m_fmt answer)"
    and m: "answer_fmt_matches env (snd (pjmedia_sdp_attr_get_rtpmap a)) offer i answer j" by auto
  from m obtain b where b: "pjmedia_sdp_media_find_attr answer (ascii ''rtpmap'') (Some (m_fmt answer ! j)) = Some b"
    and s: "same_codec (snd (pjmedia_sdp_attr_get_rtpmap a)) (snd (pjmedia_sdp_attr_get_rtpmap b))"
    by (auto simp: answer_fmt_matches_def same_codec_def Let_def split: option.splits)
  show ?thesis using False l find_attr_describes[OF a] find_attr_describes[OF b] s by (auto simp: fmt_agrees_def)
qed

lemma remove_found_attrs: "set (m_attr (remove_found m n f)) \<subseteq> set (m_attr m)"
  by (auto simp: remove_found_def pjmedia_sdp_attr_remove_def split: option.splits if_splits dest: in_set_takeD in_set_dropD)

lemma remove_found_frame [simp]:
  "m_media (remove_found m n f) = m_media m" "m_port (remove_found m n f) = m_port m"
  by (simp_all add: remove_found_def split: option.splits)

lemma remove_fmt_frame:
  "m_media (remove_fmt m i) = m_media m" "m_port (remove_fmt m i) = m_port m" "set (m_attr (remove_fmt m i)) \<subseteq> set (m_attr m)"
  using order.trans[OF remove_found_attrs remove_found_attrs] by (simp_all add: remove_fmt_def Let_def)

lemma fmt_agrees_mono:
  "fmt_agrees offer answer f g \<Longrightarrow> set (m_attr offer) \<subseteq> set (m_attr offer') \<Longrightarrow> fmt_agrees offer' answer f g"
  by (auto simp: fmt_agrees_def split: if_splits)

text \<open>What the loop over the formats of the offer keeps.\<close>

lemma match_formats_spec:
  assumes "match_formats env offer answer i prior = Inr (offer', prior')"
    and "length prior = i" and "i \<le> length (m_fmt offer)" and "set (m_attr offer) \<subseteq> set (m_attr base)"
    and "\<forall>k<i. prior ! k < length (m_fmt answer) \<and> fmt_agrees base answer (m_fmt offer ! k) (m_fmt answer ! (prior ! k))"
  shows "length prior' = length (m_fmt offer') \<and> subseq (m_fmt offer') (m_fmt offer) \<and> m_media offer' = m_media offer \<and>
    m_port offer' = m_port offer \<and>
    (\<forall>k<length (m_fmt offer'). prior' ! k < length (m_fmt answer) \<and>
       fmt_agrees base answer (m_fmt offer' ! k) (m_fmt answer ! (prior' ! k)))"
  using assms
proof (induction env offer answer i prior rule: match_formats.induct)
  case (1 env offer answer i prior)
  show ?case
  proof (cases "i < length (m_fmt offer)")
    case False
    then show ?thesis using "1.prems" by (subst (asm) match_formats.simps) auto
  next
    case True
    show ?thesis
    proof (cases "find_answer_fmt env offer answer i")
      case (Inl e)
      then show ?thesis using "1.prems"(1) True by (subst (asm) match_formats.simps) simp
    next
      case (Inr r)
      show ?thesis
      proof (cases r)
        case None
        let ?o = "remove_fmt offer i"
        have rec: "match_formats env ?o answer i prior = Inr (offer', prior')"
          using "1.prems"(1) True Inr None by (subst (asm) match_formats.simps) simp
        have "\<forall>k<i. m_fmt ?o ! k = m_fmt offer ! k" using True by (simp add: remove_fmt_fmts nth_append)
        moreover have "subseq (m_fmt ?o) (m_fmt offer)"
          using id_take_nth_drop[OF True] subseq_append_iff
          by (metis append.left_neutral append_Cons list_emb_append_mono remove_fmt_fmts subseq_Cons' subseq_order.order_refl)
        moreover have "i \<le> length (m_fmt ?o)" using True by (simp add: remove_fmt_fmts)
        ultimately show ?thesis
          using "1.IH"(1)[OF True Inr None rec "1.prems"(2)] "1.prems"(4,5) remove_fmt_frame[of offer i]
            subseq_order.trans[of "m_fmt offer'" "m_fmt ?o" "m_fmt offer"] by simp
      next
        case (Some j)
        have rec: "match_formats env offer answer (i + 1) (prior @ [j]) = Inr (offer', prior')"
          using "1.prems"(1) True Inr Some by (subst (asm) match_formats.simps) simp
        have "j < length (m_fmt answer) \<and> fmt_agrees base answer (m_fmt offer ! i) (m_fmt answer ! j)"
          using find_answer_fmt_agrees[of env offer answer i j] Inr Some fmt_agrees_mono[OF _ "1.prems"(4)] by auto
        then have "\<forall>k<i + 1. (prior @ [j]) ! k < length (m_fmt answer) \<and>
            fmt_agrees base answer (m_fmt offer ! k) (m_fmt answer ! ((prior @ [j]) ! k))"
          using "1.prems"(2,5) by (auto simp: nth_append less_Suc_eq)
        then show ?thesis using "1.IH"(2)[OF True Inr Some rec] "1.prems"(2,4) True by auto
      qed
    qed
  qed
qed

lemma exchange_min_spec:
  "exchange_min x ys = (m, zs) \<Longrightarrow> mset (m # zs) = mset (x # ys) \<and> (\<forall>z\<in>set (m # zs). fst m \<le> fst z)"
proof (induction x ys arbitrary: m zs rule: exchange_min.induct)
  case (2 x y ys)
  show ?case
  proof (cases "fst x > fst y")
    case True
    obtain zs' where e: "exchange_min y ys = (m, zs')" "zs = x # zs'" using 2(3) True by (auto split: prod.splits)
    have h: "mset (m # zs') = mset (y # ys) \<and> (\<forall>z\<in>set (m # zs'). fst m \<le> fst z)" using "2.IH"(1)[OF True e(1)] .
    then have "y \<in> set (m # zs')" by (metis list.set_intros(1) set_mset_mset)
    then have "fst m \<le> fst x" using h True by fastforce
    then show ?thesis using h e(2) by (auto simp: add_mset_commute)
  next
    case False
    obtain zs' where e: "exchange_min x ys = (m, zs')" "zs = y # zs'" using 2(3) False by (auto split: prod.splits)
    have h: "mset (m # zs') = mset (x # ys) \<and> (\<forall>z\<in>set (m # zs'). fst m \<le> fst z)" using "2.IH"(2)[OF False e(1)] .
    then have "x \<in> set (m # zs')" by (metis list.set_intros(1) set_mset_mset)
    then have "fst m \<le> fst y" using h False by fastforce
    then show ?thesis using h e(2) by (auto simp: add_mset_commute)
  qed
qed simp

lemma exchange_sort_spec: "mset (exchange_sort xs) = mset xs \<and> sorted (map fst (exchange_sort xs))"
proof (induction xs rule: exchange_sort.induct)
  case (2 x xs)
  obtain m zs where e: "exchange_min x xs = (m, zs)" by (rule prod.exhaust)
  have IH: "mset (exchange_sort zs) = mset zs" "sorted (map fst (exchange_sort zs))" using "2.IH"[OF e[symmetric] refl] by simp_all
  then have "set (exchange_sort zs) = set zs" by (metis set_mset_mset)
  then show ?case using exchange_min_spec[OF e] IH e by auto
qed simp

lemma trim_answer_fmts:
  assumes "i \<le> length p" and "i \<le> length (m_fmt answer)" and "sorted_wrt (<) p"
    and "\<forall>k<length p. i \<le> k \<longrightarrow> p ! k < length (m_fmt answer) + del" and "i < length p \<longrightarrow> i + del \<le> p ! i"
    and "length (m_fmt answer) + del < 4294967296"
  shows "m_fmt (trim_answer p answer i del) = take i (m_fmt answer) @ map (\<lambda>j. m_fmt answer ! (j - del)) (drop i p)"
  using assms
proof (induction p answer i del rule: trim_answer.induct)
  case (1 p answer i del)
  show ?case
  proof (cases "i < length (m_fmt answer)")
    case False
    have "\<not> i < length p"
    proof
      assume l: "i < length p"
      then have "p ! i < length (m_fmt answer) + del" "i + del \<le> p ! i" using "1.prems"(4,5) by auto
      then show False using False by linarith
    qed
    then have "i = length p" using "1.prems"(1) by simp
    then show ?thesis using False "1.prems"(2) by (subst trim_answer.simps) simp
  next
    case True
    have u: "u32 (int (p ! i) - int del) = p ! i - del" if "i < length p"
    proof -
      have "del \<le> p ! i" "p ! i < 4294967296" using that "1.prems"(4,5,6) by fastforce+
      then show ?thesis by (simp flip: of_nat_diff)
    qed
    show ?thesis
    proof (cases "i \<ge> length p \<or> p ! i - del \<noteq> i")
      case rm: True
      let ?a = "remove_fmt answer i"
      have step: "trim_answer p answer i del = trim_answer p ?a i (del + 1)"
        using True rm u by (subst trim_answer.simps) auto
      have f: "m_fmt ?a = take i (m_fmt answer) @ drop (Suc i) (m_fmt answer)" by (rule remove_fmt_fmts)
      have len: "length (m_fmt ?a) + (del + 1) = length (m_fmt answer) + del" using True by (simp add: f)
      have ge: "i + (del + 1) \<le> p ! i" if "i < length p" using rm that "1.prems"(5) by auto
      have "m_fmt (trim_answer p ?a i (del + 1)) = take i (m_fmt ?a) @ map (\<lambda>j. m_fmt ?a ! (j - (del + 1))) (drop i p)"
        using "1.prems" len ge True u rm by (intro "1.IH"(1)) (auto simp: f)
      moreover have "m_fmt ?a ! (j - (del + 1)) = m_fmt answer ! (j - del)" if j: "j \<in> set (drop i p)" for j
      proof -
        obtain n where "n < length (drop i p)" "drop i p ! n = j" using j unfolding in_set_conv_nth by blast
        then have n: "n < length p - i" "j = p ! (i + n)" using "1.prems"(1) by simp_all
        define k where "k = i + n"
        have k: "k < length p" "i \<le> k" "j = p ! k" using n by (simp_all add: k_def)
        have "p ! i \<le> p ! k"
          using "1.prems"(3) k sorted_wrt_nth_less[of "(<)" p i k] by (cases "i = k") auto
        then have "i + (del + 1) \<le> j" "j < length (m_fmt answer) + del" using ge k "1.prems"(4) by auto
        then show ?thesis using True by (simp add: f nth_append Suc_diff_Suc)
      qed
      ultimately show ?thesis using step True by (simp add: f)
    next
      case False
      then have e: "i < length p" "p ! i - del = i" by auto
      then have pi: "p ! i = i + del" using "1.prems"(5) by auto
      have step: "trim_answer p answer i del = trim_answer p answer (i + 1) del"
        using True e u by (subst trim_answer.simps) auto
      have "i + 1 + del \<le> p ! (i + 1)" if "i + 1 < length p"
        using "1.prems"(3) that pi sorted_wrt_nth_less[of "(<)" p i "i + 1"] by simp
      then have "m_fmt (trim_answer p answer (i + 1) del) =
          take (i + 1) (m_fmt answer) @ map (\<lambda>j. m_fmt answer ! (j - del)) (drop (i + 1) p)"
        using "1.prems" True e u by (intro "1.IH"(2)) auto
      then show ?thesis using step True e pi by (simp add: take_Suc_conv_app_nth Cons_nth_drop_Suc[symmetric])
    qed
  qed
qed

lemma match_formats_error: "match_formats env offer answer i prior = Inl s \<Longrightarrow> s = PJ_EBUG"
proof (induction env offer answer i prior rule: match_formats.induct)
  case (1 env offer answer i prior)
  have lt: "i < length (m_fmt offer)" using "1.prems" by (subst (asm) match_formats.simps) (auto split: if_splits)
  show ?case
  proof (cases "find_answer_fmt env offer answer i")
    case (Inl e)
    then have "e = PJ_EBUG" by (auto simp: find_answer_fmt_def Let_def split: if_splits option.splits)
    then show ?thesis using "1.prems" lt Inl by (subst (asm) match_formats.simps) simp
  next
    case (Inr r)
    show ?thesis
    proof (cases r)
      case None
      show ?thesis using "1.prems" lt Inr None by (intro "1.IH"(1)[OF lt Inr None]) (subst (asm) match_formats.simps, simp)
    next
      case (Some j)
      show ?thesis using "1.prems" lt Inr Some by (intro "1.IH"(2)[OF lt Inr Some]) (subst (asm) match_formats.simps, simp)
    qed
  qed
qed

lemma subseq_mset: "subseq xs ys \<Longrightarrow> mset xs \<subseteq># mset ys"
proof (induction rule: list_emb.induct)
  case (list_emb_Cons xs ys y)
  have "mset ys \<subseteq># mset (y # ys)" by simp
  then show ?case using list_emb_Cons.IH by (rule subset_mset.order_trans[rotated])
qed auto

lemma subseq_nth_sorted:
  "sorted_wrt (<) p \<Longrightarrow> \<forall>j\<in>set p. n \<le> j \<and> j < length xs \<Longrightarrow> subseq (map (\<lambda>j. xs ! j) p) (drop n xs)"
proof (induction p arbitrary: n)
  case (Cons j p)
  have "subseq (map (\<lambda>j. xs ! j) p) (drop (Suc j) xs)" using Cons by (intro Cons.IH) auto
  then have "subseq (xs ! j # map (\<lambda>j. xs ! j) p) (drop j xs)" using Cons.prems by (simp add: Cons_nth_drop_Suc[symmetric])
  moreover have "drop n xs = take (j - n) (drop n xs) @ drop j xs"
    using Cons.prems by (metis append_take_drop_id drop_drop le_add_diff_inverse2 list.set_intros(1))
  ultimately show ?case by (metis list.simps(9) list_emb_append2)
qed simp

text \<open>No format of the answer can be taken for two of the offer.\<close>

definition unambiguous :: "pjmedia_sdp_media \<Rightarrow> pjmedia_sdp_media \<Rightarrow> bool" where
  "unambiguous offer answer \<longleftrightarrow>
     (\<forall>g\<in>set (m_fmt answer). length (filter (\<lambda>f. fmt_agrees offer answer f g) (m_fmt offer)) \<le> 1)"

lemma unambiguous_subseq:
  assumes "unambiguous offer answer" and "subseq fs (m_fmt offer)" and "g \<in> set (m_fmt answer)"
    and "i < k" and "k < length fs" and "fmt_agrees offer answer (fs ! i) g" and "fmt_agrees offer answer (fs ! k) g"
  shows False
proof -
  let ?P = "\<lambda>f. fmt_agrees offer answer f g"
  have "fs = take (Suc i) fs @ drop (Suc i) fs" by simp
  then have "length (filter ?P fs) = length (filter ?P (take (Suc i) fs)) + length (filter ?P (drop (Suc i) fs))"
    by (metis filter_append length_append)
  moreover have "fs ! i \<in> set (take (Suc i) fs)" using assms(4,5) by (simp add: take_Suc_conv_app_nth)
  moreover have "fs ! k \<in> set (drop (Suc i) fs)"
    using assms(4,5) by (auto simp: in_set_conv_nth intro!: exI[of _ "k - Suc i"])
  ultimately have "2 \<le> length (filter ?P fs)" using assms(6,7)
    by (metis (no_types, lifting) One_nat_def Suc_leI add_mono filter_empty_conv length_greater_0_conv numeral_2_eq_2 plus_1_eq_Suc)
  also have "\<dots> \<le> length (filter ?P (m_fmt offer))"
    using assms(2) by (intro list_emb_length) (rule subseq_filter)
  finally show False using assms(1,3) by (auto simp: unambiguous_def)
qed

lemma update_direction_frame:
  "m_media (update_media_direction r m) = m_media m" "m_port (update_media_direction r m) = m_port m"
  "m_fmt (update_media_direction r m) = m_fmt m"
  by (auto simp: update_media_direction_def remove_all_media_directions_def pjmedia_sdp_media_remove_all_attr_def
      pjmedia_sdp_media_add_attr_def Let_def split: option.splits prod.splits)

lemma remove_all_subset: "set (m_attr (pjmedia_sdp_media_remove_all_attr m n)) \<subseteq> set (m_attr m)"
  by (auto simp: pjmedia_sdp_media_remove_all_attr_def pjmedia_sdp_attr_remove_all_def)

lemma remove_directions_subset: "set (m_attr (remove_all_media_directions m)) \<subseteq> set (m_attr m)"
  unfolding remove_all_media_directions_def foldl.simps by (intro order.trans[OF remove_all_subset] order.refl)

lemma add_attr_attrs: "a \<in> set (m_attr (snd (pjmedia_sdp_media_add_attr m b))) \<Longrightarrow> a \<in> set (m_attr m) \<or> a = b"
  by (auto simp: pjmedia_sdp_media_add_attr_def pjmedia_sdp_attr_add_def split: if_splits)

lemma update_direction_attrs:
  assumes "a \<in> set (m_attr (update_media_direction r m))" and "attr_name a = ascii ''rtpmap''"
  shows "a \<in> set (m_attr m)"
proof -
  have n: "a \<noteq> pjmedia_sdp_attr_create (ascii d) None" if "d \<in> {''inactive'', ''sendonly'', ''recvonly''}" for d
    using assms(2) that ascii_directions by (auto simp: pjmedia_sdp_attr_create_def)
  show ?thesis
  proof (cases "adjusted_dir r (local_dir m) = local_dir m")
    case False
    then have "a \<in> set (m_attr (remove_all_media_directions m))"
      using assms(1) n by (cases "adjusted_dir r (local_dir m)") (auto simp: update_media_direction_def dest!: add_attr_attrs)
    then show ?thesis using remove_directions_subset by blast
  qed (use assms(1) in \<open>simp add: update_media_direction_def\<close>)
qed

lemma describes_name: "describes a f \<Longrightarrow> attr_name a = ascii ''rtpmap''"
  by (auto simp: describes_def attr_matches_def split: sum.splits)

lemma fmt_agrees_direction: "fmt_agrees (update_media_direction r offer) answer f g \<Longrightarrow> fmt_agrees offer answer f g"
  using update_direction_attrs describes_name by (auto simp: fmt_agrees_def split: if_splits)


lemma match_formats_frame:
  "match_formats env offer answer i prior = Inr (offer', prior') \<Longrightarrow> i = 0 \<Longrightarrow> prior = [] \<Longrightarrow>
   m_media offer' = m_media offer \<and> m_port offer' = m_port offer"
  using match_formats_spec[of env offer answer 0 "[]" offer' prior' offer] by simp

lemma trim_answer_frame: "m_media (trim_answer p a i d) = m_media a \<and> m_port (trim_answer p a i d) = m_port a"
proof (induction p a i d rule: trim_answer.induct)
  case (1 p a i d)
  then show ?case by (subst trim_answer.simps, subst trim_answer.simps) (simp add: remove_fmt_frame)
qed

lemma process_m_answer_frame:
  assumes "process_m_answer env allow_asym om am = (status, om1, am1)"
  shows "m_media om1 = m_media om \<and> m_media am1 = m_media am \<and> (m_port om1 = 0 \<or> m_port om1 = m_port om) \<and>
    m_port am1 = m_port am \<and> (status = PJ_SUCCESS \<longrightarrow> m_port am = 0 \<longrightarrow> m_port om1 = 0)"
  using assms
  by (auto simp: process_m_answer_def Let_def pjmedia_sdp_media_deactivate_def update_direction_frame trim_answer_frame
      split: if_splits sum.splits dest!: match_formats_frame)

lemma process_media_types:
  "\<lbrakk>process_media env allow_asym sess offers answers = Inr (os, as, active);
    map m_media answers = take (length answers) (map m_media offers)\<rbrakk>
   \<Longrightarrow> map m_media os = map m_media offers \<and> map m_media as = map m_media offers \<and>
     list_all2 (\<lambda>om am. m_port om \<noteq> 0 \<longrightarrow> m_port am \<noteq> 0) os as \<and> (active \<longleftrightarrow> (\<exists>om\<in>set os. m_port om \<noteq> 0))"
proof (induction env allow_asym sess offers answers arbitrary: os as active rule: process_media.induct)
  case (2 env allow_asym sess om oms)
  then show ?case
    by (auto simp: pjmedia_sdp_media_deactivate_def sdp_media_clone_deactivate_def pjmedia_sdp_media_clone_deactivate_def Let_def
        split: sum.splits)
next
  case (3 env allow_asym sess om oms am ams)
  obtain status om1 am1 where p: "process_m_answer env allow_asym om am = (status, om1, am1)" by (rule prod_cases3)
  note fr = process_m_answer_frame[OF p]
  have ty: "m_media am = m_media om" and tys: "map m_media ams = take (length ams) (map m_media oms)" using "3.prems"(2) by auto
  have st: "status \<noteq> PJMEDIA_SDPNEG_EINVANSMEDIA"
    using p ty by (auto simp: process_m_answer_def Let_def split: if_splits sum.splits dest: match_formats_error)
  have ok: "status = PJMEDIA_SDPNEG_EANSNOMEDIA \<or> status = PJ_SUCCESS"
    using "3.prems"(1) p st by (auto split: if_splits)
  define om2 am2 where "om2 = (if status = PJMEDIA_SDPNEG_EANSNOMEDIA then pjmedia_sdp_media_deactivate om1 else om1)"
    and "am2 = (if status = PJMEDIA_SDPNEG_EANSNOMEDIA then pjmedia_sdp_media_deactivate am1 else am1)"
  obtain os' as' act where r: "process_media env allow_asym sess oms ams = Inr (os', as', act)"
    and res: "os = om2 # os'" "as = am2 # as'" "active \<longleftrightarrow> m_port om2 \<noteq> 0 \<or> act"
    using "3.prems"(1) p st ok unfolding om2_def am2_def
    by (cases "process_media env allow_asym sess oms ams") (auto split: if_splits)
  have "m_media om2 = m_media om" "m_media am2 = m_media om" "m_port om2 \<noteq> 0 \<longrightarrow> m_port am2 \<noteq> 0"
    using fr ok ty by (auto simp: om2_def am2_def pjmedia_sdp_media_deactivate_def)
  moreover have "map m_media os' = map m_media oms \<and> map m_media as' = map m_media oms \<and>
     list_all2 (\<lambda>om am. m_port om \<noteq> 0 \<longrightarrow> m_port am \<noteq> 0) os' as' \<and> (act \<longleftrightarrow> (\<exists>om\<in>set os'. m_port om \<noteq> 0))"
  proof -
    have e: "(om2, am2) = (if status = PJMEDIA_SDPNEG_EANSNOMEDIA
        then (pjmedia_sdp_media_deactivate om1, pjmedia_sdp_media_deactivate am1) else (om1, am1))"
      by (simp add: om2_def am2_def)
    have "\<not> (status \<noteq> PJMEDIA_SDPNEG_EANSNOMEDIA \<and> status \<noteq> PJ_SUCCESS)" using ok by blast
    from "3.IH"(2)[OF p[symmetric] refl st this refl e r tys] show ?thesis .
  qed
  ultimately show ?case using res by auto
qed auto

text \<open>C32: when the answer keeps the types of the offered media, the active local description and the remote one list
  the same media in the same order, one that is active here is active there, and at least one is.\<close>

theorem sdp_answer_aligned:
  assumes "process_answer env allow_asym local answer = Inr (active, remote)"
    and "map m_media (s_media answer) = take (length (s_media answer)) (map m_media (s_media local))"
  shows "map m_media (s_media active) = map m_media (s_media local) \<and> map m_media (s_media remote) = map m_media (s_media local) \<and>
    list_all2 (\<lambda>lm rm. m_port lm \<noteq> 0 \<longrightarrow> m_port rm \<noteq> 0) (s_media active) (s_media remote) \<and>
    (\<exists>lm\<in>set (s_media active). m_port lm \<noteq> 0)"
  using assms(1) process_media_types[OF _ assms(2), of env allow_asym local]
  by (auto simp: process_answer_def split: sum.splits if_splits) blast

text \<open>C40: when the answer leaves out the first media, the media that follow are matched, but stay where they
  are in the remote description: the second local media is paired, by its index, with the one after it.\<close>

theorem sdp_mismatch_misaligns:
  assumes "m_media am = m_media om2" and "m_media om1 \<noteq> m_media om2" and "s_media local = [om1, om2]" and "s_media answer = [am]"
    and "process_answer env allow_asym local answer = Inr (active, remote)"
  shows "length (s_media active) = 2 \<and> m_port (s_media active ! 0) = 0 \<and> m_port (s_media active ! 1) \<noteq> 0 \<and>
    length (s_media remote) = 1 \<and> m_media (s_media remote ! 0) = m_media (s_media active ! 1)"
proof -
  have p1: "process_m_answer env allow_asym om1 am = (PJMEDIA_SDPNEG_EINVANSMEDIA, om1, am)"
    using assms(1,2) by (simp add: process_m_answer_def)
  obtain status om am1 where p2: "process_m_answer env allow_asym om2 am = (status, om, am1)" by (rule prod_cases3)
  have st: "status \<noteq> PJMEDIA_SDPNEG_EINVANSMEDIA"
    using p2 assms(1) by (auto simp: process_m_answer_def Let_def split: if_splits sum.splits dest: match_formats_error)
  show ?thesis
    using assms(3-5) p1 p2 st assms(1) process_m_answer_frame[OF p2]
    by (auto simp: process_answer_def pjmedia_sdp_media_deactivate_def split: if_splits sum.splits)
qed

text \<open>With asymmetric media allowed every answer that has a format is accepted for an active media, whether or
  not the offer has that format.\<close>

theorem sdp_asym_accepts_any:
  assumes "m_media answer = m_media offer" and "m_port answer \<noteq> 0" and "m_port offer \<noteq> 0" and "m_fmt offer \<noteq> []" and "m_fmt answer \<noteq> []"
    and "pjmedia_sdp_transport_cmp (m_transport answer) (m_transport offer) = PJ_SUCCESS"
  shows "process_m_answer env True offer answer = (PJ_SUCCESS, update_media_direction answer offer, answer)"
proof -
  obtain g gs where g: "m_fmt answer = g # gs" using assms(5) by (cases "m_fmt answer") auto
  have "asym_match (update_media_direction answer offer) answer"
    unfolding asym_match_def g update_direction_frame
    using assms(4) by (auto simp: list_ex_iff intro!: bexI[of _ 0])
  then show ?thesis using assms by (simp add: process_m_answer_def Let_def)
qed

section \<open>Instances\<close>

text \<open>The bytes of literals, for evaluation.\<close>

lemma ascii_literals [code_unfold]:
  "ascii '''' = []" "ascii ''-'' = [45]" "ascii ''0'' = [48]" "ascii ''1'' = [49]"
  "ascii ''10.0.0.1'' = [49,48,46,48,46,48,46,49]" "ascii ''101'' = [49,48,49]"
  "ascii ''101 telephone-event/8000'' = [49,48,49,32,116,101,108,101,112,104,111,110,101,45,101,118,101,110,116,47,56,48,48,48]"
  "ascii ''127.0.0.1'' = [49,50,55,46,48,46,48,46,49]" "ascii ''2'' = [50]" "ascii ''3'' = [51]"
  "ascii ''34'' = [51,52]" "ascii ''8'' = [56]" "ascii ''96'' = [57,54]"
  "ascii ''96 opus/48000/2'' = [57,54,32,111,112,117,115,47,52,56,48,48,48,47,50]"
  "ascii ''96 speex/8000'' = [57,54,32,115,112,101,101,120,47,56,48,48,48]" "ascii ''97'' = [57,55]"
  "ascii ''97 SPEEX/8000'' = [57,55,32,83,80,69,69,88,47,56,48,48,48]" "ascii ''98'' = [57,56]"
  "ascii ''98 speex/8000'' = [57,56,32,115,112,101,101,120,47,56,48,48,48]" "ascii ''AVP'' = [65,86,80]"
  "ascii ''AVPF'' = [65,86,80,70]" "ascii ''IN'' = [73,78]" "ascii ''IP4'' = [73,80,52]" "ascii ''IP6'' = [73,80,54]"
  "ascii ''OPUS/48000/2'' = [79,80,85,83,47,52,56,48,48,48,47,50]" "ascii ''RTP'' = [82,84,80]"
  "ascii ''RTP/AVP'' = [82,84,80,47,65,86,80]" "ascii ''SAVP'' = [83,65,86,80]" "ascii ''SAVPF'' = [83,65,86,80,70]"
  "ascii ''TLS/RTP/SAVP'' = [84,76,83,47,82,84,80,47,83,65,86,80]"
  "ascii ''TLS/RTP/SAVPF'' = [84,76,83,47,82,84,80,47,83,65,86,80,70]" "ascii ''UDP'' = [85,68,80]"
  "ascii ''application'' = [97,112,112,108,105,99,97,116,105,111,110]" "ascii ''audio'' = [97,117,100,105,111]"
  "ascii ''fmtp'' = [102,109,116,112]" "ascii ''iLBC/8000/1'' = [105,76,66,67,47,56,48,48,48,47,49]"
  "ascii ''inactive'' = [105,110,97,99,116,105,118,101]" "ascii ''none'' = [110,111,110,101]"
  "ascii ''opus'' = [111,112,117,115]" "ascii ''opus/48000/2'' = [111,112,117,115,47,52,56,48,48,48,47,50]"
  "ascii ''recvonly'' = [114,101,99,118,111,110,108,121]" "ascii ''rtpmap'' = [114,116,112,109,97,112]"
  "ascii ''sendonly'' = [115,101,110,100,111,110,108,121]" "ascii ''sendrecv'' = [115,101,110,100,114,101,99,118]"
  "ascii ''speex/8000/1'' = [115,112,101,101,120,47,56,48,48,48,47,49]"
  "ascii ''telephone-event'' = [116,101,108,101,112,104,111,110,101,45,101,118,101,110,116]"
  "ascii ''video'' = [118,105,100,101,111]"
  by (simp_all add: ascii_def)

text \<open>Equations without patterns on numbers, for evaluation.\<close>

lemma strnicmp_eq_code [code]:
  "pj_ansi_strnicmp_eq n s t \<longleftrightarrow> n = 0 \<or>
     (case s of [] \<Rightarrow> False | a # as \<Rightarrow> (case t of [] \<Rightarrow> False | b # bs \<Rightarrow>
        pj_tolower a = pj_tolower b \<and> (a = 0 \<or> pj_ansi_strnicmp_eq (n - 1) as bs)))"
  by (cases n; cases s; cases t) auto

lemma strnicmp_code [code]:
  "pj_ansi_strnicmp n s t = (if n = 0 then 0 else
     (case s of [] \<Rightarrow> 0 | a # as \<Rightarrow> (case t of [] \<Rightarrow> 0 | b # bs \<Rightarrow>
        (if pj_tolower a \<noteq> pj_tolower b then int (unat (pj_tolower a)) - int (unat (pj_tolower b))
         else if a = 0 then 0 else pj_ansi_strnicmp (n - 1) as bs))))"
  by (cases n; cases s; cases t) auto

text \<open>Codecs without callbacks, media lines and sessions for the instances.\<close>

definition plain_env :: neg_env where
  "plain_env = \<lparr>ne_aud_codecs = [], ne_vid_codecs = [], ne_fmt_match_cb = [], ne_call = (\<lambda>_ _ _ answer _ _. (PJ_SUCCESS, answer))\<rparr>"

definition sample_attr :: "pj_str_t \<Rightarrow> pj_str_t \<Rightarrow> pjmedia_sdp_attr" where
  "sample_attr n v = pjmedia_sdp_attr_create n (Some v)"

definition sample_media :: "pj_str_t \<Rightarrow> pj_str_t list \<Rightarrow> pjmedia_sdp_attr list \<Rightarrow> pjmedia_sdp_media" where
  "sample_media ty fmts attrs =
     \<lparr>m_media = ty, m_port = 4000, m_port_count = 1, m_transport = ascii ''RTP/AVP'', m_fmt = fmts, m_conn = None,
      m_bandw = [], m_attr = attrs\<rparr>"

definition sample_session :: "pjmedia_sdp_media list \<Rightarrow> pjmedia_sdp_session" where
  "sample_session ms =
     \<lparr>origin_user = ascii ''-'', origin_id = 1, origin_version = 1, origin_net_type = ascii ''IN'', origin_addr_type = ascii ''IP4'',
      origin_addr = ascii ''10.0.0.1'', s_name = ascii ''-'',
      s_conn = Some \<lparr>conn_net_type = ascii ''IN'', conn_addr_type = ascii ''IP4'', conn_addr = ascii ''10.0.0.1''\<rparr>,
      s_bandw = [], time_start = 0, time_stop = 0, s_attr = [], s_media = ms\<rparr>"

definition sample_offer :: pjmedia_sdp_media where
  "sample_offer = sample_media (ascii ''audio'') [ascii ''0'', ascii ''96'', ascii ''8''] [sample_attr (ascii ''rtpmap'') (ascii ''96 speex/8000'')]"

definition sample_answer :: pjmedia_sdp_media where
  "sample_answer = sample_media (ascii ''audio'') [ascii ''97'', ascii ''0'', ascii ''3''] [sample_attr (ascii ''rtpmap'') (ascii ''97 SPEEX/8000''), sample_attr (ascii ''recvonly'') (ascii '''')]"

lemma sdp_rtpmap_roundtrip_witness:
  "\<exists>a. attr_value a = ascii ''96 opus/48000/2'' \<and> pjmedia_sdp_attr_get_rtpmap a =
    (PJ_SUCCESS, \<lparr>rm_pt = ascii ''96'', rm_enc_name = ascii ''opus'', rm_clock_rate = 48000, rm_param = ascii ''2''\<rparr>)"
proof -
  let ?r = "\<lparr>rm_pt = ascii ''96'', rm_enc_name = ascii ''opus'', rm_clock_rate = 48000, rm_param = ascii ''2''\<rparr>"
  have "pjmedia_sdp_rtpmap_to_attr ?r = Inr \<lparr>attr_name = ascii ''rtpmap'', attr_value = ascii ''96 opus/48000/2''\<rparr>" by code_simp
  moreover have "\<forall>c\<in>set (rm_pt ?r) \<union> set (rm_enc_name ?r) \<union> set (rm_param ?r). cs_token c" by code_simp
  ultimately show ?thesis using sdp_rtpmap_roundtrip[of ?r] by (intro exI conjI) auto
qed

lemma sdp_codec_search_witness:
  "pjmedia_codec_mgr_find_codec [ascii ''iLBC/8000/1'', ascii ''opus/48000/2'', ascii ''speex/8000/1''] (ascii ''OPUS/48000/2'') = 1"
proof -
  let ?cs = "[ascii ''iLBC/8000/1'', ascii ''opus/48000/2'', ascii ''speex/8000/1'']"
  have "codecs_ok ?cs" "0 \<notin> set (ascii ''OPUS/48000/2'')" by code_simp+
  moreover have "find_index (\<lambda>d. pj_stricmp_eq d (ascii ''OPUS/48000/2'')) ?cs = Some 1" by code_simp
  ultimately show ?thesis by (simp add: sdp_codec_search)
qed

lemma sdp_direction_meets_witness:
  "dir_sends (local_dir (update_media_direction sample_answer sample_offer)) \<and>
   \<not> dir_receives (local_dir (update_media_direction sample_answer sample_offer))"
proof -
  have "length (m_attr sample_offer) < PJMEDIA_MAX_SDP_ATTR" "one_direction sample_answer" by code_simp+
  from sdp_direction_meets[OF this]
  have "dir_sends (local_dir (update_media_direction sample_answer sample_offer)) =
      (dir_sends (local_dir sample_offer) \<and> dir_receives (local_dir sample_answer))"
    "dir_receives (local_dir (update_media_direction sample_answer sample_offer)) =
      (dir_receives (local_dir sample_offer) \<and> dir_sends (local_dir sample_answer))" by simp_all
  moreover have "dir_sends (local_dir sample_offer)" "dir_receives (local_dir sample_answer)" "\<not> dir_sends (local_dir sample_answer)"
    by code_simp+
  ultimately show ?thesis by simp
qed


lemma sdp_answer_aligned_witness:
  "\<exists>active remote. process_answer plain_env False (sample_session [sample_offer]) (sample_session [sample_answer]) = Inr (active, remote) \<and>
    map m_media (s_media active) = [ascii ''audio''] \<and> map m_media (s_media remote) = [ascii ''audio'']"
proof -
  let ?p = "process_answer plain_env False (sample_session [sample_offer]) (sample_session [sample_answer])"
  have "\<not> isl ?p" by code_simp
  then obtain active remote where p: "?p = Inr (active, remote)" by (cases ?p) auto
  have "map m_media (s_media (sample_session [sample_answer])) =
      take (length (s_media (sample_session [sample_answer]))) (map m_media (s_media (sample_session [sample_offer])))" by code_simp
  from sdp_answer_aligned[OF p this] show ?thesis using p by (simp add: sample_session_def sample_offer_def sample_media_def)
qed

lemma sdp_mismatch_misaligns_witness:
  "\<exists>active remote. process_answer plain_env False (sample_session [sample_media (ascii ''video'') [ascii ''34''] [], sample_offer]) (sample_session [sample_answer])
      = Inr (active, remote) \<and>
    length (s_media active) = 2 \<and> m_port (s_media active ! 1) \<noteq> 0 \<and> length (s_media remote) = 1"
proof -
  let ?p = "process_answer plain_env False (sample_session [sample_media (ascii ''video'') [ascii ''34''] [], sample_offer]) (sample_session [sample_answer])"
  have "\<not> isl ?p" by code_simp
  then obtain active remote where p: "?p = Inr (active, remote)" by (cases ?p) auto
  have "m_media sample_answer = m_media sample_offer" "m_media (sample_media (ascii ''video'') [ascii ''34''] []) \<noteq> m_media sample_offer" by code_simp+
  from sdp_mismatch_misaligns[OF this _ _ p] show ?thesis using p by (simp add: sample_session_def)
qed

lemma sdp_asym_accepts_any_witness:
  "fst (process_m_answer plain_env True (sample_media (ascii ''audio'') [ascii ''0''] []) (sample_media (ascii ''audio'') [ascii ''8''] [])) = PJ_SUCCESS"
proof -
  let ?o = "sample_media (ascii ''audio'') [ascii ''0''] []" and ?a = "sample_media (ascii ''audio'') [ascii ''8''] []"
  have "m_media ?a = m_media ?o" "m_port ?a \<noteq> 0" "m_port ?o \<noteq> 0" "m_fmt ?o \<noteq> []" "m_fmt ?a \<noteq> []"
    "pjmedia_sdp_transport_cmp (m_transport ?a) (m_transport ?o) = PJ_SUCCESS" by code_simp+
  from sdp_asym_accepts_any[OF this] show ?thesis by simp
qed

end
