(* ===== verification/Sdp_Answer.thy ===== *)
theory Sdp_Answer
  imports Sdp_Props
begin

text \<open>
  Correctness of the answer that is made for an offer: its media lines are those of the offer, its formats
  are among those offered, and the assertions on the way hold; and what becomes of an offer with nothing that is known.
\<close>

section \<open>The contract of format callbacks\<close>

text \<open>
  A callback may change attributes of the answer other than its \<^verbatim>\<open>rtpmap\<close>s (the documented use is \<^verbatim>\<open>fmtp\<close>);
  the rest of the media stays.
\<close>

definition same_media :: "pjmedia_sdp_media \<Rightarrow> pjmedia_sdp_media \<Rightarrow> bool" where
  "same_media m m' \<longleftrightarrow> m_media m' = m_media m \<and> m_port m' = m_port m \<and> m_fmt m' = m_fmt m \<and> m_transport m' = m_transport m \<and>
     (\<forall>f. pjmedia_sdp_media_find_attr m' (ascii ''rtpmap'') f = pjmedia_sdp_media_find_attr m (ascii ''rtpmap'') f)"

definition callbacks_ok :: "neg_env \<Rightarrow> bool" where
  "callbacks_ok env \<longleftrightarrow> (\<forall>cb offer oi answer ai modify. same_media answer (snd (ne_call env cb offer oi answer ai modify)))"

lemma same_media_refl [simp]: "same_media m m"
  by (simp add: same_media_def)

lemma same_media_trans [trans]: "same_media a b \<Longrightarrow> same_media b c \<Longrightarrow> same_media a c"
  by (simp add: same_media_def)

lemma custom_same_media:
  "callbacks_ok env \<Longrightarrow> custom_fmt_match env n offer oi answer ai modify = (s, a) \<Longrightarrow> same_media answer a"
  by (auto simp: custom_fmt_match_def callbacks_ok_def split: option.splits) (metis snd_conv)

section \<open>Names of encodings\<close>

lemma scan_get_token_set: "pj_scan_get spec s = Some (t, s') \<Longrightarrow> \<forall>c\<in>set t. spec c"
  by (auto simp: pj_scan_get_def split: if_splits dest: set_takeWhileD)

lemma rtpmap_enc_no_zero: "0 \<notin> set (rm_enc_name (snd (pjmedia_sdp_attr_get_rtpmap a)))"
proof -
  have "\<not> cs_token 0" by (simp add: cs_token_def)
  then have z: "pj_scan_get cs_token s = Some (t, s') \<Longrightarrow> 0 \<notin> set t" for s t s'
    using scan_get_token_set by blast
  show ?thesis
    by (auto simp: pjmedia_sdp_attr_get_rtpmap_def empty_rtpmap_def Let_def split: option.splits dest!: z)
qed

lemma tel_same_name:
  assumes "pj_stricmp_eq (rm_enc_name (snd (pjmedia_sdp_attr_get_rtpmap a))) (rm_enc_name (snd (pjmedia_sdp_attr_get_rtpmap b)))"
  shows "is_telephone_event (snd (pjmedia_sdp_attr_get_rtpmap a)) \<longleftrightarrow> is_telephone_event (snd (pjmedia_sdp_attr_get_rtpmap b))"
proof -
  have "0 \<notin> set (ascii ''telephone-event'')" by (simp add: ascii_def)
  then show ?thesis
    using assms rtpmap_enc_no_zero[of a] rtpmap_enc_no_zero[of b] by (simp add: is_telephone_event_def stricmp_eq_key)
qed

section \<open>The formats chosen\<close>

text \<open>The \<^verbatim>\<open>rtpmap\<close> of a format, and whether it is a telephone event.\<close>

definition rtpmap_of :: "pjmedia_sdp_media \<Rightarrow> pj_str_t \<Rightarrow> pjmedia_sdp_rtpmap option" where
  "rtpmap_of m f = map_option (\<lambda>a. snd (pjmedia_sdp_attr_get_rtpmap a)) (pjmedia_sdp_media_find_attr m (ascii ''rtpmap'') (Some f))"

definition is_tel :: "pjmedia_sdp_media \<Rightarrow> pj_str_t \<Rightarrow> bool" where
  "is_tel m f \<longleftrightarrow> (case rtpmap_of m f of None \<Rightarrow> False | Some r \<Rightarrow> is_telephone_event r)"

text \<open>
  The local media is as an application makes it: formats that are no numbers have no \<^verbatim>\<open>rtpmap\<close>, and telephone
  events have dynamic numbers.
\<close>

definition sane_media :: "pjmedia_sdp_media \<Rightarrow> bool" where
  "sane_media m \<longleftrightarrow> (\<forall>f\<in>set (m_fmt m). if is_numeric f then pj_strtoul f < 96 \<longrightarrow> \<not> is_tel m f else rtpmap_of m f = None)"

lemma same_media_rtpmap: "same_media m m' \<Longrightarrow> rtpmap_of m' f = rtpmap_of m f \<and> is_tel m' f = is_tel m f"
  by (simp add: same_media_def rtpmap_of_def is_tel_def)

lemma same_media_sane: "same_media m m' \<Longrightarrow> sane_media m' = sane_media m"
proof -
  assume s: "same_media m m'"
  have "m_fmt m' = m_fmt m" using s by (simp add: same_media_def)
  then show ?thesis unfolding sane_media_def by (simp add: same_media_rtpmap[OF s])
qed

text \<open>A format is offered: literally, or by its number.\<close>

definition offered :: "pjmedia_sdp_media \<Rightarrow> pj_str_t \<Rightarrow> bool" where
  "offered offer f \<longleftrightarrow> (\<exists>g\<in>set (m_fmt offer). g = f \<or> (is_numeric g \<and> is_numeric f \<and> pj_strtoul g = pj_strtoul f))"

text \<open>
  What the loop over the offered formats keeps, when one codec is chosen: the pairs name different local formats:
  at most one codec, one telephone event for each clock rate, and one format that is no number.
\<close>

definition chosen_ok :: "pjmedia_sdp_media \<Rightarrow> pjmedia_sdp_media \<Rightarrow> match_state \<Rightarrow> bool" where
  "chosen_ok offer pre st \<longleftrightarrow>
     same_media pre (ms_pre st) \<and> distinct (map snd (ms_pairs st)) \<and>
     (\<forall>(po, pa)\<in>set (ms_pairs st). offered offer po \<and> pa \<in> set (m_fmt pre) \<and>
        (if is_tel pre pa then rm_clock_rate (the (rtpmap_of pre pa)) \<in> set (ms_tel_clockrate st)
         else if is_numeric pa then found_matching_codec st else found_matching_other st))"

lemma chosen_ok_push:
  assumes "chosen_ok offer pre st" and "offered offer po" and "pa \<in> set (m_fmt pre)" and "same_media pre (ms_pre st')"
    and "ms_pairs st' = ms_pairs st @ [(po, pa)]" and "set (ms_tel_clockrate st) \<subseteq> set (ms_tel_clockrate st')"
    and "found_matching_codec st \<longrightarrow> found_matching_codec st'" and "found_matching_other st \<longrightarrow> found_matching_other st'"
    and "if is_tel pre pa then rm_clock_rate (the (rtpmap_of pre pa)) \<notin> set (ms_tel_clockrate st) \<and>
           rm_clock_rate (the (rtpmap_of pre pa)) \<in> set (ms_tel_clockrate st')
         else if is_numeric pa then \<not> found_matching_codec st \<and> found_matching_codec st'
         else \<not> found_matching_other st \<and> found_matching_other st'"
  shows "chosen_ok offer pre st'"
proof -
  have "pa \<notin> snd ` set (ms_pairs st)"
    using assms(1,9) by (auto simp: chosen_ok_def split: if_splits)
  then have "distinct (map snd (ms_pairs st'))" using assms(1,5) by (auto simp: chosen_ok_def)
  moreover have "offered offer po' \<and> pa' \<in> set (m_fmt pre) \<and>
      (if is_tel pre pa' then rm_clock_rate (the (rtpmap_of pre pa')) \<in> set (ms_tel_clockrate st')
       else if is_numeric pa' then found_matching_codec st' else found_matching_other st')"
    if "(po', pa') \<in> set (ms_pairs st')" for po' pa'
  proof (cases "(po', pa') \<in> set (ms_pairs st)")
    case True
    then show ?thesis using assms(1,6-8) by (fastforce simp: chosen_ok_def split: if_splits)
  next
    case False
    then have "po' = po" "pa' = pa" using that assms(5) by auto
    then show ?thesis using assms(2,3,9) by (auto split: if_splits)
  qed
  ultimately show ?thesis using assms(4) by (auto simp: chosen_ok_def)
qed

lemma chosen_ok_pre:
  "chosen_ok offer pre st \<Longrightarrow> same_media pre (ms_pre st') \<Longrightarrow> ms_pairs st' = ms_pairs st \<Longrightarrow>
   ms_tel_clockrate st' = ms_tel_clockrate st \<Longrightarrow> found_matching_codec st' = found_matching_codec st \<Longrightarrow>
   found_matching_other st' = found_matching_other st \<Longrightarrow> chosen_ok offer pre st'"
  unfolding chosen_ok_def by (elim conjE) (simp only: simp_thms)

lemma match_dynamic_chosen:
  assumes "chosen_ok offer pre st" and "callbacks_ok env" and "sane_media pre" and "\<forall>j\<in>set js. j < length (m_fmt pre)"
    and "i < length (m_fmt offer)" and "orm = snd (pjmedia_sdp_attr_get_rtpmap b)"
    and "\<not> is_telephone_event orm \<longrightarrow> \<not> found_matching_codec st"
  shows "chosen_ok offer pre (match_dynamic env True offer i orm st js)"
  using assms
proof (induction js arbitrary: st)
  case (Cons j js)
  have pre: "same_media pre (ms_pre st)" using Cons.prems(1) by (simp add: chosen_ok_def)
  then have fm: "m_fmt (ms_pre st) = m_fmt pre" by (simp add: same_media_def)
  define f where "f = m_fmt pre ! j"
  have f: "f \<in> set (m_fmt pre)" using Cons.prems(4) by (simp add: f_def)
  have off: "offered offer (m_fmt offer ! i)" using Cons.prems(5) by (auto simp: offered_def intro: bexI[of _ "m_fmt offer ! i"])
  note rec = Cons.IH[OF _ Cons.prems(2,3) _ Cons.prems(5,6)]
  show ?case
  proof (cases "pjmedia_sdp_media_find_attr (ms_pre st) (ascii ''rtpmap'') (Some f)")
    case None
    then show ?thesis using rec Cons.prems by (simp add: ms_slave_def fm flip: f_def)
  next
    case (Some a)
    define lrm where "lrm = snd (pjmedia_sdp_attr_get_rtpmap a)"
    have r: "rtpmap_of pre f = Some lrm" using Some pre by (simp add: rtpmap_of_def same_media_def lrm_def)
    have num: "is_numeric f" using Cons.prems(3) f r by (auto simp: sane_media_def split: if_splits)
    show ?thesis
    proof (cases "pj_stricmp_eq (rm_enc_name orm) (rm_enc_name lrm) \<and> rm_clock_rate orm = rm_clock_rate lrm \<and>
        params_match (rm_param orm) (rm_param lrm)")
      case False
      then show ?thesis using rec Cons.prems Some by (simp add: ms_slave_def fm lrm_def flip: f_def)
    next
      case same: True
      then have tel: "is_telephone_event orm \<longleftrightarrow> is_tel pre f"
        using tel_same_name[of b a] Cons.prems(6) r by (simp add: is_tel_def lrm_def)
      obtain s p where c: "custom_fmt_match env (rm_enc_name orm) offer i (ms_pre st) j True = (s, p)" by (rule prod.exhaust)
      have pp: "same_media pre p" using pre custom_same_media[OF Cons.prems(2) c] by (rule same_media_trans)
      then have pf: "m_fmt p = m_fmt pre" by (simp add: same_media_def)
      consider (no) "\<not> is_telephone_event orm" "s \<noteq> PJ_SUCCESS" | (codec) "\<not> is_telephone_event orm" "s = PJ_SUCCESS"
        | (dup) "is_telephone_event orm" "rm_clock_rate orm \<in> set (ms_tel_clockrate st)"
        | (tele) "is_telephone_event orm" "rm_clock_rate orm \<notin> set (ms_tel_clockrate st)" by blast
      then show ?thesis
      proof cases
        case no
        have "chosen_ok offer pre (st\<lparr>ms_pre := p\<rparr>)" using Cons.prems(1) by (rule chosen_ok_pre) (simp_all add: pp)
        then show ?thesis using rec[of "st\<lparr>ms_pre := p\<rparr>"] Cons.prems no same Some c
          by (simp add: ms_slave_def fm lrm_def Let_def flip: f_def)
      next
        case codec
        have "chosen_ok offer pre (push_pair True offer i j (st\<lparr>ms_pre := p, found_matching_codec := True,
            ms_clockrate := note_clock (rm_clock_rate orm) (ms_clockrate st)\<rparr>))"
          using chosen_ok_push[OF Cons.prems(1) off f] Cons.prems(7) codec tel num pp pf
          by (simp add: push_pair_def f_def)
        then show ?thesis using codec same Some c by (simp add: ms_slave_def fm lrm_def Let_def flip: f_def)
      next
        case dup
        then show ?thesis using rec Cons.prems same Some by (simp add: ms_slave_def fm lrm_def Let_def flip: f_def)
      next
        case tele
        have "chosen_ok offer pre (push_pair True offer i j
            (st\<lparr>ms_tel_clockrate := ms_tel_clockrate st @ [rm_clock_rate orm], found_matching_tel := True\<rparr>))"
          using chosen_ok_push[OF Cons.prems(1) off f, of "push_pair True offer i j
            (st\<lparr>ms_tel_clockrate := ms_tel_clockrate st @ [rm_clock_rate orm], found_matching_tel := True\<rparr>)"]
            tele tel pre r same by (auto simp: push_pair_def f_def fm)
        then show ?thesis using tele same Some by (simp add: ms_slave_def fm lrm_def Let_def flip: f_def)
      qed
    qed
  qed
qed simp

lemma is_numeric_offered: "i < length (m_fmt offer) \<Longrightarrow> offered offer (m_fmt offer ! i)"
  by (auto simp: offered_def intro: bexI[of _ "m_fmt offer ! i"])

lemma match_static_chosen:
  assumes "chosen_ok offer pre st" and "sane_media pre" and "i < length (m_fmt offer)" and "is_numeric (m_fmt offer ! i)"
    and "pj_strtoul (m_fmt offer ! i) < 96"
  shows "chosen_ok offer pre (match_static True False offer (pj_strtoul (m_fmt offer ! i)) st)"
proof -
  define fmt where "fmt = m_fmt offer ! i"
  have pre: "same_media pre (ms_pre st)" using assms(1) by (simp add: chosen_ok_def)
  then have fm: "m_fmt (ms_pre st) = m_fmt pre" by (simp add: same_media_def)
  have keep: "chosen_ok offer pre (st\<lparr>master_has_codec := True\<rparr>)"
    using assms(1) by (rule chosen_ok_pre) (simp_all add: pre)
  show ?thesis
  proof (cases "find_index (\<lambda>f. pj_strtoul f = pj_strtoul fmt \<and> is_numeric f) (m_fmt pre)")
    case None
    then show ?thesis using keep fm by (simp add: match_static_def ms_slave_def Let_def flip: fmt_def del: find_index_None)
  next
    case (Some j)
    define pa where "pa = m_fmt pre ! j"
    from find_index_Some[OF Some] have pa: "pa \<in> set (m_fmt pre)" "pj_strtoul pa = pj_strtoul fmt" "is_numeric pa"
      by (auto simp: pa_def)
    have tel: "\<not> is_tel pre pa" using assms(2,5) pa by (auto simp: sane_media_def fmt_def)
    have off: "offered offer pa" using assms(3,4) pa by (auto simp: offered_def fmt_def intro!: bexI[of _ "m_fmt offer ! i"])
    show ?thesis
    proof (cases "found_matching_codec st")
      case True
      then show ?thesis using keep by (simp add: match_static_def Let_def)
    next
      case False
      have "chosen_ok offer pre (st\<lparr>master_has_codec := True, found_matching_codec := True,
          ms_pairs := ms_pairs st @ [(pa, pa)], ms_clockrate := note_clock 8000 (ms_clockrate st)\<rparr>)"
        using chosen_ok_push[OF assms(1) off pa(1)] pre tel pa(3) False by simp
      then show ?thesis using False Some fm by (simp add: match_static_def ms_slave_def Let_def flip: fmt_def pa_def)
    qed
  qed
qed

lemma match_other_chosen:
  assumes "chosen_ok offer pre st" and "sane_media pre" and "i < length (m_fmt offer)" and "\<not> is_numeric (m_fmt offer ! i)"
  shows "chosen_ok offer pre (match_other True offer i st)"
proof -
  define fmt where "fmt = m_fmt offer ! i"
  have pre: "same_media pre (ms_pre st)" using assms(1) by (simp add: chosen_ok_def)
  then have fm: "m_fmt (ms_pre st) = m_fmt pre" by (simp add: same_media_def)
  have keep: "chosen_ok offer pre (st\<lparr>master_has_other := True\<rparr>)"
    using assms(1) by (rule chosen_ok_pre) (simp_all add: pre)
  show ?thesis
  proof (cases "find_index (\<lambda>f. fmt = f) (m_fmt pre)")
    case None
    then show ?thesis using keep fm by (simp add: match_other_def ms_slave_def ms_master_def Let_def flip: fmt_def del: find_index_None)
  next
    case (Some j)
    from find_index_Some[OF Some] have j: "j < length (m_fmt pre)" "m_fmt pre ! j = fmt" by auto
    have fi: "fmt \<in> set (m_fmt pre)" using nth_mem[OF j(1)] j(2) by simp
    have num: "\<not> is_numeric fmt" using assms(4) by (simp add: fmt_def)
    have "\<not> is_tel pre fmt" using assms(2) num fi by (auto simp: sane_media_def is_tel_def)
    then show ?thesis
      using chosen_ok_push[OF assms(1) is_numeric_offered[OF assms(3), folded fmt_def] fi] keep pre num Some fm j(2)
      by (simp add: match_other_def ms_slave_def ms_master_def Let_def push_pair_def flip: fmt_def)
  qed
qed

text \<open>An offered format that calls for a format other than a telephone event.\<close>

definition asks_codec :: "pjmedia_sdp_media \<Rightarrow> pj_str_t \<Rightarrow> bool" where
  "asks_codec offer f \<longleftrightarrow> \<not> (is_numeric f \<and> pj_strtoul f \<ge> 96 \<and> is_tel offer f)"

text \<open>The flags tell what has been seen and found.\<close>

definition flags_ok :: "match_state \<Rightarrow> bool" where
  "flags_ok st \<longleftrightarrow> (found_matching_codec st \<or> found_matching_other st \<longrightarrow> ms_pairs st \<noteq> [])"

lemma match_dynamic_flags:
  "(flags_ok st \<longrightarrow> flags_ok (match_dynamic env prefer offer i orm st js)) \<and>
   master_has_codec (match_dynamic env prefer offer i orm st js) = master_has_codec st \<and>
   master_has_other (match_dynamic env prefer offer i orm st js) = master_has_other st"
proof (induction js arbitrary: "prefer" st)
  case (Cons j js)
  have f: "flags_ok (st\<lparr>ms_pre := p\<rparr>) = flags_ok st" for p by (simp add: flags_ok_def)
  have f2: "flags_ok (push_pair b offer i j s)" for b s by (simp add: flags_ok_def push_pair_def)
  have f3: "master_has_codec (push_pair b offer i j s) = master_has_codec s"
    "master_has_other (push_pair b offer i j s) = master_has_other s" for b s by (simp_all add: push_pair_def)
  show ?case
    by (simp add: Let_def f f2 f3 Cons.IH split: option.splits prod.splits)
qed simp

lemma match_static_flags:
  "flags_ok st \<Longrightarrow> flags_ok (match_static prefer multiple offer pt st)"
  "master_has_codec (match_static prefer multiple offer pt st)"
  by (simp_all add: match_static_def flags_ok_def Let_def split: option.splits)

lemma match_other_flags:
  "flags_ok st \<Longrightarrow> flags_ok (match_other prefer offer i st)" "master_has_other (match_other prefer offer i st)"
  by (simp_all add: match_other_def flags_ok_def Let_def push_pair_def split: option.splits)

lemma match_fmt_flags:
  assumes "match_fmt env True multiple offer i st = Inr st'"
  shows "flags_ok st \<Longrightarrow> flags_ok st'"
    and "asks_codec offer (m_fmt offer ! i) \<Longrightarrow> master_has_codec st' \<or> master_has_other st'"
proof -
  have f: "flags_ok (st\<lparr>master_has_codec := b\<rparr>) = flags_ok st" for b by (simp add: flags_ok_def)
  show "flags_ok st'" if "flags_ok st"
    using assms that
    by (auto simp: match_fmt_def Let_def f intro: match_static_flags match_other_flags match_dynamic_flags[THEN conjunct1, rule_format] split: if_splits option.splits)
  show "master_has_codec st' \<or> master_has_other st'" if "asks_codec offer (m_fmt offer ! i)"
    using assms that
    by (auto simp: match_fmt_def ms_master_def Let_def asks_codec_def is_tel_def rtpmap_of_def match_static_flags(2) match_other_flags(2)
        match_dynamic_flags split: if_splits option.splits)
qed

lemma match_fmt_keeps:
  assumes "match_fmt env prefer multiple offer i st = Inr st'" and "master_has_codec st \<or> master_has_other st"
  shows "master_has_codec st' \<or> master_has_other st'"
proof -
  have "master_has_codec (match_other prefer offer i st) = master_has_codec st"
    by (simp add: match_other_def push_pair_def Let_def split: option.splits)
  then show ?thesis using assms
    by (auto simp: match_fmt_def Let_def match_static_flags(2) match_other_flags(2) match_dynamic_flags split: if_splits option.splits)
qed

lemma match_fmt_chosen:
  assumes "chosen_ok offer pre st" and "callbacks_ok env" and "sane_media pre" and "i < length (m_fmt offer)"
    and "match_fmt env True False offer i st = Inr st'"
  shows "chosen_ok offer pre st'"
proof (cases "is_numeric (m_fmt offer ! i) \<and> \<not> pj_strtoul (m_fmt offer ! i) < 96")
  case False
  then show ?thesis using assms match_static_chosen match_other_chosen
    by (auto simp: match_fmt_def ms_master_def Let_def split: if_splits)
next
  case True
  then obtain a where a: "pjmedia_sdp_media_find_attr offer (ascii ''rtpmap'') (Some (m_fmt offer ! i)) = Some a"
    using assms(5) by (auto simp: match_fmt_def ms_master_def split: option.splits)
  define orm where "orm = snd (pjmedia_sdp_attr_get_rtpmap a)"
  define st1 where "st1 = (if \<not> is_telephone_event orm then st\<lparr>master_has_codec := True\<rparr> else st)"
  have pre: "same_media pre (ms_pre st)" using assms(1) by (simp add: chosen_ok_def)
  have c1: "chosen_ok offer pre st1" using assms(1) by (rule chosen_ok_pre) (simp_all add: pre st1_def)
  have fm: "m_fmt (ms_pre st1) = m_fmt pre" using pre by (simp add: same_media_def st1_def)
  have st': "st' = (if \<not> is_telephone_event orm \<and> found_matching_codec st then st1
      else match_dynamic env True offer i orm st1 [0..<length (m_fmt pre)])"
    using True a assms(5) fm by (auto simp: match_fmt_def ms_master_def ms_slave_def st1_def Let_def simp flip: orm_def)
  show ?thesis
  proof (cases "\<not> is_telephone_event orm \<and> found_matching_codec st")
    case False
    show ?thesis unfolding st' if_not_P[OF False]
      using match_dynamic_chosen[OF c1 assms(2,3) _ assms(4) orm_def, of "[0..<length (m_fmt pre)]"] False by (auto simp: st1_def)
  qed (use st' c1 in simp)
qed

lemma match_fmts_chosen:
  assumes "callbacks_ok env" and "sane_media pre" and "\<forall>i\<in>set is. i < length (m_fmt offer)"
    and "chosen_ok offer pre st" and "flags_ok st"
  shows "case match_fmts env True False offer is st of
      Inl (status, st') \<Rightarrow> status \<noteq> PJ_SUCCESS \<and> chosen_ok offer pre st'
    | Inr st' \<Rightarrow> chosen_ok offer pre st' \<and> flags_ok st' \<and>
        ((\<exists>i\<in>set is. asks_codec offer (m_fmt offer ! i)) \<or> master_has_codec st \<or> master_has_other st \<longrightarrow>
          master_has_codec st' \<or> master_has_other st')"
  using assms(3-5)
proof (induction "is" arbitrary: st)
  case (Cons i "is")
  show ?case
  proof (cases "match_fmt env True False offer i st")
    case (Inl s)
    then have "s \<noteq> PJ_SUCCESS" by (auto simp: match_fmt_def Let_def split: if_splits option.splits)
    then show ?thesis using Inl Cons.prems by simp
  next
    case (Inr st1)
    have "chosen_ok offer pre st1" using match_fmt_chosen[OF Cons.prems(2) assms(1,2) _ Inr] Cons.prems(1) by simp
    then show ?thesis using Cons.IH[of st1] match_fmt_flags[OF Inr] match_fmt_keeps[OF Inr] Cons.prems Inr by (auto split: sum.splits)
  qed
qed simp

lemma filter_tel_spec:
  assumes "filter_tel pre clocks ps = (kept, first, n)" and "distinct (map snd ps)"
  shows "set kept \<subseteq> set ps \<and> distinct (map snd kept) \<and> (kept = [] \<longrightarrow> n = 0 \<and> (ps = [] \<or> first \<noteq> None)) \<and>
    (\<forall>p. first = Some p \<longrightarrow> p \<in> set ps \<and> (n = 0 \<longrightarrow> (\<forall>q\<in>set kept. snd q \<noteq> snd p)))"
  using assms
proof (induction pre clocks ps arbitrary: kept first n rule: filter_tel.induct)
  case (2 pre clocks po pa ps)
  obtain kept' first' n' where f: "filter_tel pre clocks ps = (kept', first', n')" by (rule prod_cases3)
  have IH: "set kept' \<subseteq> set ps" "distinct (map snd kept')" "kept' = [] \<longrightarrow> n' = 0 \<and> (ps = [] \<or> first' \<noteq> None)"
    "\<forall>p. first' = Some p \<longrightarrow> p \<in> set ps \<and> (n' = 0 \<longrightarrow> (\<forall>q\<in>set kept'. snd q \<noteq> snd p))"
    using "2.IH"[OF f] "2.prems"(2) by auto
  have pa: "pa \<notin> snd ` set ps" using "2.prems"(2) by simp
  then have pk: "\<forall>q\<in>set kept'. snd q \<noteq> pa" using IH(1) by force
  have pf: "snd p \<noteq> pa" if "first' = Some p" for p using IH(4) that pa by force
  have dk: "pa \<notin> snd ` set kept'" using pk by force
  define tel where "tel \<longleftrightarrow> is_numeric pa \<and> \<not> pj_strtoul pa < 96 \<and>
    is_telephone_event (case pjmedia_sdp_media_find_attr pre (ascii ''rtpmap'') (Some pa) of
      None \<Rightarrow> empty_rtpmap | Some a \<Rightarrow> snd (pjmedia_sdp_attr_get_rtpmap a))"
  consider "\<not> tel" "kept = (po, pa) # kept'" "first = first'" "n = n'"
    | "tel" "kept = (po, pa) # kept'" "first = Some (po, pa)" "n = n' + 1"
    | "tel" "kept = kept'" "first = Some (po, pa)" "n = n'"
    using "2.prems"(1) f by (auto simp: Let_def tel_def split: if_splits)
  then show ?case by cases (use IH pk pf dk in auto)
qed simp

lemma wanted_pairs_spec:
  assumes "chosen_ok offer pre st" and "flags_ok st"
  shows "distinct (map snd (wanted_pairs st)) \<and> set (wanted_pairs st) \<subseteq> set (ms_pairs st) \<and>
    (ms_pairs st \<noteq> [] \<longrightarrow> wanted_pairs st \<noteq> [])"
proof (cases "found_matching_tel st")
  case True
  obtain kept first n where f: "filter_tel (ms_pre st) (ms_clockrate st) (ms_pairs st) = (kept, first, n)" by (rule prod_cases3)
  have "distinct (map snd (ms_pairs st))" using assms(1) by (simp add: chosen_ok_def)
  note s = filter_tel_spec[OF f this]
  then show ?thesis using s True f by (auto simp: wanted_pairs_def split: option.splits)
qed (use assms in \<open>simp add: wanted_pairs_def chosen_ok_def\<close>)

section \<open>Building the answer\<close>

lemma mset_drop_swap:
  assumes "i + k < length xs"
  shows "mset (drop i (xs[i := xs ! (i + k), i + k := xs ! i])) = mset (drop i xs)"
proof -
  have "drop i (xs[i := xs ! (i + k), i + k := xs ! i]) = (drop i xs)[0 := drop i xs ! k, k := drop i xs ! 0]"
    using assms by (simp add: drop_update_swap)
  then show ?thesis using mset_swap[of k "drop i xs" 0] assms by simp
qed

lemma place_formats_spec:
  "i + length pts \<le> length fmts \<Longrightarrow> distinct pts \<Longrightarrow> set pts \<subseteq> set (drop i fmts) \<Longrightarrow>
   \<exists>fmts'. place_formats i pts fmts = Some fmts' \<and> length fmts' = length fmts \<and> take (i + length pts) fmts' = take i fmts @ pts"
proof (induction pts arbitrary: i fmts)
  case (Cons pt pts)
  obtain k where k: "find_index (\<lambda>f. f = pt) (drop i fmts) = Some k"
    using Cons.prems(3) by (cases "find_index (\<lambda>f. f = pt) (drop i fmts)") auto
  have kl: "i + k < length fmts" "fmts ! (i + k) = pt" using find_index_Some[OF k] by auto
  define f where "f = fmts[i := fmts ! (i + k), i + k := fmts ! i]"
  have fi: "f ! i = pt" "length f = length fmts" using kl by (auto simp: f_def nth_list_update)
  have il: "i < length f" using Cons.prems(1) fi by simp
  have "set (drop i f) = set (drop i fmts)" using mset_drop_swap[OF kl(1)] unfolding f_def by (metis set_mset_mset)
  moreover have "drop i f = pt # drop (Suc i) f" using il fi(1) by (metis Cons_nth_drop_Suc)
  ultimately have "set pts \<subseteq> set (drop (i + 1) f)" using Cons.prems(2,3) by auto
  from Cons.IH[OF _ _ this] obtain f' where f': "place_formats (i + 1) pts f = Some f'" "length f' = length f"
    "take (i + 1 + length pts) f' = take (i + 1) f @ pts"
    using Cons.prems(1,2) fi(2) by auto
  have "take (i + 1) f = take i fmts @ [pt]" using il fi(1) by (simp add: take_Suc_conv_app_nth f_def)
  then show ?case using f' k fi by (simp flip: f_def)
qed simp

lemma foldl_keeps: "(\<And>m x. P (g m x) = P m) \<Longrightarrow> P (foldl g m xs) = P m"
  by (induction xs arbitrary: m) auto

lemma take_rewritten_frame:
  "take_rewritten m n f g = (m', as) \<Longrightarrow> m_media m' = m_media m \<and> m_port m' = m_port m \<and> m_fmt m' = m_fmt m \<and> m_transport m' = m_transport m"
  by (auto simp: take_rewritten_def split: option.splits)

lemma symmetric_pts_frame:
  "symmetric_pts i ps m tmp = (m', tmp') \<Longrightarrow> length (m_fmt m) = i + length ps \<Longrightarrow> drop i (m_fmt m) = map snd ps \<Longrightarrow>
   m_media m' = m_media m \<and> m_port m' = m_port m \<and> m_transport m' = m_transport m \<and> m_fmt m' = take i (m_fmt m) @ map fst ps"
proof (induction i ps m tmp rule: symmetric_pts.induct)
  case (2 i po pa ps m tmp)
  have il: "i < length (m_fmt m)" "m_fmt m ! i = pa" using "2.prems"(2,3) by (auto simp: nth_via_drop)
  have dr: "drop (i + 1) (m_fmt m) = map snd ps" using "2.prems"(3) il by (metis Suc_eq_plus1 drop_Suc list.sel(3) list.simps(9) snd_conv tl_drop)
  show ?case
  proof (cases "pa = po")
    case True
    then show ?thesis using "2.IH"(1)[OF True] "2.prems" dr il by (simp add: take_Suc_conv_app_nth)
  next
    case False
    obtain m2 a2 where r2: "take_rewritten (m\<lparr>m_fmt := (m_fmt m)[i := po]\<rparr>) (ascii ''rtpmap'') pa po = (m2, a2)" by (rule prod.exhaust)
    obtain m3 a3 where r3: "take_rewritten m2 (ascii ''fmtp'') pa po = (m3, a3)" by (rule prod.exhaust)
    have fr: "m_media m3 = m_media m" "m_port m3 = m_port m" "m_transport m3 = m_transport m" "m_fmt m3 = (m_fmt m)[i := po]"
      using take_rewritten_frame[OF r2] take_rewritten_frame[OF r3] by simp_all
    have rec: "symmetric_pts (i + 1) ps m3 (tmp @ a2 @ a3) = (m', tmp')" using "2.prems"(1) False r2 r3 by simp
    show ?thesis
      using "2.IH"(2)[OF False refl r2[symmetric] refl r3[symmetric] refl rec] fr dr il "2.prems"(2)
      by (simp add: take_Suc_conv_app_nth)
  qed
qed simp

lemma update_direction_transport: "m_transport (update_media_direction r m) = m_transport m"
  by (auto simp: update_media_direction_def remove_all_media_directions_def pjmedia_sdp_media_remove_all_attr_def
      pjmedia_sdp_media_add_attr_def Let_def split: option.splits prod.splits)

lemma build_answer_spec:
  assumes "distinct (map snd pairs)" and "snd ` set pairs \<subseteq> set (m_fmt pre)"
  shows "\<exists>a. build_answer offer pre pairs = Some a \<and> m_media a = m_media pre \<and> m_port a = m_port pre \<and>
    m_transport a = m_transport pre \<and> m_fmt a = map fst pairs"
proof -
  have "card (set (map snd pairs)) \<le> card (set (m_fmt pre))" using assms(2) by (intro card_mono) auto
  then have len: "length (map snd pairs) \<le> length (m_fmt pre)"
    using distinct_card[OF assms(1)] card_length[of "m_fmt pre"] by simp
  obtain fmts where f: "place_formats 0 (map snd pairs) (m_fmt pre) = Some fmts" "length fmts = length (m_fmt pre)"
    "take (length pairs) fmts = map snd pairs"
    using place_formats_spec[of 0 "map snd pairs" "m_fmt pre"] len assms by auto
  define a1 where "a1 = foldl remove_fmt_attrs (pre\<lparr>m_fmt := fmts\<rparr>) (drop (length pairs) fmts)"
  have a1: "m_media a1 = m_media pre" "m_port a1 = m_port pre" "m_transport a1 = m_transport pre"
    unfolding a1_def
    by (subst foldl_keeps[of m_media] foldl_keeps[of m_port] foldl_keeps[of m_transport];
        simp add: remove_fmt_attrs_def remove_found_def split: option.splits)+
  define a2 where "a2 = a1\<lparr>m_fmt := take (length pairs) fmts\<rparr>"
  obtain a3 tmp where s: "symmetric_pts 0 pairs a2 [] = (a3, tmp)" by (rule prod.exhaust)
  have a3: "m_media a3 = m_media pre" "m_port a3 = m_port pre" "m_transport a3 = m_transport pre" "m_fmt a3 = map fst pairs"
    using symmetric_pts_frame[OF s] f len a1 by (simp_all add: a2_def)
  define a4 where "a4 = foldl (\<lambda>m a. snd (pjmedia_sdp_media_add_attr m a)) a3 tmp"
  have a4: "m_media a4 = m_media a3" "m_port a4 = m_port a3" "m_transport a4 = m_transport a3" "m_fmt a4 = m_fmt a3"
    unfolding a4_def
    by (subst foldl_keeps[of m_media] foldl_keeps[of m_port] foldl_keeps[of m_transport] foldl_keeps[of m_fmt];
        simp add: pjmedia_sdp_media_add_attr_def split: prod.splits)+
  have "build_answer offer pre pairs = Some (update_media_direction offer a4)"
    using f s by (simp add: build_answer_def apply_answer_symmetric_pt_def a1_def a2_def a4_def Let_def)
  then show ?thesis using a3 a4 update_direction_frame update_direction_transport by auto
qed

lemma initial_chosen: "chosen_ok offer pre (initial_match pre)" "flags_ok (initial_match pre)"
  by (simp_all add: chosen_ok_def flags_ok_def initial_match_def)

section \<open>The answer to an offer\<close>

text \<open>
  What an answer to a media is: the same type and transport; rejected when the offer is; and otherwise only formats that
  are offered, with at least one when the offer asks for a codec.
\<close>

definition answer_fits :: "pjmedia_sdp_media \<Rightarrow> pjmedia_sdp_media \<Rightarrow> bool" where
  "answer_fits om am \<longleftrightarrow>
     m_media am = m_media om \<and> media_proto am = media_proto om \<and> (m_port om = 0 \<longrightarrow> m_port am = 0) \<and>
     (m_port am \<noteq> 0 \<longrightarrow> (\<forall>f\<in>set (m_fmt am). offered om f) \<and> ((\<exists>f\<in>set (m_fmt om). asks_codec om f) \<longrightarrow> m_fmt am \<noteq> []))"

lemma clone_deactivate_fits: "answer_fits om (sdp_media_clone_deactivate om m sess)"
  by (simp add: answer_fits_def sdp_media_clone_deactivate_def pjmedia_sdp_media_clone_deactivate_def
      pjmedia_sdp_media_deactivate_def media_proto_def Let_def)

lemma match_offer_spec:
  assumes "callbacks_ok env" and "sane_media pre"
  shows "\<exists>r pre'. match_offer env True False om pre sess = Some (r, pre') \<and> same_media pre pre' \<and>
    (\<forall>am. r = Inr am \<longrightarrow> m_media om = m_media pre \<longrightarrow> media_proto om = media_proto pre \<longrightarrow> answer_fits om am)"
proof (cases "m_port om = 0 \<or> m_port pre = 0")
  case True
  then show ?thesis using clone_deactivate_fits by (auto simp: match_offer_def answer_fits_def)
next
  case False
  have spec: "case match_fmts env True False om [0..<length (m_fmt om)] (initial_match pre) of
      Inl (status, st') \<Rightarrow> status \<noteq> PJ_SUCCESS \<and> chosen_ok om pre st'
    | Inr st' \<Rightarrow> chosen_ok om pre st' \<and> flags_ok st' \<and>
        ((\<exists>i\<in>set [0..<length (m_fmt om)]. asks_codec om (m_fmt om ! i)) \<or> master_has_codec (initial_match pre) \<or>
          master_has_other (initial_match pre) \<longrightarrow> master_has_codec st' \<or> master_has_other st')"
    using initial_chosen by (intro match_fmts_chosen[OF assms]) auto
  show ?thesis
  proof (cases "match_fmts env True False om [0..<length (m_fmt om)] (initial_match pre)")
    case (Inl e)
    then show ?thesis using False spec by (cases e) (simp add: match_offer_def chosen_ok_def)
  next
    case (Inr st)
    from spec Inr have c: "chosen_ok om pre st" and fl: "flags_ok st"
      and asks: "(\<exists>f\<in>set (m_fmt om). asks_codec om f) \<longrightarrow> master_has_codec st \<or> master_has_other st"
      by (auto simp: in_set_conv_nth)
    have pre: "same_media pre (ms_pre st)" using c by (simp add: chosen_ok_def)
    note w = wanted_pairs_spec[OF c fl]
    have "snd ` set (wanted_pairs st) \<subseteq> set (m_fmt (ms_pre st))"
      using w c by (fastforce simp: chosen_ok_def same_media_def)
    from build_answer_spec[OF conjunct1[OF w] this, of om] obtain a where
      a: "build_answer om (ms_pre st) (wanted_pairs st) = Some a" "m_media a = m_media (ms_pre st)"
        "m_transport a = m_transport (ms_pre st)" "m_fmt a = map fst (wanted_pairs st)" by blast
    have off: "\<forall>f\<in>set (m_fmt a). offered om f" using w c by (fastforce simp: a(4) chosen_ok_def)
    have fits: "answer_fits om a"
      if "master_has_codec st \<longrightarrow> found_matching_codec st" "master_has_other st \<longrightarrow> found_matching_other st"
        "m_media om = m_media pre" "media_proto om = media_proto pre"
      using that asks fl w off False pre a by (auto simp: answer_fits_def flags_ok_def same_media_def media_proto_def)
    show ?thesis using False Inr pre a(1) fits by (auto simp: match_offer_def Let_def)
  qed
qed

lemma find_local_media_spec:
  assumes "callbacks_ok env" and "\<forall>(im, u)\<in>set ims. sane_media im"
  shows "\<exists>r ims' s. find_local_media env True False sess om status ims = Some (r, ims', s) \<and>
    (\<forall>(im, u)\<in>set ims'. sane_media im) \<and> (\<forall>am. r = Some am \<longrightarrow> answer_fits om am)"
  using assms(2)
proof (induction ims arbitrary: status)
  case (Cons p ims)
  obtain im u where p: "p = (im, u)" by (rule prod.exhaust)
  obtain r pre' where m: "match_offer env True False om im sess = Some (r, pre')" "same_media im pre'"
    "\<forall>am. r = Inr am \<longrightarrow> m_media om = m_media im \<longrightarrow> media_proto om = media_proto im \<longrightarrow> answer_fits om am"
    using match_offer_spec[OF assms(1), of im om sess] Cons.prems p by auto
  have s: "sane_media im" "sane_media pre'" "\<forall>(im, u)\<in>set ims. sane_media im"
    using Cons.prems p same_media_sane[OF m(2)] by auto
  obtain r1 i1 s1 where i1: "find_local_media env True False sess om status ims = Some (r1, i1, s1)"
    "\<forall>(im, u)\<in>set i1. sane_media im" "\<forall>am. r1 = Some am \<longrightarrow> answer_fits om am" using Cons.IH[OF s(3)] by blast
  show ?case
  proof (cases "m_media om = m_media im \<and> media_proto om = media_proto im \<and> \<not> u")
    case False
    then show ?thesis using i1 s p by auto
  next
    case True
    show ?thesis
    proof (cases r)
      case (Inl st2)
      obtain r2 i2 s2 where i2: "find_local_media env True False sess om st2 ims = Some (r2, i2, s2)"
        "\<forall>(im, u)\<in>set i2. sane_media im" "\<forall>am. r2 = Some am \<longrightarrow> answer_fits om am" using Cons.IH[OF s(3)] by blast
      then show ?thesis using True m s p Inl by auto
    next
      case (Inr am)
      then show ?thesis using True m s p by auto
    qed
  qed
qed simp

lemma answer_media_spec:
  assumes "callbacks_ok env" and "\<forall>(im, u)\<in>set ims. sane_media im"
  shows "\<exists>ams s. answer_media env True False sess status ims oms = Some (ams, s) \<and> list_all2 answer_fits oms ams"
  using assms(2)
proof (induction oms arbitrary: ims status)
  case (Cons om oms)
  obtain r ims' s where f: "find_local_media env True False sess om status ims = Some (r, ims', s)"
    "\<forall>(im, u)\<in>set ims'. sane_media im" "\<forall>am. r = Some am \<longrightarrow> answer_fits om am"
    using find_local_media_spec[OF assms(1) Cons.prems] by blast
  obtain ams s' where a: "answer_media env True False sess s ims' oms = Some (ams, s')" "list_all2 answer_fits oms ams"
    using Cons.IH[OF f(2)] by blast
  then show ?case using f clone_deactivate_fits by (auto simp: Let_def split: option.splits)
qed simp


lemma no_local_media:
  assumes "\<forall>(im, u)\<in>set ims. \<not> (m_media om = m_media im \<and> media_proto om = media_proto im)"
  shows "find_local_media env prefer multiple sess om status ims = Some (None, ims, status)"
  using assms by (induction ims) auto

lemma answer_nothing:
  assumes "\<forall>om\<in>set oms. \<forall>(im, u)\<in>set ims. \<not> (m_media om = m_media im \<and> media_proto om = media_proto im)"
  shows "answer_media env prefer multiple sess status ims oms = Some (map (\<lambda>om. sdp_media_clone_deactivate om om sess) oms, status)"
  using assms by (induction oms) (auto simp: no_local_media)

text \<open>When no media of the offer has the type and transport of one that is supported, the offer is answered with
  success, and with an answer that rejects every media; \<^verbatim>\<open>PJMEDIA_SDPNEG_ENOMEDIA\<close>, which the status starts as, is lost.\<close>

theorem sdp_no_media_accepted:
  assumes "pjmedia_sdp_validate offer = PJ_SUCCESS"
    and "\<forall>om\<in>set (s_media offer). \<forall>im\<in>set (s_media initial). \<not> (m_media om = m_media im \<and> media_proto om = media_proto im)"
  shows "\<exists>answer. create_answer env prefer multiple initial offer = Some (PJ_SUCCESS, Some answer) \<and>
    length (s_media answer) = length (s_media offer) \<and> (\<forall>m\<in>set (s_media answer). m_port m = 0)"
proof -
  have "answer_media env prefer multiple initial PJ_SUCCESS (map (\<lambda>m. (m, False)) (s_media initial)) (s_media offer) =
    Some (map (\<lambda>om. sdp_media_clone_deactivate om om initial) (s_media offer), PJ_SUCCESS)"
    using assms(2) by (intro answer_nothing) auto
  then show ?thesis using assms(1)
    by (auto simp: create_answer_def sdp_media_clone_deactivate_def pjmedia_sdp_media_clone_deactivate_def
        pjmedia_sdp_media_deactivate_def Let_def)
qed

section \<open>Instances\<close>

definition sample_local :: pjmedia_sdp_media where
  "sample_local = sample_media (ascii ''audio'') [ascii ''8'', ascii ''0'', ascii ''98'', ascii ''101'']
     [sample_attr (ascii ''rtpmap'') (ascii ''98 speex/8000''), sample_attr (ascii ''rtpmap'') (ascii ''101 telephone-event/8000'')]"

lemma plain_callbacks_ok: "callbacks_ok plain_env"
  by (simp add: callbacks_ok_def plain_env_def)


lemma sdp_no_media_accepted_witness:
  "\<exists>answer. create_answer plain_env True False (sample_session [sample_local]) (sample_session [sample_media (ascii ''video'') [ascii ''34''] []])
      = Some (PJ_SUCCESS, Some answer) \<and> length (s_media answer) = 1 \<and> (\<forall>m\<in>set (s_media answer). m_port m = 0)"
proof -
  let ?v = "sample_session [sample_media (ascii ''video'') [ascii ''34''] []]"
  have "pjmedia_sdp_validate ?v = PJ_SUCCESS" by code_simp
  moreover have "\<forall>om\<in>set (s_media ?v). \<forall>im\<in>set (s_media (sample_session [sample_local])).
      \<not> (m_media om = m_media im \<and> media_proto om = media_proto im)" by code_simp
  ultimately have "\<exists>answer. create_answer plain_env True False (sample_session [sample_local]) ?v = Some (PJ_SUCCESS, Some answer) \<and>
      length (s_media answer) = length (s_media ?v) \<and> (\<forall>m\<in>set (s_media answer). m_port m = 0)"
    by (rule sdp_no_media_accepted)
  then show ?thesis by (simp add: sample_session_def)
qed

end
