(* ===== verification/Sdp_Neg_Props.thy ===== *)
theory Sdp_Neg_Props
  imports Sdp_Props
begin

text \<open>
  Correctness of the negotiator over any sequence of operations: what its states promise, the state diagram of
  \<^verbatim>\<open>pjmedia/include/pjmedia/sdp_neg.h\<close>, that an offer without success leaves the session as it was, and what a new offer
  keeps of the session.
\<close>

section \<open>Operations\<close>

datatype neg_op =
  ModifyLocalOffer bool pjmedia_sdp_session | SendLocalOffer | SetRemoteAnswer pjmedia_sdp_session
| SetRemoteOffer pjmedia_sdp_session | SetLocalAnswer pjmedia_sdp_session | CancelOffer | Negotiate bool
| SetPrefer bool | SetMultiple bool

fun neg_do :: "neg_env \<Rightarrow> neg_op \<Rightarrow> pjmedia_sdp_neg \<Rightarrow> (pj_status_t \<times> pjmedia_sdp_neg) option" where
  "neg_do env (ModifyLocalOffer allow s) neg = Some (pjmedia_sdp_neg_modify_local_offer2 allow s neg)"
| "neg_do env SendLocalOffer neg = (case pjmedia_sdp_neg_send_local_offer neg of (st, neg', _) \<Rightarrow> Some (st, neg'))"
| "neg_do env (SetRemoteAnswer s) neg = Some (pjmedia_sdp_neg_set_remote_answer s neg)"
| "neg_do env (SetRemoteOffer s) neg = Some (pjmedia_sdp_neg_set_remote_offer s neg)"
| "neg_do env (SetLocalAnswer s) neg = Some (pjmedia_sdp_neg_set_local_answer s neg)"
| "neg_do env CancelOffer neg = Some (pjmedia_sdp_neg_cancel_offer neg)"
| "neg_do env (Negotiate allow) neg = pjmedia_sdp_neg_negotiate env allow neg"
| "neg_do env (SetPrefer b) neg = Some (PJ_SUCCESS, pjmedia_sdp_neg_set_prefer_remote_codec_order b neg)"
| "neg_do env (SetMultiple b) neg = Some (PJ_SUCCESS, pjmedia_sdp_neg_set_answer_multiple_codecs b neg)"

text \<open>The negotiators that a program can have.\<close>

inductive reachable_neg :: "neg_env \<Rightarrow> pjmedia_sdp_neg \<Rightarrow> bool" for env where
  local_offer: "pjmedia_sdp_neg_create_w_local_offer env s = Inr neg \<Longrightarrow> reachable_neg env neg"
| remote_offer: "pjmedia_sdp_neg_create_w_remote_offer env i s = Inr neg \<Longrightarrow> reachable_neg env neg"
| operation: "reachable_neg env neg \<Longrightarrow> neg_do env op neg = Some (st, neg') \<Longrightarrow> reachable_neg env neg'"

section \<open>What an operation leaves alone\<close>

lemma rewrite_frame [simp]: "m_media (pjmedia_sdp_media_deactivate m) = m_media m" "m_media (sdp_media_clone_deactivate m l s) = m_media m"
  by (simp_all add: pjmedia_sdp_media_deactivate_def sdp_media_clone_deactivate_def pjmedia_sdp_media_clone_deactivate_def Let_def)

lemma maps_self: "\<exists>p c. neg = neg\<lparr>pt_to_codec := p, codec_to_pt := c\<rparr>"
  by (intro exI[of _ "pt_to_codec neg"] exI[of _ "codec_to_pt neg"]) simp

lemma assign_media_frame:
  "assign_media is_offer i m neg = (m', neg') \<Longrightarrow>
   m_media m' = m_media m \<and> m_port m' = m_port m \<and> (\<exists>p c. neg' = neg\<lparr>pt_to_codec := p, codec_to_pt := c\<rparr>)"
  using maps_self[of neg] by (auto simp: assign_media_def Let_def split: if_splits prod.splits)

lemma assign_medias_frame:
  "assign_medias is_offer i ms neg = (ms', neg') \<Longrightarrow>
   map m_media ms' = map m_media ms \<and> map m_port ms' = map m_port ms \<and>
   (\<exists>p c. neg' = neg\<lparr>pt_to_codec := p, codec_to_pt := c\<rparr>)"
proof (induction is_offer i ms neg arbitrary: ms' neg' rule: assign_medias.induct)
  case (1 is_offer i neg)
  then show ?case using maps_self[of neg] by auto
next
  case (2 is_offer i m ms neg)
  obtain m1 neg1 where a: "assign_media is_offer i m neg = (m1, neg1)" by (rule prod.exhaust)
  obtain ms1 neg2 where b: "assign_medias is_offer (i + 1) ms neg1 = (ms1, neg2)" by (rule prod.exhaust)
  obtain p1 c1 where n1: "neg1 = neg\<lparr>pt_to_codec := p1, codec_to_pt := c1\<rparr>" using assign_media_frame[OF a] by blast
  obtain p c where n2: "neg2 = neg1\<lparr>pt_to_codec := p, codec_to_pt := c\<rparr>" using "2.IH"[OF a[symmetric] refl b] by blast
  have "ms' = m1 # ms1" "neg' = neg\<lparr>pt_to_codec := p, codec_to_pt := c\<rparr>" using "2.prems" a b n1 n2 by simp_all
  then show ?case using "2.IH"[OF a[symmetric] refl b] assign_media_frame[OF a] by (intro conjI exI[of _ p] exI[of _ c]) simp_all
qed

lemma assign_frame:
  assumes "assign_pt_and_update_map is_offer s neg = (s', neg')"
  obtains ms p c where "s' = s\<lparr>s_media := ms\<rparr>" and "map m_media ms = map m_media (s_media s)"
    and "map m_port ms = map m_port (s_media s)" and "neg' = neg\<lparr>pt_to_codec := p, codec_to_pt := c\<rparr>"
proof -
  obtain ms neg1 where a: "assign_medias is_offer 0 (s_media s) neg = (ms, neg1)" by (rule prod.exhaust)
  then show ?thesis using assms assign_medias_frame[OF a] that by (auto simp: assign_pt_and_update_map_def)
qed

text \<open>The part of a negotiator that its states are about.\<close>

definition negotiated :: "pjmedia_sdp_neg \<Rightarrow> pjmedia_sdp_session option \<times> pjmedia_sdp_session option" where
  "negotiated neg = (active_local_sdp neg, active_remote_sdp neg)"

lemma finish_fields [simp]:
  "neg_state (finish_negotiation st neg) = PJMEDIA_SDP_NEG_STATE_DONE"
  "neg_local_sdp (finish_negotiation st neg) = None" "neg_remote_sdp (finish_negotiation st neg) = None"
  "\<not> has_remote_answer (finish_negotiation st neg)" "initial_sdp_tmp (finish_negotiation st neg) = None"
  "negotiated (finish_negotiation st neg) = negotiated neg"
  "initial_sdp (finish_negotiation st neg) = (if st \<noteq> PJ_SUCCESS then initial_sdp_tmp neg else initial_sdp neg)"
  by (simp_all add: finish_negotiation_def negotiated_def Let_def)

lemma process_m_answer_error:
  "process_m_answer env allow offer answer = (st, offer', answer') \<Longrightarrow>
   st \<in> {PJ_SUCCESS, PJMEDIA_SDPNEG_EINVANSMEDIA, PJMEDIA_SDPNEG_EINVANSTP, PJMEDIA_SDPNEG_EANSNOMEDIA, PJ_EBUG}"
  by (auto simp: process_m_answer_def Let_def split: if_splits sum.splits dest: match_formats_error)

lemma process_media_error: "process_media env allow sess offers answers = Inl e \<Longrightarrow> e \<noteq> PJ_SUCCESS"
  by (induction env allow sess offers answers rule: process_media.induct)
     (auto split: sum.splits prod.splits if_splits)

lemma process_answer_error: "process_answer env allow local answer = Inl e \<Longrightarrow> e \<noteq> PJ_SUCCESS"
  by (auto simp: process_answer_def dest: process_media_error split: sum.splits if_splits)

text \<open>The cases of an operation, with the fields that it changes.\<close>

lemma modify_cases:
  assumes "pjmedia_sdp_neg_modify_local_offer2 allow s neg = (st, neg')"
  obtains (state) "neg_state neg \<noteq> PJMEDIA_SDP_NEG_STATE_DONE" "st = PJMEDIA_SDPNEG_EINSTATE" "neg' = neg"
    | (invalid) "neg_state neg = PJMEDIA_SDP_NEG_STATE_DONE" "st \<noteq> PJ_SUCCESS" "neg' = neg"
    | (first) p c init offer where "neg_state neg = PJMEDIA_SDP_NEG_STATE_DONE" "st = PJ_SUCCESS" "active_local_sdp neg = None"
        "neg' = neg\<lparr>neg_state := PJMEDIA_SDP_NEG_STATE_LOCAL_OFFER, pt_to_codec := p, codec_to_pt := c, initial_sdp_tmp := None,
           initial_sdp := Some init, neg_local_sdp := Some offer, last_sent := Some offer\<rparr>"
    | (again) p c old ms new offer where "neg_state neg = PJMEDIA_SDP_NEG_STATE_DONE" "st = PJ_SUCCESS" "active_local_sdp neg = Some old"
        "map m_media ms = map m_media (if allow then add_missing_media s (s_media old) (s_media s)
           else fix_media s (s_media old) 0 (s_media s))"
        "new = s\<lparr>origin_user := origin_user old, origin_id := origin_id old, origin_net_type := origin_net_type old,
           origin_addr_type := origin_addr_type old, origin_addr := origin_addr old, s_media := ms, origin_version := origin_version old\<rparr>"
        "offer = (if not_equal (last_sent neg) new then bump_version new else new)"
        "neg' = neg\<lparr>neg_state := PJMEDIA_SDP_NEG_STATE_LOCAL_OFFER, pt_to_codec := p, codec_to_pt := c, initial_sdp_tmp := initial_sdp neg,
           initial_sdp := Some offer, neg_local_sdp := Some offer, last_sent := Some offer\<rparr>"
proof (cases "neg_state neg = PJMEDIA_SDP_NEG_STATE_DONE \<and> pjmedia_sdp_validate s = PJ_SUCCESS")
  case False
  then show ?thesis using assms state invalid by (auto simp: pjmedia_sdp_neg_modify_local_offer2_def split: if_splits)
next
  case True
  define neg1 where "neg1 = neg\<lparr>neg_state := PJMEDIA_SDP_NEG_STATE_LOCAL_OFFER\<rparr>"
  show ?thesis
  proof (cases "active_local_sdp neg")
    case None
    obtain i1 neg2 where a: "assign_pt_and_update_map True s neg1 = (i1, neg2)" by (rule prod.exhaust)
    obtain ms p c where f: "i1 = s\<lparr>s_media := ms\<rparr>" "neg2 = neg1\<lparr>pt_to_codec := p, codec_to_pt := c\<rparr>"
      using a by (rule assign_frame)
    show ?thesis
      by (rule first[where p = p and c = c and init = i1 and offer = "if not_equal (last_sent neg2) i1 then bump_version i1 else i1"])
         (use True None assms a f in \<open>auto simp: pjmedia_sdp_neg_modify_local_offer2_def Let_def neg1_def\<close>)
  next
    case (Some old)
    define medias where "medias = (if allow then add_missing_media s (s_media old) (s_media s) else fix_media s (s_media old) 0 (s_media s))"
    define new1 where "new1 = s\<lparr>origin_user := origin_user old, origin_id := origin_id old, origin_net_type := origin_net_type old,
      origin_addr_type := origin_addr_type old, origin_addr := origin_addr old, s_media := medias, origin_version := origin_version old\<rparr>"
    obtain new2 neg2 where a: "assign_pt_and_update_map True new1 neg1 = (new2, neg2)" by (rule prod.exhaust)
    obtain ms p c where f: "new2 = new1\<lparr>s_media := ms\<rparr>" "neg2 = neg1\<lparr>pt_to_codec := p, codec_to_pt := c\<rparr>"
      "map m_media ms = map m_media (s_media new1)"
      using a by (rule assign_frame)
    define offer where "offer = (if not_equal (last_sent neg) new2 then bump_version new2 else new2)"
    have r: "neg' = neg2\<lparr>initial_sdp_tmp := initial_sdp neg2, initial_sdp := Some offer, neg_local_sdp := Some offer, last_sent := Some offer\<rparr>"
      "st = PJ_SUCCESS"
      using assms True Some a f(2)
      by (auto simp: pjmedia_sdp_neg_modify_local_offer2_def Let_def offer_def neg1_def simp flip: medias_def new1_def)
    show ?thesis
      by (rule again[where old = old and ms = ms and new = new2 and offer = offer and p = p and c = c])
         (use True Some r f in \<open>auto simp: new1_def medias_def offer_def neg1_def\<close>)
  qed
qed

lemma negotiate_cases:
  assumes "pjmedia_sdp_neg_negotiate env allow neg = Some (st, neg')"
  obtains (state) "neg_state neg \<noteq> PJMEDIA_SDP_NEG_STATE_WAIT_NEGO" "st = PJMEDIA_SDPNEG_EINSTATE" "neg' = neg"
    | (bug) "neg_state neg = PJMEDIA_SDP_NEG_STATE_WAIT_NEGO" "neg_remote_sdp neg = None" "st = PJ_EBUG" "neg' = neg"
    | (failed) "neg_state neg = PJMEDIA_SDP_NEG_STATE_WAIT_NEGO" "st \<noteq> PJ_SUCCESS" "neg' = finish_negotiation st neg"
    | (agreed) l r p c s where "neg_state neg = PJMEDIA_SDP_NEG_STATE_WAIT_NEGO" "st = PJ_SUCCESS"
        "neg' = finish_negotiation PJ_SUCCESS
           (neg\<lparr>pt_to_codec := p, codec_to_pt := c, active_local_sdp := Some l, active_remote_sdp := Some r, last_sent := s\<rparr>)"
proof (cases "neg_state neg = PJMEDIA_SDP_NEG_STATE_WAIT_NEGO")
  case False
  have "st = PJMEDIA_SDPNEG_EINSTATE \<and> neg' = neg" using assms False by (simp add: pjmedia_sdp_neg_negotiate_def)
  then show ?thesis using False state by blast
next
  case True
  show ?thesis
  proof (cases "neg_remote_sdp neg")
    case None
    have "st = PJ_EBUG \<and> neg' = neg" using assms True None by (simp add: pjmedia_sdp_neg_negotiate_def)
    then show ?thesis using True None bug by blast
  next
    case (Some remote)
    show ?thesis
    proof (cases "neg_local_sdp neg")
      case None
      have "st \<noteq> PJ_SUCCESS \<and> neg' = finish_negotiation st neg"
        using assms True Some None by (auto simp: pjmedia_sdp_neg_negotiate_def Let_def split: if_splits)
      then show ?thesis using True failed by blast
    next
      case loc: (Some local)
      have self: "neg = neg\<lparr>pt_to_codec := pt_to_codec neg, codec_to_pt := codec_to_pt neg, last_sent := last_sent neg\<rparr>" by simp
      show ?thesis
      proof (cases "has_remote_answer neg")
        case ra: True
        show ?thesis
        proof (cases "process_answer env allow local remote")
          case (Inl e)
          have "e \<noteq> PJ_SUCCESS" using process_answer_error[OF Inl] .
          moreover have "st = e \<and> neg' = finish_negotiation e neg"
            using assms True Some loc ra Inl by (auto simp: pjmedia_sdp_neg_negotiate_def)
          ultimately show ?thesis using True failed by blast
        next
          case (Inr x)
          then show ?thesis using assms True Some loc ra agreed[where p = "pt_to_codec neg" and c = "codec_to_pt neg" and l = "fst x" and r = "snd x" and s = "last_sent neg"]
            by (cases x) (auto simp: pjmedia_sdp_neg_negotiate_def)
        qed
      next
        case la: False
        obtain status ans where c: "create_answer env (prefer_remote_codec_order neg) (answer_with_multiple_codecs neg) local remote = Some (status, ans)"
          using assms True Some loc la by (auto simp: pjmedia_sdp_neg_negotiate_def split: option.splits)
        show ?thesis
        proof (cases "ans = None \<or> status \<noteq> PJ_SUCCESS")
          case f: True
          have "status \<noteq> PJ_SUCCESS" using f c by (auto simp: create_answer_def Let_def split: if_splits option.splits)
          then show ?thesis using assms True Some loc la c f failed
            by (auto simp: pjmedia_sdp_neg_negotiate_def split: option.splits if_splits)
        next
          case False
          then obtain answer where a: "ans = Some answer" "status = PJ_SUCCESS" by auto
          obtain a1 neg1 where g: "assign_pt_and_update_map False answer neg = (a1, neg1)" by (rule prod.exhaust)
          obtain ms p c' where f: "neg1 = neg\<lparr>pt_to_codec := p, codec_to_pt := c'\<rparr>" using g by (rule assign_frame)
          define a2 where "a2 = (case last_sent neg of Some l \<Rightarrow> a1\<lparr>origin_version := origin_version l\<rparr> | None \<Rightarrow> a1)"
          define a3 where "a3 = (if not_equal (last_sent neg) a2 then bump_version a2 else a2)"
          show ?thesis
            by (rule agreed[where p = p and c = c' and l = a3 and r = remote and s = "Some a3"])
               (use assms True Some loc la c a g f in \<open>simp_all add: pjmedia_sdp_neg_negotiate_def Let_def a2_def a3_def split: if_splits\<close>)
        qed
      qed
    qed
  qed
qed

lemmas neg_op_defs = pjmedia_sdp_neg_send_local_offer_def pjmedia_sdp_neg_set_remote_answer_def pjmedia_sdp_neg_set_remote_offer_def
  pjmedia_sdp_neg_set_local_answer_def pjmedia_sdp_neg_cancel_offer_def pjmedia_sdp_neg_set_prefer_remote_codec_order_def
  pjmedia_sdp_neg_set_answer_multiple_codecs_def

section \<open>States\<close>

text \<open>What a negotiator holds in each state.\<close>

definition neg_ok :: "pjmedia_sdp_neg \<Rightarrow> bool" where
  "neg_ok neg \<longleftrightarrow>
     (case neg_state neg of
        PJMEDIA_SDP_NEG_STATE_NULL \<Rightarrow> False
      | PJMEDIA_SDP_NEG_STATE_LOCAL_OFFER \<Rightarrow> neg_local_sdp neg \<noteq> None
      | PJMEDIA_SDP_NEG_STATE_REMOTE_OFFER \<Rightarrow> neg_remote_sdp neg \<noteq> None
      | PJMEDIA_SDP_NEG_STATE_WAIT_NEGO \<Rightarrow> neg_local_sdp neg \<noteq> None \<and> neg_remote_sdp neg \<noteq> None
      | PJMEDIA_SDP_NEG_STATE_DONE \<Rightarrow> neg_local_sdp neg = None \<and> neg_remote_sdp neg = None) \<and>
     (has_remote_answer neg \<longrightarrow> neg_state neg = PJMEDIA_SDP_NEG_STATE_WAIT_NEGO) \<and>
     (active_local_sdp neg = None \<longleftrightarrow> active_remote_sdp neg = None)"

lemma neg_ok_finish: "active_local_sdp neg = None \<longleftrightarrow> active_remote_sdp neg = None \<Longrightarrow> neg_ok (finish_negotiation st neg)"
proof -
  have "active_local_sdp (finish_negotiation st neg) = active_local_sdp neg"
    "active_remote_sdp (finish_negotiation st neg) = active_remote_sdp neg"
    by (simp_all add: finish_negotiation_def Let_def)
  then show "active_local_sdp neg = None \<longleftrightarrow> active_remote_sdp neg = None \<Longrightarrow> neg_ok (finish_negotiation st neg)"
    by (simp add: neg_ok_def)
qed

lemma neg_ok_step:
  assumes "neg_ok neg" and "neg_do env op neg = Some (st, neg')"
  shows "neg_ok neg'"
proof (cases op)
  case (ModifyLocalOffer allow s)
  then have m: "pjmedia_sdp_neg_modify_local_offer2 allow s neg = (st, neg')" using assms(2) by simp
  show ?thesis using m by (rule modify_cases) (use assms(1) in \<open>simp_all add: neg_ok_def\<close>)
next
  case (Negotiate allow)
  then have n: "pjmedia_sdp_neg_negotiate env allow neg = Some (st, neg')" using assms(2) by simp
  have e: "active_local_sdp neg = None \<longleftrightarrow> active_remote_sdp neg = None" using assms(1) by (simp add: neg_ok_def)
  show ?thesis using n
  proof (rule negotiate_cases)
    assume "neg' = finish_negotiation st neg"
    then show ?thesis using neg_ok_finish[OF e] by simp
  qed (use assms(1) in \<open>auto intro: neg_ok_finish\<close>)
qed (use assms in \<open>cases "neg_state neg"; auto simp: neg_op_defs neg_ok_def Let_def split: if_splits option.splits\<close>)+

lemma reachable_ok: "reachable_neg env neg \<Longrightarrow> neg_ok neg"
proof (induction rule: reachable_neg.induct)
  case (local_offer s neg)
  then show ?case
    by (auto simp: pjmedia_sdp_neg_create_w_local_offer_def init_mapping_def zero_neg_def neg_ok_def Let_def split: if_splits)
next
  case (remote_offer i s neg)
  then show ?case
    by (auto simp: pjmedia_sdp_neg_create_w_remote_offer_def init_mapping_def zero_neg_def neg_ok_def Let_def
        split: if_splits option.splits)
qed (rule neg_ok_step)

text \<open>C15: every negotiator that operations can lead to is well formed: an offer is there while it waits for its answer,
  both sides are while they wait to be negotiated, neither is kept afterwards, and the two active descriptions come together.\<close>

theorem sdp_neg_well_formed:
  assumes "reachable_neg env neg"
  shows "neg_ok neg"
  using assms by (rule reachable_ok)

text \<open>The state diagram of the header file, with the changes of an answer that waits; the settings are left out of it.\<close>

fun diagram :: "neg_op \<Rightarrow> pjmedia_sdp_neg_state \<Rightarrow> pjmedia_sdp_neg_state option" where
  "diagram (ModifyLocalOffer _ _) PJMEDIA_SDP_NEG_STATE_DONE = Some PJMEDIA_SDP_NEG_STATE_LOCAL_OFFER"
| "diagram SendLocalOffer PJMEDIA_SDP_NEG_STATE_DONE = Some PJMEDIA_SDP_NEG_STATE_LOCAL_OFFER"
| "diagram SendLocalOffer PJMEDIA_SDP_NEG_STATE_LOCAL_OFFER = Some PJMEDIA_SDP_NEG_STATE_LOCAL_OFFER"
| "diagram (SetRemoteAnswer _) PJMEDIA_SDP_NEG_STATE_LOCAL_OFFER = Some PJMEDIA_SDP_NEG_STATE_WAIT_NEGO"
| "diagram (SetRemoteOffer _) PJMEDIA_SDP_NEG_STATE_DONE = Some PJMEDIA_SDP_NEG_STATE_REMOTE_OFFER"
| "diagram (SetLocalAnswer _) PJMEDIA_SDP_NEG_STATE_REMOTE_OFFER = Some PJMEDIA_SDP_NEG_STATE_WAIT_NEGO"
| "diagram (SetLocalAnswer _) PJMEDIA_SDP_NEG_STATE_WAIT_NEGO = Some PJMEDIA_SDP_NEG_STATE_WAIT_NEGO"
| "diagram CancelOffer PJMEDIA_SDP_NEG_STATE_LOCAL_OFFER = Some PJMEDIA_SDP_NEG_STATE_DONE"
| "diagram CancelOffer PJMEDIA_SDP_NEG_STATE_REMOTE_OFFER = Some PJMEDIA_SDP_NEG_STATE_DONE"
| "diagram (Negotiate _) PJMEDIA_SDP_NEG_STATE_WAIT_NEGO = Some PJMEDIA_SDP_NEG_STATE_DONE"
| "diagram (SetPrefer _) s = Some s"
| "diagram (SetMultiple _) s = Some s"
| "diagram _ _ = None"


section \<open>Offers without an answer\<close>

text \<open>
  A run of operations in which no negotiation succeeds. A local answer is not put in the place of a local offer that the remote
  has answered, which the code does not turn down.
\<close>

inductive unanswered :: "neg_env \<Rightarrow> pjmedia_sdp_neg \<Rightarrow> pjmedia_sdp_neg \<Rightarrow> bool" for env neg where
  start: "unanswered env neg neg"
| step: "unanswered env neg neg1 \<Longrightarrow> neg_do env op neg1 = Some (st, neg2) \<Longrightarrow>
    (\<forall>allow. op = Negotiate allow \<longrightarrow> st \<noteq> PJ_SUCCESS) \<Longrightarrow>
    (\<forall>s. op = SetLocalAnswer s \<longrightarrow> \<not> has_remote_answer neg1) \<Longrightarrow> unanswered env neg neg2"

text \<open>Where the initial description of the session is kept while an offer is under way.\<close>

definition keeps_session :: "pjmedia_sdp_session option \<times> pjmedia_sdp_session option \<Rightarrow> pjmedia_sdp_session \<Rightarrow> pjmedia_sdp_neg \<Rightarrow> bool" where
  "keeps_session act init neg \<longleftrightarrow>
     negotiated neg = act \<and> active_local_sdp neg \<noteq> None \<and>
     (has_remote_answer neg \<longrightarrow> neg_state neg = PJMEDIA_SDP_NEG_STATE_WAIT_NEGO) \<and>
     (case neg_state neg of
        PJMEDIA_SDP_NEG_STATE_NULL \<Rightarrow> False
      | PJMEDIA_SDP_NEG_STATE_LOCAL_OFFER \<Rightarrow> initial_sdp_tmp neg = Some init
      | PJMEDIA_SDP_NEG_STATE_REMOTE_OFFER \<Rightarrow> initial_sdp neg = Some init
      | PJMEDIA_SDP_NEG_STATE_WAIT_NEGO \<Rightarrow>
          initial_sdp_tmp neg = Some init \<and> (\<not> has_remote_answer neg \<longrightarrow> initial_sdp neg = Some init)
      | PJMEDIA_SDP_NEG_STATE_DONE \<Rightarrow> initial_sdp neg = Some init)"

lemma keeps_session_step:
  assumes "keeps_session act init neg" and "neg_do env op neg = Some (st, neg')"
    and "\<forall>allow. op = Negotiate allow \<longrightarrow> st \<noteq> PJ_SUCCESS" and "\<forall>s. op = SetLocalAnswer s \<longrightarrow> \<not> has_remote_answer neg"
  shows "keeps_session act init neg'"
proof (cases op)
  case (ModifyLocalOffer allow s)
  then have m: "pjmedia_sdp_neg_modify_local_offer2 allow s neg = (st, neg')" using assms(2) by simp
  show ?thesis using m
    by (rule modify_cases) (use assms(1) in \<open>simp_all add: keeps_session_def negotiated_def\<close>)
next
  case (Negotiate allow)
  then have n: "pjmedia_sdp_neg_negotiate env allow neg = Some (st, neg')" and f: "st \<noteq> PJ_SUCCESS" using assms(2,3) by simp_all
  have a: "active_local_sdp (finish_negotiation st neg) = active_local_sdp neg" by (simp add: finish_negotiation_def Let_def)
  show ?thesis using n
  proof (rule negotiate_cases)
    assume "neg' = finish_negotiation st neg" "neg_state neg = PJMEDIA_SDP_NEG_STATE_WAIT_NEGO"
    then show ?thesis using assms(1) f a by (simp add: keeps_session_def)
  qed (use assms(1) f in simp_all)
next
  case (SetLocalAnswer s)
  then show ?thesis using assms
    by (cases "neg_state neg") (auto simp: neg_op_defs keeps_session_def negotiated_def Let_def split: if_splits option.splits)
qed (use assms in \<open>cases "neg_state neg"; auto simp: neg_op_defs keeps_session_def negotiated_def Let_def split: if_splits option.splits\<close>)+


section \<open>New offers\<close>

lemma fix_media_spec:
  "oi \<le> length news \<Longrightarrow> fix_media local olds oi news = r \<Longrightarrow>
   take oi r = take oi news \<and> oi + length olds \<le> length r \<and> map m_media (take (length olds) (drop oi r)) = map m_media olds \<and>
   mset (map m_media news) \<subseteq># mset (map m_media r)"
proof (induction local olds oi news arbitrary: r rule: fix_media.induct)
  case (2 local om oms oi news)
  obtain news' where rec: "fix_media local oms (oi + 1) news' = r" and n: "length news' \<ge> oi + 1" "take oi news' = take oi news"
    "m_media (news' ! oi) = m_media om" "mset (map m_media news) \<subseteq># mset (map m_media news')"
    "take (oi + 1) r = take (oi + 1) news'" "oi + 1 + length oms \<le> length r"
    "map m_media (take (length oms) (drop (oi + 1) r)) = map m_media oms" "mset (map m_media news') \<subseteq># mset (map m_media r)"
  proof (cases "find_index (\<lambda>nm. m_media nm = m_media om) (drop oi news)")
    case None
    define n1 where "n1 = take oi news @ sdp_media_clone_deactivate om om local # drop oi news"
    have r: "fix_media local oms (oi + 1) n1 = r" using "2.prems"(2) None by (simp add: n1_def del: find_index_None)
    have l: "oi + 1 \<le> length n1" using "2.prems"(1) by (simp add: n1_def)
    have "mset (take oi news) + mset (drop oi news) = mset news" by (simp flip: mset_append)
    then have "mset news \<subseteq># mset n1" by (simp add: n1_def)
    then have "mset (map m_media news) \<subseteq># mset (map m_media n1)" by (simp add: image_mset_subseteq_mono)
    then show ?thesis using that[OF r l] "2.IH"(1)[OF None l[unfolded n1_def] r[unfolded n1_def]] "2.prems"(1)
      by (simp add: n1_def nth_append)
  next
    case (Some k)
    define n1 where "n1 = take oi news @ (news ! (oi + k)) # take k (drop oi news) @ drop (oi + k + 1) news"
    have r: "fix_media local oms (oi + 1) n1 = r" using "2.prems"(2) Some by (simp add: n1_def)
    have k: "oi + k < length news" "m_media (news ! (oi + k)) = m_media om" using find_index_Some[OF Some] by auto
    have l: "oi + 1 \<le> length n1" using "2.prems"(1) by (simp add: n1_def)
    have "drop oi news = take k (drop oi news) @ news ! (oi + k) # drop (oi + k + 1) news"
      using id_take_nth_drop[of k "drop oi news"] k(1) by (simp add: add.commute)
    then have "mset (drop oi news) = mset (news ! (oi + k) # take k (drop oi news) @ drop (oi + k + 1) news)"
      by (metis mset_append mset.simps(2) union_mset_add_mset_right append.simps(2) union_mset_add_mset_left)
    then have "mset n1 = mset news" unfolding n1_def by (metis append_take_drop_id mset_append)
    then have "mset (map m_media news) \<subseteq># mset (map m_media n1)" by simp
    then show ?thesis using that[OF r l] "2.IH"(2)[OF Some l[unfolded n1_def] r[unfolded n1_def]] "2.prems"(1) k
      by (simp add: n1_def nth_append)
  qed
  have "oi < length r" using n(6) by simp
  then have d: "drop oi r = r ! oi # drop (oi + 1) r" by (simp add: Cons_nth_drop_Suc)
  have "r ! oi = news' ! oi" using n(5) by (metis less_add_one nth_take)
  moreover have "take oi r = take oi news" using n(2,5) by (metis le_add1 min.absorb1 take_take)
  ultimately show ?case using d n by (auto intro: subset_mset.order_trans)
qed simp


lemma cmp_version: "\<not> not_equal (Some s) t \<Longrightarrow> origin_version s = origin_version t"
  by (auto simp: not_equal_def pjmedia_sdp_session_cmp_def CHECK_def split: if_splits)

lemma modify_version:
  assumes "pjmedia_sdp_neg_modify_local_offer2 allow s neg = (PJ_SUCCESS, neg')" and "active_local_sdp neg = Some old"
    and "last_sent neg = Some sent" and "origin_version sent \<noteq> origin_version old"
  shows "\<exists>offer. last_sent neg' = Some offer \<and> origin_version offer = u32 (int (origin_version old) + 1)"
  using assms(1)
proof (rule modify_cases)
  fix p c o1 ms new offer
  assume o: "active_local_sdp neg = Some o1"
    and new: "new = s\<lparr>origin_user := origin_user o1, origin_id := origin_id o1, origin_net_type := origin_net_type o1,
           origin_addr_type := origin_addr_type o1, origin_addr := origin_addr o1, s_media := ms, origin_version := origin_version o1\<rparr>"
    and offer: "offer = (if not_equal (last_sent neg) new then bump_version new else new)"
    and neg': "neg' = neg\<lparr>neg_state := PJMEDIA_SDP_NEG_STATE_LOCAL_OFFER, pt_to_codec := p, codec_to_pt := c, initial_sdp_tmp := initial_sdp neg,
           initial_sdp := Some offer, neg_local_sdp := Some offer, last_sent := Some offer\<rparr>"
  have "origin_version new = origin_version old" using o assms(2) by (simp add: new)
  then have "not_equal (last_sent neg) new" using cmp_version[of sent new] assms(3,4) by auto
  then show ?thesis using o assms(2) by (simp add: neg' offer bump_version_def new)
qed (use assms in simp_all)

text \<open>C39: after an offer with a new version is cancelled, the next offer, whatever its media, goes out with the same
  version as the one that was cancelled.\<close>

theorem sdp_version_repeats:
  assumes "pjmedia_sdp_neg_modify_local_offer s1 neg = (PJ_SUCCESS, neg1)" and "active_local_sdp neg = Some old"
    and "last_sent neg1 = Some offer1" and "origin_version offer1 \<noteq> origin_version old"
    and "pjmedia_sdp_neg_cancel_offer neg1 = (PJ_SUCCESS, neg2)"
    and "pjmedia_sdp_neg_modify_local_offer s2 neg2 = (PJ_SUCCESS, neg3)"
  shows "\<exists>offer2. last_sent neg3 = Some offer2 \<and> origin_version offer2 = origin_version offer1"
proof -
  have m1: "pjmedia_sdp_neg_modify_local_offer2 False s1 neg = (PJ_SUCCESS, neg1)"
    and m2: "pjmedia_sdp_neg_modify_local_offer2 False s2 neg2 = (PJ_SUCCESS, neg3)"
    using assms(1,6) by (simp_all add: pjmedia_sdp_neg_modify_local_offer_def)
  have v1: "origin_version offer1 = u32 (int (origin_version old) + 1)" and a1: "active_local_sdp neg1 = Some old"
    using m1 by (rule modify_cases; use assms(2-4) in \<open>auto simp: bump_version_def split: if_splits\<close>)+
  have "active_local_sdp neg2 = Some old" "last_sent neg2 = Some offer1"
    using assms(3,5) a1 by (auto simp: pjmedia_sdp_neg_cancel_offer_def Let_def split: if_splits)
  then show ?thesis using modify_version[OF m2, of old offer1] assms(4) v1 by simp
qed

section \<open>Instances\<close>

text \<open>A session: an offer, its answer, and their negotiation.\<close>

definition plain_session :: "pj_str_t \<Rightarrow> pjmedia_sdp_session" where
  "plain_session ty = sample_session [sample_media ty [ascii ''0''] []]"

definition sample_neg :: pjmedia_sdp_neg where
  "sample_neg = projr (pjmedia_sdp_neg_create_w_local_offer plain_env (plain_session (ascii ''audio'')))"

definition sample_waiting :: pjmedia_sdp_neg where
  "sample_waiting = snd (pjmedia_sdp_neg_set_remote_answer (plain_session (ascii ''audio'')) sample_neg)"

definition sample_done :: pjmedia_sdp_neg where
  "sample_done = snd (the (pjmedia_sdp_neg_negotiate plain_env False sample_waiting))"

lemma sample_neg_reachable: "reachable_neg plain_env sample_neg" "neg_state sample_neg = PJMEDIA_SDP_NEG_STATE_LOCAL_OFFER"
proof -
  have "pjmedia_sdp_validate (plain_session (ascii ''audio'')) = PJ_SUCCESS" by code_simp
  then have c: "pjmedia_sdp_neg_create_w_local_offer plain_env (plain_session (ascii ''audio'')) = Inr sample_neg"
    by (simp add: sample_neg_def pjmedia_sdp_neg_create_w_local_offer_def)
  then show "reachable_neg plain_env sample_neg" by (rule local_offer)
  show "neg_state sample_neg = PJMEDIA_SDP_NEG_STATE_LOCAL_OFFER"
    by code_simp
qed

lemma sample_done_facts:
  "reachable_neg plain_env sample_done" "neg_state sample_done = PJMEDIA_SDP_NEG_STATE_DONE"
  "map_option origin_version (active_local_sdp sample_done) = Some 1" "initial_sdp sample_done = Some (plain_session (ascii ''audio''))"
proof -
  have "map_option fst (pjmedia_sdp_neg_negotiate plain_env False sample_waiting) = Some PJ_SUCCESS" by code_simp
  then have n: "neg_do plain_env (Negotiate False) sample_waiting = Some (PJ_SUCCESS, sample_done)"
    by (auto simp: sample_done_def)
  have "neg_do plain_env (SetRemoteAnswer (plain_session (ascii ''audio''))) sample_neg = Some (PJ_SUCCESS, sample_waiting)"
    by (simp add: sample_waiting_def pjmedia_sdp_neg_set_remote_answer_def sample_neg_reachable(2))
  then have "reachable_neg plain_env sample_waiting" using sample_neg_reachable(1) by (rule operation[rotated])
  then show "reachable_neg plain_env sample_done" using n by (rule operation)
  show "neg_state sample_done = PJMEDIA_SDP_NEG_STATE_DONE" by code_simp
  show "map_option origin_version (active_local_sdp sample_done) = Some 1" by code_simp
  show "initial_sdp sample_done = Some (plain_session (ascii ''audio''))" by code_simp
qed

lemma sdp_neg_well_formed_witness: "neg_ok sample_done"
  using sample_done_facts(1) by (rule sdp_neg_well_formed)



definition sample_reoffer :: pjmedia_sdp_session where
  "sample_reoffer = plain_session (ascii ''video'')"


lemma sdp_version_repeats_witness:
  "\<exists>neg1 neg2 neg3 offer1 offer2. pjmedia_sdp_neg_modify_local_offer sample_reoffer sample_done = (PJ_SUCCESS, neg1) \<and>
    pjmedia_sdp_neg_cancel_offer neg1 = (PJ_SUCCESS, neg2) \<and>
    pjmedia_sdp_neg_modify_local_offer (plain_session (ascii ''audio'')) neg2 = (PJ_SUCCESS, neg3) \<and>
    last_sent neg1 = Some offer1 \<and> last_sent neg3 = Some offer2 \<and> origin_version offer1 = 2 \<and> origin_version offer2 = 2"
proof -
  define neg1 where "neg1 = snd (pjmedia_sdp_neg_modify_local_offer sample_reoffer sample_done)"
  define neg2 where "neg2 = snd (pjmedia_sdp_neg_cancel_offer neg1)"
  define neg3 where "neg3 = snd (pjmedia_sdp_neg_modify_local_offer (plain_session (ascii ''audio'')) neg2)"
  have "fst (pjmedia_sdp_neg_modify_local_offer sample_reoffer sample_done) = PJ_SUCCESS" by code_simp
  then have m1: "pjmedia_sdp_neg_modify_local_offer sample_reoffer sample_done = (PJ_SUCCESS, neg1)"
    unfolding neg1_def by (metis prod.collapse)
  have "map_option origin_version (last_sent neg1) = Some 2" unfolding neg1_def by code_simp
  then obtain offer1 where o1: "last_sent neg1 = Some offer1" "origin_version offer1 = 2" by auto
  obtain old where old: "active_local_sdp sample_done = Some old" "origin_version old = 1" using sample_done_facts(3) by auto
  have "neg_state neg1 = PJMEDIA_SDP_NEG_STATE_LOCAL_OFFER"
    using m1 unfolding pjmedia_sdp_neg_modify_local_offer_def by (rule modify_cases) simp_all
  then have m2: "pjmedia_sdp_neg_cancel_offer neg1 = (PJ_SUCCESS, neg2)" and st: "neg_state neg2 = PJMEDIA_SDP_NEG_STATE_DONE"
    by (simp_all add: neg2_def pjmedia_sdp_neg_cancel_offer_def)
  have "pjmedia_sdp_validate (plain_session (ascii ''audio'')) = PJ_SUCCESS" by code_simp
  then have "fst (pjmedia_sdp_neg_modify_local_offer (plain_session (ascii ''audio'')) neg2) = PJ_SUCCESS"
    by (auto simp: pjmedia_sdp_neg_modify_local_offer_def pjmedia_sdp_neg_modify_local_offer2_def st Let_def
        split: option.splits prod.splits)
  then have m3: "pjmedia_sdp_neg_modify_local_offer (plain_session (ascii ''audio'')) neg2 = (PJ_SUCCESS, neg3)"
    unfolding neg3_def by (metis prod.collapse)
  from sdp_version_repeats[OF m1 old(1) o1(1) _ m2 m3] show ?thesis using m1 m2 m3 o1 old by auto
qed

end
