(* ===== verification/Spec2Isabelle.thy ===== *)
theory Spec2Isabelle
  imports Pj_Hash Rtp Jbuf_Props Stun_Tsx Sip_Tsx_Props Sip_Layer_Props Sdp_Answer Sdp_Neg_Props
begin

text \<open>
  The core of a SIP phone: MicroSIP, and the PJSIP stack (\<^verbatim>\<open>pjproject-2.15.1\<close>) that it is built on.
  Paths below are relative to \<^verbatim>\<open>src/pjproject-2.15.1\<close>.

  \<^bold>\<open>The program.\<close>  The GUI starts and answers calls through \<^verbatim>\<open>pjsua-lib\<close>.  Under it, SIP requests and
  responses travel in transactions (\<^verbatim>\<open>sip_transaction.c\<close>), which the transaction layer finds by key in hash
  tables (\<^verbatim>\<open>hash.c\<close>) and which retransmit and time out by timers of the one timer heap (\<^verbatim>\<open>timer.c\<close>).  The same
  heap drives the retransmissions of STUN requests (\<^verbatim>\<open>stun_transaction.c\<close>), with which the address behind a
  NAT is found.  What media a call has, and in which formats, is agreed on by offers and answers, session
  descriptions (\<^verbatim>\<open>sdp.c\<close>) that travel in the messages and that the negotiator (\<^verbatim>\<open>sdp_neg.c\<close>) makes and compares.
  Voice arrives as RTP packets (\<^verbatim>\<open>rtp.c\<close>), whose frames wait for their turn in a jitter
  buffer (\<^verbatim>\<open>jbuf.c\<close>).

  \<^bold>\<open>Theories.\<close>
  \<^item> \<^verbatim>\<open>Prelude\<close>: status codes, bytes, \<^verbatim>\<open>unsigned\<close> and \<^verbatim>\<open>int\<close> of 32 bits as integers with the
    wrap-around written out (\<^verbatim>\<open>u32\<close>, \<^verbatim>\<open>s32\<close>), and lemmas on lists and functions that the components share.
  \<^item> \<^verbatim>\<open>Pj_Time\<close>: \<^verbatim>\<open>pj_time_val\<close> of \<^verbatim>\<open>types.h\<close> and \<^verbatim>\<open>types.c\<close>; the order of times and their arithmetic.
  \<^item> \<^verbatim>\<open>Pj_String\<close>: what the components use of \<^verbatim>\<open>pj/string.c\<close>: comparison without regard to case, numbers and digits.
  \<^item> \<^verbatim>\<open>Timer_Heap\<close>, \<^verbatim>\<open>Timer_Heap_Props\<close>: \<^verbatim>\<open>pj/timer.c\<close>.  The arrays \<^verbatim>\<open>heap\<close>, \<^verbatim>\<open>timer_ids\<close> and \<^verbatim>\<open>timer_dups\<close> are
    functions on indices, the client's entries a store of entries by address.  The invariant holds the order of
    the heap, the two-way link between slots and identifiers, and the free list; scheduling and cancelling refine
    an update of a map from entries to expiry times, and a poll fires what is due, in order.  The contract
    \<^verbatim>\<open>timer_service\<close> that clients use is a locale, interpreted on the heap.
  \<^item> \<^verbatim>\<open>Pj_Hash\<close>: \<^verbatim>\<open>pj/hash.c\<close>.  Buckets are lists of entries; the table refines a map from keys (lower case
    where the caller asks for it) to values, stated as the locale \<^verbatim>\<open>key_table\<close>, interpreted for both kinds of
    key; iteration visits everything; creation returns exactly up to 2^31 buckets.
  \<^item> \<^verbatim>\<open>Rtp\<close>: \<^verbatim>\<open>pjmedia/rtp.c\<close>.  Headers are bytes in network order; decoding inverts encoding and stays inside
    the packet; the sequence numbers of 16 bits follow the sender's over wrap-arounds.
  \<^item> \<^verbatim>\<open>Jbuf_Framelist\<close>, \<^verbatim>\<open>Jbuf\<close>, \<^verbatim>\<open>Jbuf_Props\<close>: \<^verbatim>\<open>pjmedia/jbuf.c\<close>.  The circular frame list refines a list
    of slots starting at a sequence number; the jitter buffer over it delivers frames once, in order, and its
    adaptation stays in range, over every sequence of operations.
  \<^item> \<^verbatim>\<open>Stun_Tsx\<close>: \<^verbatim>\<open>pjnath/stun_transaction.c\<close> on the timer heap, by the locale \<^verbatim>\<open>timer_service\<close>: the
    retransmission schedule, and that completion is reported at most once.
  \<^item> \<^verbatim>\<open>Sip_Tsx\<close>, \<^verbatim>\<open>Sip_Tsx_Props\<close>: the transaction of \<^verbatim>\<open>pjsip/sip_transaction.c\<close>: its record, timers, transport,
    the sending of messages with its callbacks, and one handler per state.  The handlers refine the state
    diagrams of RFC 3261 (\<^verbatim>\<open>rfc_step\<close>); the end of a transaction and the schedule of its retransmissions are
    stated over the same definitions.
  \<^item> \<^verbatim>\<open>Sip_Tsx_Layer\<close>, \<^verbatim>\<open>Sip_Layer_Props\<close>: the keys and tables of the transaction layer, creation, dispatch
    and merged requests, and \<^verbatim>\<open>pjsip_endpt_respond\<close> of \<^verbatim>\<open>sip_util_statefull.c\<close>.  Registration refines the map of
    \<^verbatim>\<open>Pj_Hash\<close>; requests reach the transaction with their key.
  \<^item> \<^verbatim>\<open>Sdp\<close>: \<^verbatim>\<open>pjmedia/sdp.c\<close> and \<^verbatim>\<open>sdp_cmp.c\<close>: session descriptions, their attributes, validation and comparison, and
    the names and the search of codecs.
  \<^item> \<^verbatim>\<open>Sdp_Neg\<close>: \<^verbatim>\<open>pjmedia/sdp_neg.c\<close>: the states, the processing of an answer, the making of one, and the
    numbers of dynamic payload types.
  \<^item> \<^verbatim>\<open>Sdp_Props\<close>: reading back what is printed; the binary search against a linear one; directions; that after an
    answer both sides have the formats they share, in the same order, and the same media.
  \<^item> \<^verbatim>\<open>Sdp_Answer\<close>: every valid offer is answered, with offered formats only, when callbacks keep to the contract
    \<^verbatim>\<open>callbacks_ok\<close> and the local formats are as they are defined (\<^verbatim>\<open>sane_media\<close>).
  \<^item> \<^verbatim>\<open>Sdp_Neg_Props\<close>: over all sequences of operations, the invariant of the states, the state diagram of the header
    file, that offers without success leave the session as it was, and what a new offer keeps.

  \<^bold>\<open>How code becomes definitions.\<close>  A C structure is a record, an enumeration a datatype or its numbers, a
  pointer an address (a natural number) or an option; each function takes the state and gives it back.  A status
  is an integer, zero for success.  Callbacks are parameters of the operations, or events of a trace where
  only their order matters.  Locks are not modelled: every operation runs between the locking and the unlocking of
  its object, so that its definition is one atomic step, and what the code does between two of them is a
  sequence of steps.  Memory pools always have memory, except where the code tests for it (the growth of the timer heap).

  \<^bold>\<open>Loops and bounds.\<close>  Loops that end are recursive functions with a measure: the sifting of the heap by
  the index, the poll by the number of entries it may still fire, scans of the frame list by what is left of it.
  The doubling loop of \<^verbatim>\<open>pj_hash_create\<close> and the retry loops of the jitter buffer may not end, and are partial
  functions into an option; that they return is proved.  The making of an answer gives an option too: \<^verbatim>\<open>None\<close>
  stands for the assertion that a chosen format is there, which is proved to hold.  The loops over the iterator of a hash table carry a
  count, the number of entries of the table when they start, which is enough by \<^verbatim>\<open>hash_iterate_visits_all\<close>.

  \<^bold>\<open>Not modelled.\<close>  Vendored code (Opus and the libraries of \<^verbatim>\<open>third_party\<close>), the GUI, sockets, threads and
  other input and output, the parsing and printing of messages and of whole session descriptions, dialogs and
  sessions of calls, ICE and TURN, and codecs.  Of the modelled files: logging and dumps, the floating-point statistics
  of the jitter buffer, and the start-up of modules.
\<close>

end
